(* ===== verification/Go_Prelude.thy ===== *)
theory Go_Prelude
  imports Main "HOL-Library.Sublist"
begin

text \<open>
  Shared ground of the development: how a Go function that reads and changes the outside
  world is written as a HOL function, and the rules the component proofs use.

  A Go call ends in one of four ways: it returns normally (\<open>Ok\<close>), it returns a non-nil
  error (\<open>Err\<close>), it panics (\<open>Panic\<close>), or the process exits (\<open>Exit\<close>, from
  \<open>os.Exit\<close> and \<open>log.Fatal\<close>). An effectful function is a state transformer that yields
  one of these outcomes together with the state it leaves behind, so the effects of a failed
  call are kept.
\<close>

section \<open>Outcomes and effectful functions\<close>

datatype goerr = NotExist | Fail string

datatype 'a outcome = Ok 'a | Err goerr | Panic string | Exit nat

type_synonym ('s, 'a) go = "'s \<Rightarrow> 'a outcome \<times> 's"

definition returnG :: "'a \<Rightarrow> ('s, 'a) go" where
  "returnG a = (\<lambda>s. (Ok a, s))"

definition failG :: "goerr \<Rightarrow> ('s, 'a) go" where
  "failG e = (\<lambda>s. (Err e, s))"

definition panicG :: "string \<Rightarrow> ('s, 'a) go" where
  "panicG msg = (\<lambda>s. (Panic msg, s))"

definition exitG :: "nat \<Rightarrow> ('s, 'a) go" where
  "exitG n = (\<lambda>s. (Exit n, s))"

text \<open>Sequencing: \<open>x, err := m(); if err != nil { return err }; k(x)\<close>.\<close>

definition bindG :: "('s, 'a) go \<Rightarrow> ('a \<Rightarrow> ('s, 'b) go) \<Rightarrow> ('s, 'b) go" where
  "bindG m k = (\<lambda>s. case m s of
       (Ok a, t) \<Rightarrow> k a t
     | (Err e, t) \<Rightarrow> (Err e, t)
     | (Panic p, t) \<Rightarrow> (Panic p, t)
     | (Exit n, t) \<Rightarrow> (Exit n, t))"

text \<open>
  An error the caller looks at, or drops: the error becomes a value. Panics and exits are
  not caught.
\<close>

definition tryG :: "('s, 'a) go \<Rightarrow> ('s, goerr + 'a) go" where
  "tryG m = (\<lambda>s. case m s of
       (Ok a, t) \<Rightarrow> (Ok (Inr a), t)
     | (Err e, t) \<Rightarrow> (Ok (Inl e), t)
     | (Panic p, t) \<Rightarrow> (Panic p, t)
     | (Exit n, t) \<Rightarrow> (Exit n, t))"

text \<open>A \<open>for _, x := range xs\<close> loop whose body updates local variables \<open>b\<close>.\<close>

fun forG :: "'a list \<Rightarrow> ('a \<Rightarrow> 'b \<Rightarrow> ('s, 'b) go) \<Rightarrow> 'b \<Rightarrow> ('s, 'b) go" where
  "forG [] f b = returnG b"
| "forG (x # xs) f b = bindG (f x b) (forG xs f)"

text \<open>Indexing a slice: out of range is a run-time panic.\<close>

definition indexG :: "'a list \<Rightarrow> nat \<Rightarrow> ('s, 'a) go" where
  "indexG xs i = (if i < length xs then returnG (xs ! i) else panicG ''index out of range'')"

section \<open>Weakest preconditions\<close>

text \<open>
  \<open>wp m Q E s\<close>: run from \<open>s\<close>, a normal return satisfies \<open>Q\<close> and every other
  ending leaves a state with \<open>E\<close>.
\<close>

definition wp :: "('s, 'a) go \<Rightarrow> ('a \<Rightarrow> 's \<Rightarrow> bool) \<Rightarrow> ('s \<Rightarrow> bool) \<Rightarrow> 's \<Rightarrow> bool" where
  "wp m Q E s \<longleftrightarrow> (case m s of (r, t) \<Rightarrow> (case r of Ok a \<Rightarrow> Q a t | _ \<Rightarrow> E t))"

text \<open>Two-state properties: every ending of \<open>m\<close> is related to its start.\<close>

definition within :: "('s \<Rightarrow> 's \<Rightarrow> bool) \<Rightarrow> ('s, 'a) go \<Rightarrow> bool" where
  "within R m \<longleftrightarrow> (\<forall>s. R s (snd (m s)))"

named_theorems wp_intros
named_theorems go_defs

declare returnG_def [go_defs] failG_def [go_defs] panicG_def [go_defs] exitG_def [go_defs]

lemma wp_return [wp_intros]: "Q a s \<Longrightarrow> wp (returnG a) Q E s"
  by (simp add: wp_def returnG_def)

lemma wp_fail [wp_intros]: "E s \<Longrightarrow> wp (failG e) Q E s"
  by (simp add: wp_def failG_def)

lemma wp_panic [wp_intros]: "E s \<Longrightarrow> wp (panicG p) Q E s"
  by (simp add: wp_def panicG_def)

lemma wp_exit [wp_intros]: "E s \<Longrightarrow> wp (exitG n) Q E s"
  by (simp add: wp_def exitG_def)

lemma wp_bind [wp_intros]:
  "wp m (\<lambda>a. wp (k a) Q E) E s \<Longrightarrow> wp (bindG m k) Q E s"
  by (auto simp: wp_def bindG_def split: prod.splits outcome.splits)

lemma wp_try:
  "wp m (\<lambda>a. Q (Inr a)) (\<lambda>t. E t \<and> (\<forall>e. Q (Inl e) t)) s \<Longrightarrow> wp (tryG m) Q E s"
  by (auto simp: wp_def tryG_def split: prod.splits outcome.splits)

lemma wp_index [wp_intros]:
  "(i < length xs \<Longrightarrow> Q (xs ! i) s) \<Longrightarrow> E s \<Longrightarrow> wp (indexG xs i) Q E s"
  by (simp add: indexG_def wp_return wp_panic)

lemma wp_if [wp_intros]:
  "(c \<Longrightarrow> wp m Q E s) \<Longrightarrow> (\<not> c \<Longrightarrow> wp n Q E s) \<Longrightarrow> wp (if c then m else n) Q E s"
  by simp

text \<open>What a call always returns may be assumed of its result.\<close>

lemma bindG_only:
  assumes "\<And>s. wp m (\<lambda>a _. A a) (\<lambda>_. True) s"
  shows "bindG m k = bindG m (\<lambda>a. if A a then k a else panicG [])"
proof
  fix s
  from assms [of s] show "bindG m k s = bindG m (\<lambda>a. if A a then k a else panicG []) s"
    by (auto simp: wp_def bindG_def split: prod.split outcome.split)
qed

lemma wp_weaken:
  "wp m Q E s \<Longrightarrow> (\<And>a t. Q a t \<Longrightarrow> Q' a t) \<Longrightarrow> (\<And>t. E t \<Longrightarrow> E' t) \<Longrightarrow> wp m Q' E' s"
  by (auto simp: wp_def split: prod.splits outcome.splits)

lemma wp_anyway: "(\<And>a t. Q a t) \<Longrightarrow> wp m Q (\<lambda>_. True) s"
  by (auto simp: wp_def split: prod.split outcome.split)

lemma wp_Ok: "wp m Q E s \<Longrightarrow> m s = (Ok a, t) \<Longrightarrow> Q a t"
  by (simp add: wp_def)

lemma wp_any:
  "wp m (\<lambda>_. E) E s \<Longrightarrow> E (snd (m s))"
  by (auto simp: wp_def split: prod.splits outcome.splits)

text \<open>The loop rule: an invariant over the items already done and the local variables.\<close>

lemma wp_for:
  assumes step: "\<And>done x rest b s. xs = done @ x # rest \<Longrightarrow> I done b s \<Longrightarrow>
      wp (f x b) (\<lambda>b'. I (done @ [x]) b') E s"
    and start: "I [] b s"
    and finish: "\<And>b t. I xs b t \<Longrightarrow> Q b t"
  shows "wp (forG xs f b) Q E s"
proof -
  have "wp (forG rest f b) (I xs) E s" if "xs = done @ rest" "I done b s" for rest "done" b s
    using that
  proof (induction rest arbitrary: "done" b s)
    case Nil
    then show ?case by (simp add: wp_return)
  next
    case (Cons x rest)
    from step [OF Cons.prems] have "wp (f x b) (\<lambda>b'. I (done @ [x]) b') E s" .
    then have "wp (f x b) (\<lambda>b'. wp (forG rest f b') (I xs) E) E s"
      by (rule wp_weaken) (use Cons in auto)
    then show ?case by (auto intro: wp_bind)
  qed
  from this [of "[]" xs] start have "wp (forG xs f b) (I xs) E s" by simp
  then show ?thesis by (rule wp_weaken) (auto intro: finish)
qed

lemma wp_conj: "wp m Q E s \<Longrightarrow> wp m R E s \<Longrightarrow> wp m (\<lambda>a t. Q a t \<and> R a t) E s"
  by (auto simp: wp_def split: prod.splits outcome.splits)

text \<open>A fact about every result, beside an invariant.\<close>

lemma wp_fact: "wp m Q E s \<Longrightarrow> wp m (\<lambda>a _. P a) (\<lambda>_. True) s \<Longrightarrow> wp m (\<lambda>a t. Q a t \<and> P a) E s"
  by (auto simp: wp_def split: prod.splits outcome.splits)

text \<open>A loop that adds a known number to a size in every turn.\<close>

lemma wp_count_for:
  fixes sz :: "'b \<Rightarrow> nat" and incr :: "'x \<Rightarrow> nat" and f :: "'x \<Rightarrow> 'b \<Rightarrow> ('s, 'b) go"
  assumes "\<And>x b s. x \<in> set xs \<Longrightarrow> wp (f x b) (\<lambda>b' _. sz b' = sz b + incr x) (\<lambda>_. True) s"
  shows "wp (forG xs f b) (\<lambda>b' _. sz b' = sz b + sum_list (map incr xs)) (\<lambda>_. True) s"
  using assms
proof (induction xs arbitrary: b s)
  case (Cons y ys b s)
  have "wp (f y b) (\<lambda>b' t. wp (forG ys f b') (\<lambda>b'' _. sz b'' = sz b + sum_list (map incr (y # ys))) (\<lambda>_. True) t)
      (\<lambda>_. True) s"
  proof (rule wp_weaken)
    show "wp (f y b) (\<lambda>b' _. sz b' = sz b + incr y) (\<lambda>_. True) s" by (rule Cons.prems) simp
  next
    fix b' t assume b': "sz b' = sz b + incr y"
    have "wp (forG ys f b') (\<lambda>b'' _. sz b'' = sz b' + sum_list (map incr ys)) (\<lambda>_. True) t"
      by (rule Cons.IH) (rule Cons.prems, simp)
    then show "wp (forG ys f b') (\<lambda>b'' _. sz b'' = sz b + sum_list (map incr (y # ys))) (\<lambda>_. True) t"
      by (rule wp_weaken) (simp_all add: b')
  qed simp
  then show ?case unfolding forG.simps by (rule wp_bind)
qed (simp add: wp_return)

section \<open>Two-state relations closed under sequencing\<close>

text \<open>
  Any reflexive and transitive relation that each primitive respects is respected by every
  program built from the combinators. The components interpret it for what they only ever
  extend and for what they never touch.
\<close>

locale step_rel =
  fixes R :: "'s \<Rightarrow> 's \<Rightarrow> bool"
  assumes refl_R: "R s s"
    and trans_R: "R s t \<Longrightarrow> R t u \<Longrightarrow> R s u"
begin

lemma within_return: "within R (returnG a)"
  by (simp add: within_def returnG_def refl_R)

lemma within_fail: "within R (failG e)"
  by (simp add: within_def failG_def refl_R)

lemma within_panic: "within R (panicG p)"
  by (simp add: within_def panicG_def refl_R)

lemma within_exit: "within R (exitG n)"
  by (simp add: within_def exitG_def refl_R)

lemma within_bind:
  assumes "within R m" and "\<And>a. within R (k a)"
  shows "within R (bindG m k)"
  unfolding within_def
proof
  fix s
  obtain r t where m: "m s = (r, t)" by (cases "m s")
  with assms(1) have "R s t" by (metis within_def snd_conv)
  moreover have "R t (snd (k a t))" for a using assms(2) by (simp add: within_def)
  ultimately show "R s (snd (bindG m k s))"
    using m by (auto simp: bindG_def intro: trans_R split: outcome.splits)
qed

lemma within_try: "within R m \<Longrightarrow> within R (tryG m)"
  by (auto simp: within_def tryG_def split: prod.splits outcome.splits) (metis snd_conv)+

lemma within_for:
  assumes "\<And>x b. within R (f x b)"
  shows "within R (forG xs f b)"
  by (induction xs arbitrary: b) (auto intro: within_return within_bind assms)

lemma within_if: "within R m \<Longrightarrow> within R n \<Longrightarrow> within R (if c then m else n)"
  by simp

lemma within_index: "within R (indexG xs i)"
  by (simp add: indexG_def within_return within_panic)

lemmas within_intros =
  within_return within_fail within_panic within_exit within_bind within_try within_for
  within_if within_index

end

lemma withinD: "within R m \<Longrightarrow> m s = (r, t) \<Longrightarrow> R s t"
  by (metis within_def snd_conv)

lemma wp_within:
  "within R m \<Longrightarrow> (\<And>a t. R s t \<Longrightarrow> Q a t) \<Longrightarrow> (\<And>t. R s t \<Longrightarrow> E t) \<Longrightarrow> wp m Q E s"
  by (auto simp: wp_def within_def split: prod.splits outcome.splits)
    (metis snd_conv)+

section \<open>Sequencing facts for evaluation\<close>

lemma bindG_return [simp]: "bindG (returnG a) k = k a"
  by (simp add: bindG_def returnG_def)

lemma bindG_assoc: "bindG (bindG m k) h = bindG m (\<lambda>a. bindG (k a) h)"
  by (auto simp: bindG_def fun_eq_iff split: prod.splits outcome.splits)

lemma forG_append: "forG (xs @ ys) f b = bindG (forG xs f b) (forG ys f)"
proof (induction xs arbitrary: b)
  case Nil
  then show ?case by simp
next
  case (Cons x xs)
  have "forG (xs @ ys) f = (\<lambda>b. bindG (forG xs f b) (forG ys f))"
    by (rule ext) (rule Cons.IH)
  then show ?case by (simp add: bindG_assoc)
qed

lemma bindG_OkE:
  assumes "bindG m k s = (Ok b, u)"
  obtains a t where "m s = (Ok a, t)" and "k a t = (Ok b, u)"
  using assms by (auto simp: bindG_def split: prod.splits outcome.splits)

section \<open>Programs that run alike\<close>

text \<open>Same endings, same states, related results: a simulation between two renderings of one function.\<close>

definition alike :: "('a \<Rightarrow> 'b \<Rightarrow> bool) \<Rightarrow> ('s, 'a) go \<Rightarrow> ('s, 'b) go \<Rightarrow> bool" where
  "alike R m n \<longleftrightarrow> (\<forall>s. rel_outcome R (fst (m s)) (fst (n s)) \<and> snd (m s) = snd (n s))"

lemma alike_return: "R a b \<Longrightarrow> alike R (returnG a) (returnG b)"
  by (simp add: alike_def returnG_def)

lemma alike_bind:
  assumes "alike R m n" and "\<And>a b. R a b \<Longrightarrow> alike S (k a) (l b)"
  shows "alike S (bindG m k) (bindG n l)"
  unfolding alike_def
proof
  fix s
  from assms(1) have *: "rel_outcome R (fst (m s)) (fst (n s))" "snd (m s) = snd (n s)" by (simp_all add: alike_def)
  obtain r r' t where m: "m s = (r, t)" "n s = (r', t)" using *(2) by (metis prod.collapse)
  with *(1) assms(2) show "rel_outcome S (fst (bindG m k s)) (fst (bindG n l s)) \<and> snd (bindG m k s) = snd (bindG n l s)"
    by (cases r; cases r') (simp_all add: bindG_def alike_def)
qed

lemma alike_refl: "alike (=) m m"
  by (simp add: alike_def outcome.rel_eq)

lemmas alike_step = alike_bind [OF alike_refl]

lemma alike_steps: "(\<And>a. alike R (k a) (l a)) \<Longrightarrow> alike R (bindG m k) (bindG m l)"
  by (rule alike_step) simp

lemma alike_if: "alike R m n \<Longrightarrow> alike R m' n' \<Longrightarrow> alike R (if c then m else m') (if c then n else n')"
  by simp

lemma alike_for:
  assumes "\<And>x a b. R a b \<Longrightarrow> alike R (f x a) (g x b)"
  shows "R a b \<Longrightarrow> alike R (forG xs f a) (forG xs g b)"
proof (induction xs arbitrary: a b)
  case (Cons x xs)
  then show ?case using alike_bind [OF assms Cons.IH] by simp
qed (simp add: alike_return)

lemma alike_eq: "alike (=) m n \<Longrightarrow> m = n"
  by (rule ext) (simp add: alike_def outcome.rel_eq prod_eq_iff)

lemma alikeD: "alike R m n \<Longrightarrow> m s = (r, t) \<Longrightarrow> \<exists>r'. n s = (r', t) \<and> rel_outcome R r r'"
  unfolding alike_def by (metis prod.collapse fst_conv snd_conv)

text \<open>Facts that one side knows of its results.\<close>

lemma alike_bind_wp:
  assumes "alike R m n" and "\<And>s. wp n (\<lambda>b _. P b) (\<lambda>_. True) s" and "\<And>a b. R a b \<Longrightarrow> P b \<Longrightarrow> alike S (k a) (l b)"
  shows "alike S (bindG m k) (bindG n l)"
proof (rule alike_bind [where R = "\<lambda>a b. R a b \<and> P b"])
  show "alike (\<lambda>a b. R a b \<and> P b) m n"
    unfolding alike_def
  proof
    fix s
    note n = assms(2) [of s]
    from assms(1) have "rel_outcome R (fst (m s)) (fst (n s)) \<and> snd (m s) = snd (n s)" by (simp add: alike_def)
    with n show "rel_outcome (\<lambda>a b. R a b \<and> P b) (fst (m s)) (fst (n s)) \<and> snd (m s) = snd (n s)"
      by (cases "fst (m s)"; cases "fst (n s)") (auto simp: wp_def split: prod.splits)
  qed
qed (use assms(3) in blast)

lemmas alike_steps_wp = alike_bind_wp [OF alike_refl]

lemma wp_alike: "alike R m n \<Longrightarrow> wp n (\<lambda>b _. \<exists>a. R a b) (\<lambda>_. True) s"
  unfolding alike_def wp_def by (cases "m s"; cases "n s"; cases "fst (m s)"; cases "fst (n s)") (auto dest!: spec [of _ s])

end
