(* ===== verification/Go_Fmt.thy ===== *)
theory Go_Fmt
  imports Go_Prelude
begin

text \<open>
  The parts of Go's \<open>fmt\<close> and \<open>strings\<close> packages the program prints with: decimal
  integers (\<open>%d\<close>), two-digit and plain lower-case hexadecimal (\<open>%02x\<close>, \<open>%x\<close>),
  slices of strings (\<open>%s\<close>), \<open>strings.Split\<close> on a one-character separator,
  \<open>strings.TrimSuffix\<close>, and the truncated integer division of Go. A Go string is a
  sequence of bytes, here a list of \<open>char\<close>.
\<close>

section \<open>Numbers\<close>

definition digitChar :: "nat \<Rightarrow> char" where
  "digitChar d = ''0123456789abcdef'' ! d"

fun showNat :: "nat \<Rightarrow> string" where
  "showNat n = (if n < 10 then [digitChar n] else showNat (n div 10) @ [digitChar (n mod 10)])"

declare showNat.simps [simp del]

definition showInt :: "int \<Rightarrow> string" where
  "showInt i = (if i < 0 then CHR ''-'' # showNat (nat (- i)) else showNat (nat i))"

definition hex2 :: "nat \<Rightarrow> string" where
  "hex2 b = [digitChar (b div 16 mod 16), digitChar (b mod 16)]"

definition hexString :: "string \<Rightarrow> string" where
  "hexString bs = concat (map (\<lambda>c. hex2 (of_char c)) bs)"

text \<open>Go's integer division truncates towards zero.\<close>

definition goDiv :: "int \<Rightarrow> int \<Rightarrow> int" where
  "goDiv a b = sgn a * sgn b * (\<bar>a\<bar> div \<bar>b\<bar>)"

section \<open>Strings and slices\<close>

fun splitOn :: "char \<Rightarrow> string \<Rightarrow> string list" where
  "splitOn c [] = [[]]"
| "splitOn c (x # xs) =
     (if x = c then [] # splitOn c xs
      else (case splitOn c xs of [] \<Rightarrow> [[x]] | y # ys \<Rightarrow> (x # y) # ys))"

fun joinWith :: "string \<Rightarrow> string list \<Rightarrow> string" where
  "joinWith sep [] = []"
| "joinWith sep [x] = x"
| "joinWith sep (x # y # ys) = x @ sep @ joinWith sep (y # ys)"

definition showStrings :: "string list \<Rightarrow> string" where
  "showStrings xs = ''['' @ joinWith '' '' xs @ '']''"

definition trimSuffix :: "string \<Rightarrow> string \<Rightarrow> string" where
  "trimSuffix s suf =
     (if drop (length s - length suf) s = suf then take (length s - length suf) s else s)"

text \<open>Text literals of several lines, each ended by a newline.\<close>

definition newline :: string where
  "newline = [CHR 0x0A]"

definition asLines :: "string list \<Rightarrow> string" where
  "asLines ls = concat (map (\<lambda>l. l @ newline) ls)"

text \<open>How \<open>%s\<close> prints an error.\<close>

fun errText :: "goerr \<Rightarrow> string" where
  "errText NotExist = ''file does not exist''"
| "errText (Fail msg) = msg"

section \<open>Facts\<close>

lemma digitChar_cases:
  "d < 10 \<Longrightarrow> digitChar d \<in> set ''0123456789''"
proof -
  assume d: "d < 10"
  have "''0123456789abcdef'' ! d = (''0123456789'' @ ''abcdef'') ! d" by simp
  also have "\<dots> = ''0123456789'' ! d" using d by (subst nth_append) simp
  also have "\<dots> \<in> set ''0123456789''" by (rule nth_mem) (use d in simp)
  finally show ?thesis by (simp only: digitChar_def)
qed

lemma digitChar_inj: "d < 16 \<Longrightarrow> e < 16 \<Longrightarrow> digitChar d = digitChar e \<longleftrightarrow> d = e"
  unfolding digitChar_def by (rule nth_eq_iff_index_eq) simp_all

lemma showNat_digits: "set (showNat n) \<subseteq> set ''0123456789''"
proof (induction n rule: showNat.induct)
  case (1 n)
  have "digitChar (n mod 10) \<in> set ''0123456789''" by (rule digitChar_cases) simp
  with 1 digitChar_cases [of n] show ?case by (subst showNat.simps) auto
qed

lemma showNat_nonempty [simp]: "showNat n \<noteq> []"
  by (subst showNat.simps) simp

lemma showNat_no_sep: "c \<notin> set ''0123456789'' \<Longrightarrow> c \<notin> set (showNat n)"
  using showNat_digits by blast

lemma showNat_inj: "showNat m = showNat n \<Longrightarrow> m = n"
proof (induction m arbitrary: n rule: showNat.induct)
  case (1 m)
  have m: "showNat m = (if m < 10 then [] else showNat (m div 10)) @ [digitChar (m mod 10)]"
    by (subst showNat.simps) simp
  have n: "showNat n = (if n < 10 then [] else showNat (n div 10)) @ [digitChar (n mod 10)]"
    by (subst showNat.simps) simp
  from "1.prems" m n have last: "m mod 10 = n mod 10"
    and front: "(if m < 10 then [] else showNat (m div 10)) = (if n < 10 then [] else showNat (n div 10))"
    using digitChar_inj [of "m mod 10" "n mod 10"] by auto
  from front have "m div 10 = n div 10"
    using "1.IH" by (auto split: if_splits dest: sym)
  with last show ?case by (metis div_mult_mod_eq)
qed

lemma showNat_eq_iff [simp]: "showNat m = showNat n \<longleftrightarrow> m = n"
  using showNat_inj by blast

lemma hex2_inj: "a < 256 \<Longrightarrow> b < 256 \<Longrightarrow> hex2 a = hex2 b \<longleftrightarrow> a = b"
proof -
  assume ab: "a < 256" "b < 256"
  have "hex2 a = hex2 b \<longleftrightarrow> a div 16 mod 16 = b div 16 mod 16 \<and> a mod 16 = b mod 16"
    by (simp add: hex2_def digitChar_inj)
  also have "\<dots> \<longleftrightarrow> a div 16 = b div 16 \<and> a mod 16 = b mod 16"
    using ab by (simp add: less_mult_imp_div_less)
  also have "\<dots> \<longleftrightarrow> a = b"
    by (metis div_mult_mod_eq)
  finally show ?thesis .
qed

lemma hex2_chars: "set (hex2 b) \<subseteq> set ''0123456789abcdef''"
proof -
  have "digitChar d \<in> set ''0123456789abcdef''" if "d < 16" for d
    unfolding digitChar_def by (rule nth_mem) (use that in simp)
  then show ?thesis by (simp add: hex2_def)
qed

lemma hexString_chars: "set (hexString bs) \<subseteq> set ''0123456789abcdef''"
  using hex2_chars by (auto simp: hexString_def simp del: set_simps)

lemma splitOn_nonempty [simp]: "splitOn c s \<noteq> []"
  by (cases s) (auto split: list.splits)

lemma splitOn_no_sep: "x \<in> set (splitOn c s) \<Longrightarrow> c \<notin> set x"
  by (induction s arbitrary: x) (fastforce split: if_splits list.splits)+

lemma splitOn_unsplit: "c \<notin> set x \<Longrightarrow> splitOn c x = [x]"
  by (induction x) auto

lemma splitOn_append_sep: "c \<notin> set x \<Longrightarrow> splitOn c (x @ c # s) = x # splitOn c s"
  by (induction x) auto

lemma splitOn_joinWith:
  "xs \<noteq> [] \<Longrightarrow> \<forall>x\<in>set xs. c \<notin> set x \<Longrightarrow> splitOn c (joinWith [c] xs) = xs"
  by (induction "[c]" xs rule: joinWith.induct) (auto simp: splitOn_unsplit splitOn_append_sep)

lemma joinWith_splitOn: "joinWith [c] (splitOn c s) = s"
proof (induction s)
  case Nil
  then show ?case by simp
next
  case (Cons x s)
  obtain y ys where sp: "splitOn c s = y # ys" by (cases "splitOn c s") auto
  with Cons show ?case by (cases ys) auto
qed

lemma joinWith_inj:
  "xs \<noteq> [] \<Longrightarrow> ys \<noteq> [] \<Longrightarrow> \<forall>x\<in>set xs. c \<notin> set x \<Longrightarrow> \<forall>y\<in>set ys. c \<notin> set y \<Longrightarrow>
     joinWith [c] xs = joinWith [c] ys \<Longrightarrow> xs = ys"
  by (metis splitOn_joinWith)

lemma trimSuffix_append [simp]: "trimSuffix (s @ suf) suf = s"
  by (simp add: trimSuffix_def)

lemma goDiv_nonneg: "0 \<le> a \<Longrightarrow> 0 < b \<Longrightarrow> goDiv a b = a div b"
  by (cases "a = 0") (simp_all add: goDiv_def)

end
