(* ===== verification/Go_Path.thy ===== *)
theory Go_Path
  imports Go_Fmt
begin

text \<open>
  Go's slash-separated \<open>path\<close> package (and \<open>path/filepath\<close> on Unix), which every
  component uses to build file names: \<open>path.Clean\<close>, \<open>path.Join\<close> and
  \<open>path.Dir\<close>. A path is its text; its meaning is whether it is rooted and its list of
  components after lexical processing of empty parts, \<open>.\<close> and \<open>..\<close>. The lemmas say
  that cleaned paths and component lists determine each other and what joining does to the
  components, so that the other theories never look at the characters of a path.
\<close>

section \<open>Clean, Join, Dir\<close>

fun rooted :: "string \<Rightarrow> bool" where
  "rooted [] = False"
| "rooted (c # _) = (c = CHR ''/'')"

text \<open>One component pushed on the stack of those kept so far (innermost first).\<close>

definition pushPart :: "bool \<Rightarrow> string list \<Rightarrow> string \<Rightarrow> string list" where
  "pushPart r st c =
     (if c = '''' \<or> c = ''.'' then st
      else if c = ''..'' then
        (case st of
           [] \<Rightarrow> (if r then [] else [''..''])
         | t # ts \<Rightarrow> (if t = ''..'' then ''..'' # st else ts))
      else c # st)"

definition parts :: "string \<Rightarrow> string list" where
  "parts p = rev (foldl (pushPart (rooted p)) [] (splitOn CHR ''/'' p))"

definition render :: "bool \<Rightarrow> string list \<Rightarrow> string" where
  "render r cs =
     (if r then CHR ''/'' # joinWith ''/'' cs
      else if cs = [] then ''.'' else joinWith ''/'' cs)"

definition pathClean :: "string \<Rightarrow> string" where
  "pathClean p = render (rooted p) (parts p)"

definition pathJoin :: "string list \<Rightarrow> string" where
  "pathJoin elems =
     (let es = dropWhile (\<lambda>e. e = '''') elems
      in if es = [] then '''' else pathClean (joinWith ''/'' es))"

definition pathDir :: "string \<Rightarrow> string" where
  "pathDir p = pathClean (rev (dropWhile (\<lambda>c. c \<noteq> CHR ''/'') (rev p)))"

section \<open>Component names\<close>

text \<open>
  A plain name is one ordinary component: not empty, not a dot entry, no slash. A plain path
  is a relative path made of plain names.
\<close>

definition plainName :: "string \<Rightarrow> bool" where
  "plainName c \<longleftrightarrow> c \<noteq> '''' \<and> c \<noteq> ''.'' \<and> c \<noteq> ''..'' \<and> CHR ''/'' \<notin> set c"

definition absPath :: "string list \<Rightarrow> string" where
  "absPath cs = render True cs"

lemma foldl_push_plain:
  "\<forall>c\<in>set cs. plainName c \<Longrightarrow> foldl (pushPart r) st cs = rev cs @ st"
  by (induction cs arbitrary: st) (auto simp: pushPart_def plainName_def)

lemma splitOn_joinWith_plain:
  "cs \<noteq> [] \<Longrightarrow> \<forall>c\<in>set cs. plainName c \<Longrightarrow> splitOn CHR ''/'' (joinWith ''/'' cs) = cs"
  by (rule splitOn_joinWith) (auto simp: plainName_def)

lemma joinWith_plain_not_rooted:
  "\<forall>c\<in>set cs. plainName c \<Longrightarrow> \<not> rooted (joinWith ''/'' cs)"
proof (cases cs)
  case (Cons c ds)
  moreover assume "\<forall>c\<in>set cs. plainName c"
  ultimately obtain x xs where "c = x # xs" "x \<noteq> CHR ''/''"
    by (cases c) (auto simp: plainName_def)
  with Cons show ?thesis by (cases ds) auto
qed simp

lemma rooted_absPath [simp]: "rooted (absPath cs)"
  by (simp add: absPath_def render_def)

lemma parts_absPath:
  assumes "\<forall>c\<in>set cs. plainName c"
  shows "parts (absPath cs) = cs"
proof (cases "cs = []")
  case True
  then show ?thesis by (simp add: parts_def absPath_def render_def pushPart_def)
next
  case False
  with assms have "splitOn CHR ''/'' (absPath cs) = [] # cs"
    by (simp add: absPath_def render_def splitOn_joinWith_plain)
  then show ?thesis
    using foldl_push_plain [OF assms] by (simp add: parts_def pushPart_def)
qed

lemma clean_absPath: "\<forall>c\<in>set cs. plainName c \<Longrightarrow> pathClean (absPath cs) = absPath cs"
  by (simp add: pathClean_def parts_absPath) (simp add: absPath_def)

lemma absPath_inj:
  "\<forall>c\<in>set cs. plainName c \<Longrightarrow> \<forall>c\<in>set ds. plainName c \<Longrightarrow> absPath cs = absPath ds \<longleftrightarrow> cs = ds"
  by (metis parts_absPath)

section \<open>Joining below an absolute directory\<close>

lemma push_rooted_plain:
  "\<forall>c\<in>set st. plainName c \<Longrightarrow> CHR ''/'' \<notin> set c \<Longrightarrow> \<forall>d\<in>set (pushPart True st c). plainName d"
  by (cases st) (simp_all add: pushPart_def plainName_def)

lemma foldl_push_rooted:
  "\<forall>c\<in>set st. plainName c \<Longrightarrow> \<forall>c\<in>set cs. CHR ''/'' \<notin> set c \<Longrightarrow>
     \<forall>c\<in>set (foldl (pushPart True) st cs). plainName c"
proof (induction cs arbitrary: st)
  case Nil
  then show ?case by simp
next
  case (Cons c cs)
  from Cons.prems have "\<forall>d\<in>set (pushPart True st c). plainName d"
    by (intro push_rooted_plain) simp_all
  with Cons show ?case by simp
qed

text \<open>Every rooted path cleans to an absolute path of plain names.\<close>

lemma parts_rooted_plain: "rooted p \<Longrightarrow> \<forall>c\<in>set (parts p). plainName c"
  unfolding parts_def using foldl_push_rooted [of "[]" "splitOn CHR ''/'' p"] splitOn_no_sep
  by auto

lemma clean_rooted: "rooted p \<Longrightarrow> pathClean p = absPath (parts p)"
  by (simp add: pathClean_def absPath_def)

lemma rooted_append: "a \<noteq> [] \<Longrightarrow> rooted (a @ b) = rooted a"
  by (cases a) auto

lemma splitOn_append:
  "splitOn c (a @ c # b) = splitOn c a @ splitOn c b"
  by (induction a) (auto split: list.splits)

lemma parts_append_slash:
  assumes "rooted a"
  shows "parts (a @ CHR ''/'' # b) = rev (foldl (pushPart True) (rev (parts a)) (splitOn CHR ''/'' b))"
proof -
  from assms have "a \<noteq> []" by auto
  with assms show ?thesis
    by (simp add: parts_def rooted_append splitOn_append)
qed

lemma parts_append_plain:
  assumes "rooted a" and "cs \<noteq> []" and "\<forall>c\<in>set cs. plainName c"
  shows "parts (a @ CHR ''/'' # joinWith ''/'' cs) = parts a @ cs"
  using assms by (simp add: parts_append_slash splitOn_joinWith_plain foldl_push_plain)

lemma parts_append_one: "rooted a \<Longrightarrow> plainName c \<Longrightarrow> parts (a @ CHR ''/'' # c) = parts a @ [c]"
  using parts_append_plain [of a "[c]"] by simp

lemma rooted_nonempty: "rooted p \<Longrightarrow> p \<noteq> []"
  by auto

lemma joinWith_cons_nonempty: "xs \<noteq> [] \<Longrightarrow> joinWith sep (x # xs) = x @ sep @ joinWith sep xs"
  by (cases xs) auto

lemma joinWith_append:
  "xs \<noteq> [] \<Longrightarrow> ys \<noteq> [] \<Longrightarrow> joinWith sep (xs @ ys) = joinWith sep xs @ sep @ joinWith sep ys"
  by (induction sep xs rule: joinWith.induct) (auto simp: joinWith_cons_nonempty)

lemma joinWith_plain_nonempty:
  "cs \<noteq> [] \<Longrightarrow> \<forall>c\<in>set cs. plainName c \<Longrightarrow> joinWith sep cs \<noteq> []"
  by (induction sep cs rule: joinWith.induct) (auto simp: plainName_def)

text \<open>
  The shape of every file name the program builds under a directory it knows: an absolute
  directory joined with a relative path of plain names appends the names.
\<close>

lemma pathJoin_plain:
  assumes "rooted a" and "cs \<noteq> []" and "\<forall>c\<in>set cs. plainName c"
  shows "pathJoin (a # cs) = absPath (parts a @ cs)"
proof -
  from assms have "pathJoin (a # cs) = pathClean (a @ CHR ''/'' # joinWith ''/'' cs)"
    by (simp add: pathJoin_def Let_def rooted_nonempty joinWith_cons_nonempty)
  also have "\<dots> = absPath (parts a @ cs)"
    using assms by (simp add: clean_rooted rooted_append rooted_nonempty parts_append_plain)
  finally show ?thesis .
qed

lemma pathJoin_one:
  assumes "rooted a" and "b \<noteq> []"
  shows "pathJoin [a, b] = absPath (parts (a @ CHR ''/'' # b))"
  using assms by (simp add: pathJoin_def Let_def rooted_nonempty clean_rooted rooted_append)

lemma pathJoin_relative:
  assumes "rooted a" and "cs \<noteq> []" and "\<forall>c\<in>set cs. plainName c"
  shows "pathJoin [a, joinWith ''/'' cs] = absPath (parts a @ cs)"
    and "pathJoin [a, CHR ''/'' # joinWith ''/'' cs] = absPath (parts a @ cs)"
proof -
  from assms(2,3) have ne: "joinWith ''/'' cs \<noteq> []" by (rule joinWith_plain_nonempty)
  show "pathJoin [a, joinWith ''/'' cs] = absPath (parts a @ cs)"
    using assms ne by (simp add: pathJoin_one parts_append_plain)
  have "parts (a @ CHR ''/'' # CHR ''/'' # joinWith ''/'' cs) = parts a @ cs"
    using assms by (simp add: parts_append_slash splitOn_joinWith_plain foldl_push_plain pushPart_def)
  then show "pathJoin [a, CHR ''/'' # joinWith ''/'' cs] = absPath (parts a @ cs)"
    using assms by (simp add: pathJoin_one)
qed

lemma pathDir_absPath:
  assumes "\<forall>c\<in>set (cs @ [c]). plainName c"
  shows "pathDir (absPath (cs @ [c])) = absPath cs"
proof -
  have c: "dropWhile (\<lambda>x. x \<noteq> CHR ''/'') (rev c @ CHR ''/'' # y) = CHR ''/'' # y" for y
    using assms by (subst dropWhile_append2) (auto simp: plainName_def)
  show ?thesis
  proof (cases "cs = []")
    case True
    then show ?thesis using c [of "[]"]
      by (simp add: pathDir_def absPath_def render_def pathClean_def parts_def pushPart_def)
  next
    case False
    then have "absPath (cs @ [c]) = absPath cs @ CHR ''/'' # c"
      by (simp add: absPath_def render_def joinWith_append)
    then have "pathDir (absPath (cs @ [c])) = pathClean (absPath cs @ [CHR ''/''])"
      using c by (simp add: pathDir_def)
    also have "\<dots> = absPath cs"
      using assms parts_append_slash [of "absPath cs" "[]"]
      by (simp add: clean_rooted rooted_append rooted_nonempty parts_absPath pushPart_def)
    finally show ?thesis .
  qed
qed

text \<open>Cleaning a cleaned path changes nothing.\<close>

lemma clean_idem_rooted: "rooted p \<Longrightarrow> pathClean (pathClean p) = pathClean p"
  using parts_rooted_plain [of p] by (simp add: clean_rooted parts_absPath)

end
