(* ===== verification/Go_Loops.thy ===== *)
theory Go_Loops
  imports Go_Prelude
begin

text \<open>
  Go functions that may run forever. Such a function yields no result at all when it does not
  return (\<open>None\<close>); \<open>untilP\<close> is the loop \<open>for ok := true; ok; ok = !ready\<close>, which ends
  when its body says so. The locale \<open>poller\<close> is the contract of a loop that keeps asking until
  it gets an answer, with the two facts its clients need: when it returns, and when it never does.
\<close>

section \<open>Functions that may not return\<close>

type_synonym ('s, 'a) goP = "'s \<Rightarrow> ('a outcome \<times> 's) option"

definition liftP :: "('s, 'a) go \<Rightarrow> ('s, 'a) goP" where
  "liftP m = (\<lambda>s. Some (m s))"

definition bindP :: "('s, 'a) goP \<Rightarrow> ('a \<Rightarrow> ('s, 'b) goP) \<Rightarrow> ('s, 'b) goP" where
  "bindP m k = (\<lambda>s. case m s of
       None \<Rightarrow> None
     | Some (r, t) \<Rightarrow> (case r of
         Ok a \<Rightarrow> k a t
       | Err e \<Rightarrow> Some (Err e, t)
       | Panic p \<Rightarrow> Some (Panic p, t)
       | Exit n \<Rightarrow> Some (Exit n, t)))"

partial_function (option) untilP ::
  "('b \<Rightarrow> 's \<Rightarrow> ('b \<times> bool) outcome \<times> 's) \<Rightarrow> 'b \<Rightarrow> 's \<Rightarrow> ('b outcome \<times> 's) option" where
  [code]: "untilP body b s =
     (case body b s of (r, t) \<Rightarrow> (case r of
        Ok x \<Rightarrow> (if snd x then Some (Ok (fst x), t) else untilP body (fst x) t)
      | Err e \<Rightarrow> Some (Err e, t)
      | Panic p \<Rightarrow> Some (Panic p, t)
      | Exit n \<Rightarrow> Some (Exit n, t)))"

section \<open>Rules\<close>

lemma bindP_lift: "bindP (liftP m) k s = (case m s of (r, t) \<Rightarrow> (case r of
     Ok a \<Rightarrow> k a t | Err e \<Rightarrow> Some (Err e, t) | Panic p \<Rightarrow> Some (Panic p, t) | Exit n \<Rightarrow> Some (Exit n, t)))"
  by (simp add: bindP_def liftP_def split: prod.split)

lemma bindP_OkE:
  assumes "bindP m k s = Some (Ok b, u)"
  obtains a t where "m s = Some (Ok a, t)" "k a t = Some (Ok b, u)"
  using assms by (auto simp: bindP_def split: option.splits prod.splits outcome.splits)

lemma bindP_lift_OkE:
  assumes "bindP (liftP m) k s = Some (Ok b, u)"
  obtains a t where "m s = (Ok a, t)" "k a t = Some (Ok b, u)"
  using assms by (auto simp: bindP_lift split: prod.splits outcome.splits)

text \<open>Returning: a function that is entered in \<open>s\<close> comes back.\<close>

definition returnsP :: "('s, 'a) goP \<Rightarrow> 's \<Rightarrow> bool" where
  "returnsP m s \<longleftrightarrow> m s \<noteq> None"

lemma returnsP_lift: "returnsP (liftP m) s"
  by (simp add: returnsP_def liftP_def)

lemma returnsP_bind:
  "returnsP m s \<Longrightarrow> (\<And>a t. m s = Some (Ok a, t) \<Longrightarrow> returnsP (k a) t) \<Longrightarrow> returnsP (bindP m k) s"
  by (auto simp: returnsP_def bindP_def split: option.splits prod.splits outcome.splits)

text \<open>Partial correctness of the loop: an invariant, and what the last round did.\<close>

lemma untilP_induct [consumes 1, case_names finish stop again]:
  assumes run: "untilP body b s = Some y"
    and fin: "\<And>b s c t. body b s = (Ok (c, True), t) \<Longrightarrow> P b s (Ok c, t)"
    and stop: "\<And>b s r t r'. body b s = (r, t) \<Longrightarrow> \<forall>x. r \<noteq> Ok x \<Longrightarrow> \<forall>x. r' \<noteq> Ok x \<Longrightarrow> P b s (r', t)"
    and again: "\<And>b s c t y. body b s = (Ok (c, False), t) \<Longrightarrow> P c t y \<Longrightarrow> P b s y"
  shows "P b s y"
proof -
  have "body = body \<longrightarrow> P b s y"
  proof (rule untilP.raw_induct [where P = "\<lambda>bd b s y. bd = body \<longrightarrow> P b s y", OF _ run], intro impI)
    fix f bd b s y
    assume IH: "\<And>bd b s y. f bd b s = Some y \<Longrightarrow> bd = body \<longrightarrow> P b s y"
      and run: "(case bd b s of (r, t) \<Rightarrow> (case r of
        Ok x \<Rightarrow> (if snd x then Some (Ok (fst x), t) else f bd (fst x) t)
      | Err e \<Rightarrow> Some (Err e, t) | Panic p \<Rightarrow> Some (Panic p, t) | Exit n \<Rightarrow> Some (Exit n, t))) = Some y"
      and "bd = body"
    note run = run [unfolded \<open>bd = body\<close>]
    obtain r t where r: "body b s = (r, t)" by fastforce
    show "P b s y"
    proof (cases r)
      case (Ok x)
      with run r IH [of body "fst x" t y] fin [of b s "fst x" t] again [of b s "fst x" t y] show ?thesis
        by (cases x, cases "snd x") auto
    qed (use run r stop [OF r] in auto)
  qed
  then show ?thesis by simp
qed

lemma untilP_result:
  assumes "untilP body b s = Some (Ok b', t)" and "I b s"
    and step: "\<And>b s b' t. I b s \<Longrightarrow> body b s = (Ok (b', False), t) \<Longrightarrow> I b' t"
  shows "\<exists>c u. I c u \<and> body c u = (Ok (b', True), t)"
proof -
  have "I b s \<longrightarrow> (\<forall>b' t. y = (Ok b', t) \<longrightarrow> (\<exists>c u. I c u \<and> body c u = (Ok (b', True), t)))"
    if "untilP body b s = Some y" for b s y
    using that by (induction rule: untilP_induct) (use step in blast)+
  with assms(1,2) show ?thesis by blast
qed

text \<open>Termination: a measure that goes down in every round that does not end the loop.\<close>

lemma untilP_returns:
  fixes \<mu> :: "'s \<Rightarrow> nat"
  assumes "I b s" and "\<And>b s b' t. I b s \<Longrightarrow> body b s = (Ok (b', False), t) \<Longrightarrow> I b' t \<and> \<mu> t < \<mu> s"
  shows "\<exists>r t. untilP body b s = Some (r, t)"
  using assms(1)
proof (induction "\<mu> s" arbitrary: b s rule: less_induct)
  case less
  obtain r t where r: "body b s = (r, t)" by fastforce
  show ?case
  proof (cases r)
    case (Ok x)
    show ?thesis
    proof (cases "snd x")
      case False
      with assms(2) [OF less.prems, of "fst x" t] r Ok have "I (fst x) t" "\<mu> t < \<mu> s" by (cases x, simp)+
      with less.hyps obtain r' t' where "untilP body (fst x) t = Some (r', t')" by blast
      with False r Ok show ?thesis by (simp add: untilP.simps [of body b s])
    qed (use r Ok in \<open>simp add: untilP.simps [of body b s]\<close>)
  qed (use r in \<open>simp_all add: untilP.simps [of body b s]\<close>)
qed

text \<open>Divergence: every round ends without the answer and leads to such a round again.\<close>

lemma untilP_never:
  assumes "I b s" and "\<And>b s. I b s \<Longrightarrow> \<exists>b' t. body b s = (Ok (b', False), t) \<and> I b' t"
  shows "untilP body b s = None"
proof -
  have "\<not> I b s" if "untilP body b s = Some y" for b s y
    using that by (induction rule: untilP_induct) (use assms(2) in fastforce)+
  with assms(1) show ?thesis by (cases "untilP body b s") auto
qed

section \<open>A loop that polls\<close>

text \<open>
  The contract: a round never stops the program, a round without the answer takes some time
  (\<open>clock\<close> goes up), and from some moment on (\<open>late\<close>) every round has the answer.
\<close>

locale poller =
  fixes round :: "'b \<Rightarrow> 's \<Rightarrow> ('b \<times> bool) outcome \<times> 's"
    and clock :: "'s \<Rightarrow> nat"
  assumes round_Ok: "\<exists>b' fin t. round b s = (Ok (b', fin), t)"
    and round_time: "round b s = (Ok (b', False), t) \<Longrightarrow> clock s < clock t"
begin

lemma returns:
  assumes "\<And>b s. n \<le> clock s \<Longrightarrow> \<exists>b' t. round b s = (Ok (b', True), t)"
  shows "\<exists>b' t. untilP round b s = Some (Ok b', t)"
proof -
  have "\<exists>r t. untilP round b s = Some (r, t)"
  proof (rule untilP_returns [where I = "\<lambda>_ _. True" and \<mu> = "\<lambda>s. n - clock s"])
    fix b s b' t assume r: "round b s = (Ok (b', False), t)"
    then have "clock s < n" using assms [of s b] by (cases "n \<le> clock s") auto
    with round_time [OF r] show "True \<and> n - clock t < n - clock s" by simp
  qed simp
  then obtain r t where run: "untilP round b s = Some (r, t)" by blast
  have "\<exists>b'. fst y = Ok b'" if "untilP round b s = Some y" for b s y
    using that
  proof (induction rule: untilP_induct)
    case (stop b s r t r')
    with round_Ok [of b s] show ?case by auto
  qed simp_all
  from this [OF run] run show ?thesis by auto
qed

lemma stuck:
  assumes "\<And>b s b' t. round b s \<noteq> (Ok (b', True), t)"
  shows "untilP round b s = None"
proof (rule untilP_never [where I = "\<lambda>_ _. True"])
  fix b s
  obtain b' fin t where "round b s = (Ok (b', fin), t)" using round_Ok by blast
  with assms show "\<exists>b' t. round b s = (Ok (b', False), t) \<and> True" by (cases fin) auto
qed simp

lemma last_round:
  assumes "untilP round b s = Some (Ok b', t)" and "I s"
    and "\<And>b s b' t. I s \<Longrightarrow> round b s = (Ok (b', False), t) \<Longrightarrow> I t"
  shows "\<exists>c u. I u \<and> round c u = (Ok (b', True), t)"
  using untilP_result [OF assms(1), of "\<lambda>_. I"] assms(2,3) by blast

end

end
