(* ===== verification/Go_Slices.thy ===== *)
theory Go_Slices
  imports Go_Prelude
begin

text \<open>
  Go slices that share backing arrays. A slice is an array and a length; the program never slices
  off a front part, so every slice starts at the beginning of its array. \<open>append\<close> writes into the
  array behind the slice when its capacity allows and copies to a new array otherwise, which is
  large enough; how much larger is the runtime's choice, the parameter \<open>grow\<close> (of the old capacity
  and the needed length). Nothing is assumed of it anywhere. The
  locale \<open>appendable\<close> is what the code may rely on, whatever the capacities.
\<close>

section \<open>Store, slices and append\<close>

text \<open>An array holds the cells written so far. Array 0 has no cells: the nil slice is \<open>nilS\<close>.\<close>

record 'a store =
  arrays :: "nat \<Rightarrow> 'a list"
  caps :: "nat \<Rightarrow> nat"
  nextArray :: nat

record slice =
  sl_array :: nat
  sl_len :: nat

definition emptyStore :: "'a store" where
  "emptyStore = \<lparr>arrays = (\<lambda>_. []), caps = (\<lambda>_. 0), nextArray = 1\<rparr>"

definition nilS :: slice where
  "nilS = \<lparr>sl_array = 0, sl_len = 0\<rparr>"

definition cells :: "'a store \<Rightarrow> slice \<Rightarrow> 'a list" where
  "cells h s = take (sl_len s) (arrays h (sl_array s))"

definition capacity :: "'a store \<Rightarrow> slice \<Rightarrow> nat" where
  "capacity h s = caps h (sl_array s)"

definition appendS :: "(nat \<Rightarrow> nat \<Rightarrow> nat) \<Rightarrow> 'a store \<Rightarrow> slice \<Rightarrow> 'a list \<Rightarrow> 'a store \<times> slice" where
  "appendS grow h s xs =
     (let a = sl_array s; need = sl_len s + length xs in
      if need \<le> caps h a then
        (h\<lparr>arrays := (arrays h)(a := cells h s @ xs @ drop need (arrays h a))\<rparr>, s\<lparr>sl_len := need\<rparr>)
      else
        (let b = nextArray h in
         (h\<lparr>arrays := (arrays h)(b := cells h s @ xs), caps := (caps h)(b := max need (grow (caps h a) need)),
            nextArray := Suc b\<rparr>,
          \<lparr>sl_array = b, sl_len = need\<rparr>)))"

definition validS :: "'a store \<Rightarrow> slice \<Rightarrow> bool" where
  "validS h s \<longleftrightarrow> sl_array s < nextArray h \<and> sl_len s \<le> length (arrays h (sl_array s)) \<and>
     length (arrays h (sl_array s)) \<le> caps h (sl_array s)"

section \<open>What every append does\<close>

locale appendable =
  fixes val :: "'h \<Rightarrow> 's \<Rightarrow> 'a list"
    and ok :: "'h \<Rightarrow> 's \<Rightarrow> bool"
    and app :: "'h \<Rightarrow> 's \<Rightarrow> 'a list \<Rightarrow> 'h \<times> 's"
  assumes app_ok: "ok h s \<Longrightarrow> app h s xs = (h', s') \<Longrightarrow> ok h' s' \<and> val h' s' = val h s @ xs"
begin

text \<open>A variable that is only ever appended to holds everything appended, in order.\<close>

lemma app_all:
  "ok h s \<Longrightarrow> foldl (\<lambda>(h, s). app h s) (h, s) xss = (h', s') \<Longrightarrow> ok h' s' \<and> val h' s' = val h s @ concat xss"
proof (induction xss arbitrary: h s)
  case (Cons xs xss)
  obtain h1 s1 where step: "app h s xs = (h1, s1)" by fastforce
  from app_ok [OF Cons.prems(1) step] Cons.IH [of h1 s1] Cons.prems(2) step show ?case by simp
qed simp

end

lemma cells_length: "validS h s \<Longrightarrow> length (cells h s) = sl_len s"
  by (simp add: cells_def validS_def)

lemma validS_nil [simp]: "validS emptyStore nilS" "cells emptyStore nilS = []"
  by (simp_all add: validS_def emptyStore_def nilS_def cells_def)

interpretation slices: appendable cells validS "appendS grow" for grow :: "nat \<Rightarrow> nat \<Rightarrow> nat"
proof (unfold_locales, goal_cases)
  case (1 h s xs h' s')
  from cells_length [OF 1(1)] 1 show ?case
    by (auto simp: appendS_def Let_def cells_def validS_def split: if_splits)
qed

section \<open>What an append does to other slices\<close>

text \<open>A slice on another array, or one no longer than the appended one, keeps its value.\<close>

lemma append_frame:
  assumes "validS h s" "validS h t" "appendS grow h s xs = (h', s')"
    and "sl_array t \<noteq> sl_array s \<or> sl_len t \<le> sl_len s \<or> capacity h s < sl_len s + length xs"
  shows "validS h' t \<and> cells h' t = cells h t"
  using assms cells_length [OF assms(1)]
  by (auto simp: appendS_def Let_def cells_def validS_def capacity_def split: if_splits)

text \<open>A longer slice of the same array sees what is written in place.\<close>

lemma append_seen:
  assumes "validS h s" "validS h t" "appendS grow h s xs = (h', s')"
    and "sl_array t = sl_array s" "sl_len t \<le> sl_len s + length xs" "sl_len s + length xs \<le> capacity h s"
  shows "validS h' t \<and> cells h' t = take (sl_len t) (cells h s @ xs)"
  using assms cells_length [OF assms(1)]
  by (auto simp: appendS_def Let_def cells_def validS_def capacity_def)

lemma append_place:
  assumes "appendS grow h s xs = (h', s')"
  shows "sl_len s' = sl_len s + length xs"
    and "sl_len s + length xs \<le> capacity h s \<Longrightarrow> sl_array s' = sl_array s \<and> capacity h' s' = capacity h s"
    and "capacity h s < sl_len s + length xs \<Longrightarrow> sl_array s' = nextArray h"
  using assms by (auto simp: appendS_def Let_def capacity_def split: if_splits)

section \<open>Lengths and capacities\<close>

text \<open>What an append does to them depends on nothing else.\<close>

definition grown :: "(nat \<Rightarrow> nat \<Rightarrow> nat) \<Rightarrow> nat \<times> nat \<Rightarrow> nat \<Rightarrow> nat \<times> nat" where
  "grown grow = (\<lambda>(len, cap) n. (len + n, if len + n \<le> cap then cap else max (len + n) (grow cap (len + n))))"

definition extent :: "'a store \<Rightarrow> slice \<Rightarrow> nat \<times> nat" where
  "extent h s = (sl_len s, capacity h s)"

lemma append_extent: "appendS grow h s xs = (h', s') \<Longrightarrow> extent h' s' = grown grow (extent h s) (length xs)"
  by (auto simp: appendS_def Let_def extent_def grown_def capacity_def split: if_splits)

lemma extent_nil [simp]: "extent emptyStore nilS = (0, 0)"
  by (simp add: extent_def capacity_def emptyStore_def nilS_def)

end
