(* ===== verification/World.thy ===== *)
theory World
  imports Go_Path
begin

text \<open>
  The state the deployment program acts on, and everything it takes from outside.

  \<^item> \<open>fsys\<close>: the file system of the machine the program runs on. Names (cleaned paths) point
    to directories or to inodes, so that hard links (\<open>os.Link\<close>) share their content; symbolic
    links are kept apart, under their own names.
  \<^item> \<open>resource\<close>: what the program registers with the Pulumi engine: the call site, the
    logical name, the arguments, the explicit \<open>DependsOn\<close> list, the provider and the other options.
    Values only known at deployment time (an IP address, a generated name) are symbolic
    pieces of an \<open>outval\<close>.
  \<^item> \<open>world\<close>: the file system, the registered resources in order, the stack exports in
    order, the artifact map (a Go map, shared by every copy of \<open>cache.State\<close>) and the
    history of outside requests.
  \<^item> \<open>env\<close>: the outside as parameters. \<open>e_fault\<close> decides, from the history so far,
    whether a request fails; the other fields answer the requests of libraries and of the
    operating system. Nothing is assumed of any of them here.
\<close>

section \<open>Registered resources\<close>

datatype attr = IPv4Of | HostnameOf | NameOf | IdOf

datatype piece = Lit string | Attr attr "nat option"

type_synonym outval = "piece list"

datatype arg = AStr outval | ANum int | ABool bool | AList "arg list" | AObj "(string \<times> arg) list"

text \<open>The call site a resource comes from, one constructor per constructor call of the source.\<close>

datatype site =
    SUniverseRm | SSshComponent | SUniverseComponent | SGammaRm | SGammaComponent
  | SProvider | SNetwork | SCloudinitPool | SVmPool
  | SBaseVolume | SDisk | SCloudinit | SDomain | SSshCheck | SCopyRemote | SInitCheck | SMotd
  | SZypper | SIscsi | SVmComponent | SLogCopy | SCopyInput | SInstallFile
  | SSshConfig | SK8sPrime | SKubeConfig | SK8sAdmin | SK8sWorker
  | SAiHack | SNexusHack | SHelmfile | SKubeVipConfig

record resource =
  r_site :: site
  r_name :: string
  r_args :: "(string \<times> arg) list"
  r_deps :: "nat list"
  r_provider :: "nat option"
  r_opts :: "(string \<times> arg) list"

section \<open>Requests to the outside\<close>

text \<open>
  An unstructured Kubernetes object, and the calls of the Kubernetes and Helm client libraries
  that the commands make.
\<close>

datatype kval =
    KNull | KBool bool | KInt int | KFloat string | KStr string | KList "kval list"
  | KMap "(string \<times> kval) list"

datatype kube_req =
    KBuildConfig string | KDynamicClient | KClientset | KGetService string string
  | KUpdateService string kval | KListNodes | KGetNamespace string | KCreateNamespace string

datatype helm_req =
    HInit string string | HLoadFile string | HNewRepo string string | HDownloadIndex
  | HWriteFile string "(string \<times> string) list" | HLocateChart string string | HLoadChart string
  | HRun string string

datatype event =
    EvMkdirAll string | EvStat string | EvCreate string | EvCopy nat | EvOpen string | EvRead
  | EvRename string string | EvRemove string | EvRemoveAll string | EvLink string string
  | EvSymlink string string | EvWriteFile string | EvWrite nat
  | EvHttpGet string | EvExec string "string list" "string list"
  | EvUuid | EvPetname | EvRand nat | EvKeyGen nat | EvKeyCheck string | EvPublicKey string
  | EvYaml | EvRegister resource | EvFatal string
  | EvAbs string | EvReadFile string | EvCurrentUser | EvUserLookup string | EvGroupLookup string | EvChown string int int
  | EvHostname | EvKube kube_req | EvHelm helm_req | EvSleep | EvPrint string

text \<open>
  \<open>http.Get\<close>: a response; an error with a nil response; or, when a redirect check fails, an
  error with a response whose body is already closed.
\<close>

datatype http_result = Response string | NilResponse goerr | ClosedResponse goerr

text \<open>
  What \<open>yaml.Marshal\<close> is given: a struct is the list of its fields under their tag names, in
  the order of the struct.
\<close>

datatype ynode =
  YStr string | YInt int | YBool bool | YList "ynode list" | YMap "(string \<times> ynode) list"

section \<open>File system, world and environment\<close>

datatype entry = Dir | File nat

record fsys =
  names :: "string \<Rightarrow> entry option"
  content :: "nat \<Rightarrow> string"
  mode :: "nat \<Rightarrow> nat"
  nextIno :: nat
  owner :: "nat \<Rightarrow> int \<times> int"
  links :: "string \<Rightarrow> string option"

record world =
  wfs :: fsys
  nodes :: "resource list"
  exports :: "(string \<times> outval) list"
  artifacts :: "string \<Rightarrow> string option"
  hist :: "event list"

record env =
  e_fault :: "event list \<Rightarrow> event \<Rightarrow> goerr option"
  e_partial :: "event list \<Rightarrow> nat"
  e_cacheHome :: string
  e_pid :: nat
  e_getenv :: "string \<Rightarrow> string"
  e_dirSize :: "string \<Rightarrow> nat"
  e_uuid :: "event list \<Rightarrow> string"
  e_petname :: "event list \<Rightarrow> string"
  e_rand :: "event list \<Rightarrow> nat"
  e_http :: "event list \<Rightarrow> string \<Rightarrow> http_result"
  e_sha256 :: "string \<Rightarrow> string"
  e_yaml :: "ynode \<Rightarrow> string"
  e_keyGen :: "event list \<Rightarrow> string"
  e_der :: "string \<Rightarrow> string"
  e_pem :: "string \<Rightarrow> string \<Rightarrow> string"
  e_publicKey :: "string \<Rightarrow> string"
  e_removed :: "event list \<Rightarrow> string \<Rightarrow> bool"
  e_cwd :: string
  e_username :: string
  e_uid :: "string \<Rightarrow> string"
  e_gid :: "string \<Rightarrow> string"
  e_hostname :: string
  e_grow :: "nat \<Rightarrow> nat \<Rightarrow> nat"

type_synonym 'a io = "(world, 'a) go"

text \<open>
  A concrete environment in which nothing fails, and the empty world: the instances the
  witnesses run on.
\<close>

definition calmEnv :: env where
  "calmEnv = \<lparr>e_fault = (\<lambda>_ _. None), e_partial = (\<lambda>_. 0), e_cacheHome = ''/h/.cache'', e_pid = 7,
     e_getenv = (\<lambda>_. ''''), e_dirSize = (\<lambda>_. 4096), e_uuid = (\<lambda>_. ''u-1''),
     e_petname = (\<lambda>h. ''vm-'' @ showNat (length h)), e_rand = (\<lambda>_. 0),
     e_http = (\<lambda>_ uri. Response uri), e_sha256 = (\<lambda>d. take 32 (d @ replicate 32 (CHR ''0''))),
     e_yaml = (\<lambda>_. ''yaml''), e_keyGen = (\<lambda>_. ''key''), e_der = (\<lambda>k. k),
     e_pem = (\<lambda>ty der. ty @ '' '' @ der @ [CHR 0x0A]), e_publicKey = (\<lambda>k. ''ssh-rsa '' @ k @ [CHR 0x0A]),
     e_removed = (\<lambda>_ _. False), e_cwd = ''/w'', e_username = ''root'', e_uid = (\<lambda>_. ''0''),
     e_gid = (\<lambda>_. ''0''), e_hostname = ''node-1'', e_grow = (\<lambda>c n. max n (2 * c))\<rparr>"

definition emptyWorld :: world where
  "emptyWorld = \<lparr>wfs = \<lparr>names = (\<lambda>_. None), content = (\<lambda>_. ''''), mode = (\<lambda>_. 0), nextIno = 0,
       owner = (\<lambda>_. (0, 0)), links = (\<lambda>_. None)\<rparr>,
     nodes = [], exports = [], artifacts = (\<lambda>_. None), hist = []\<rparr>"

section \<open>Primitive requests\<close>

definition getW :: "world io" where
  "getW = (\<lambda>w. (Ok w, w))"

definition modifyW :: "(world \<Rightarrow> world) \<Rightarrow> unit io" where
  "modifyW f = (\<lambda>w. (Ok (), f w))"

definition modifyFs :: "(fsys \<Rightarrow> fsys) \<Rightarrow> unit io" where
  "modifyFs f = modifyW (\<lambda>w. w\<lparr>wfs := f (wfs w)\<rparr>)"

text \<open>A request that can fail: it is recorded, and the environment decides.\<close>

definition request :: "env \<Rightarrow> event \<Rightarrow> unit io" where
  "request env ev = (\<lambda>w.
     (case e_fault env (hist w) ev of None \<Rightarrow> Ok () | Some e \<Rightarrow> Err e, w\<lparr>hist := hist w @ [ev]\<rparr>))"

text \<open>A question the environment always answers, from the history so far.\<close>

definition answer :: "(event list \<Rightarrow> 'a) \<Rightarrow> event \<Rightarrow> 'a io" where
  "answer f ev = (\<lambda>w. (Ok (f (hist w)), w\<lparr>hist := hist w @ [ev]\<rparr>))"

definition printG :: "string \<Rightarrow> unit io" where
  "printG txt = answer (\<lambda>_. ()) (EvPrint txt)"

section \<open>Frames: what a piece of code leaves alone\<close>

text \<open>
  \<open>sameDeploy\<close>: the registered resources, exports and artifacts are untouched (pure file
  and network work). \<open>sameNodes\<close>: no resource is registered. \<open>grows\<close>: nothing
  registered, exported or requested is ever taken back, and artifacts are never forgotten.
\<close>

definition sameDeploy :: "world \<Rightarrow> world \<Rightarrow> bool" where
  "sameDeploy s t \<longleftrightarrow> nodes t = nodes s \<and> exports t = exports s \<and> artifacts t = artifacts s"

definition sameNodes :: "world \<Rightarrow> world \<Rightarrow> bool" where
  "sameNodes s t \<longleftrightarrow> nodes t = nodes s"

definition sameFs :: "world \<Rightarrow> world \<Rightarrow> bool" where
  "sameFs s t \<longleftrightarrow> wfs t = wfs s"

definition grows :: "world \<Rightarrow> world \<Rightarrow> bool" where
  "grows s t \<longleftrightarrow> prefix (nodes s) (nodes t) \<and> prefix (exports s) (exports t) \<and>
     prefix (hist s) (hist t) \<and> dom (artifacts s) \<subseteq> dom (artifacts t)"

interpretation samedep: step_rel sameDeploy
  by unfold_locales (auto simp: sameDeploy_def)

interpretation samenod: step_rel sameNodes
  by unfold_locales (auto simp: sameNodes_def)

interpretation samefs: step_rel sameFs
  by unfold_locales (auto simp: sameFs_def)

interpretation grow: step_rel grows
  by unfold_locales (auto simp: grows_def intro: prefix_order.trans)

named_theorems deploy_frame and nodes_frame and grow_frame and fs_frame

declare samedep.within_intros [deploy_frame] samenod.within_intros [nodes_frame]
  grow.within_intros [grow_frame] samefs.within_intros [fs_frame]

lemma sameDeploy_nodes: "within sameDeploy m \<Longrightarrow> within sameNodes m"
  by (auto simp: within_def sameDeploy_def sameNodes_def)

lemma within_getW [deploy_frame, nodes_frame, grow_frame, fs_frame]:
  "within sameDeploy getW" "within sameNodes getW" "within grows getW" "within sameFs getW"
  by (simp_all add: within_def getW_def sameDeploy_def sameNodes_def grows_def sameFs_def)

lemma within_modifyFs [deploy_frame, nodes_frame, grow_frame]:
  "within sameDeploy (modifyFs f)" "within sameNodes (modifyFs f)" "within grows (modifyFs f)"
  by (simp_all add: within_def modifyFs_def modifyW_def sameDeploy_def sameNodes_def grows_def)

lemma within_request [deploy_frame, nodes_frame, grow_frame, fs_frame]:
  "within sameDeploy (request env ev)" "within sameNodes (request env ev)"
  "within grows (request env ev)" "within sameFs (request env ev)"
  by (simp_all add: within_def request_def sameDeploy_def sameNodes_def grows_def sameFs_def)

lemma within_answer [deploy_frame, nodes_frame, grow_frame, fs_frame]:
  "within sameDeploy (answer f ev)" "within sameNodes (answer f ev)" "within grows (answer f ev)"
  "within sameFs (answer f ev)"
  by (simp_all add: within_def answer_def sameDeploy_def sameNodes_def grows_def sameFs_def)

lemma within_print [deploy_frame, nodes_frame, grow_frame, fs_frame]:
  "within sameDeploy (printG txt)" "within sameNodes (printG txt)" "within grows (printG txt)"
  "within sameFs (printG txt)"
  unfolding printG_def by (rule within_answer)+

lemma wp_sameNodes:
  assumes "within sameNodes m"
    and "\<And>a t. nodes t = nodes s \<Longrightarrow> Q a t" and "\<And>t. nodes t = nodes s \<Longrightarrow> E t"
  shows "wp m Q E s"
  using assms by (auto intro!: wp_within [of sameNodes] simp: sameNodes_def)

declare getW_def [go_defs] modifyW_def [go_defs] modifyFs_def [go_defs] request_def [go_defs]
  answer_def [go_defs]

end
