(* ===== verification/Os.thy ===== *)
theory Os
  imports World
begin

text \<open>
  The file-system calls of Go's \<open>os\<close>, \<open>io\<close> and \<open>io/ioutil\<close> packages that the
  program makes, over the file system of \<open>World\<close>. Each call first asks the environment
  whether it fails; a failing call that works in several steps may have done some of them
  (\<open>e_partial\<close>, \<open>e_removed\<close>). Permission bits are those requested, before the process umask.
  Renaming a directory, or removing one other than with \<open>os.RemoveAll\<close>, does not occur and is
  refused. A symbolic link is a name of its own that no call of the program goes through.
\<close>

section \<open>Pure file-system functions\<close>

definition perm :: "nat \<Rightarrow> nat \<Rightarrow> nat \<Rightarrow> nat" where
  "perm u g o' = 64 * u + 8 * g + o'"

definition lookupPath :: "fsys \<Rightarrow> string \<Rightarrow> entry option" where
  "lookupPath fs p = (if parts p = [] then Some Dir else names fs (pathClean p))"

definition isDir :: "fsys \<Rightarrow> string \<Rightarrow> bool" where
  "isDir fs p \<longleftrightarrow> lookupPath fs p = Some Dir"

text \<open>The directories \<open>os.MkdirAll\<close> visits, outermost first.\<close>

definition dirChain :: "string \<Rightarrow> string list" where
  "dirChain p = map (render (rooted p)) (tl (prefixes (parts p)))"

fun mkChain :: "string list \<Rightarrow> fsys \<Rightarrow> fsys \<times> bool" where
  "mkChain [] fs = (fs, True)"
| "mkChain (p # ps) fs =
     (case names fs p of
        Some (File _) \<Rightarrow> (fs, False)
      | _ \<Rightarrow> mkChain ps (fs\<lparr>names := (names fs)(p \<mapsto> Dir)\<rparr>))"

definition bindName :: "string \<Rightarrow> entry option \<Rightarrow> fsys \<Rightarrow> fsys" where
  "bindName p e fs = fs\<lparr>names := (names fs)(pathClean p := e)\<rparr>"

definition newInode :: "string \<Rightarrow> nat \<Rightarrow> fsys \<Rightarrow> fsys" where
  "newInode p m fs =
     (bindName p (Some (File (nextIno fs))) fs)\<lparr>
        content := (content fs)(nextIno fs := ''''),
        mode := (mode fs)(nextIno fs := m),
        nextIno := Suc (nextIno fs)\<rparr>"

definition setContent :: "nat \<Rightarrow> string \<Rightarrow> fsys \<Rightarrow> fsys" where
  "setContent i d fs = fs\<lparr>content := (content fs)(i := d)\<rparr>"

text \<open>
  Opening for writing with create and truncate: the new file system and the inode, or the
  error.
\<close>

definition openTrunc :: "string \<Rightarrow> nat \<Rightarrow> fsys \<Rightarrow> goerr + (nat \<times> fsys)" where
  "openTrunc p m fs =
     (case lookupPath fs p of
        Some Dir \<Rightarrow> Inl (Fail ''is a directory'')
      | Some (File i) \<Rightarrow> Inr (i, setContent i '''' fs)
      | None \<Rightarrow>
          (if isDir fs (pathDir p) then Inr (nextIno fs, newInode p m fs) else Inl NotExist))"

section \<open>Calls\<close>

definition osMkdirAll :: "env \<Rightarrow> string \<Rightarrow> unit io" where
  "osMkdirAll env d =
     bindG (tryG (request env (EvMkdirAll d))) (\<lambda>r.
     bindG getW (\<lambda>w.
     (case r of
        Inl e \<Rightarrow>
          bindG (modifyFs (\<lambda>fs. fst (mkChain (take (e_partial env (hist w)) (dirChain d)) fs)))
            (\<lambda>_. failG e)
      | Inr _ \<Rightarrow>
          bindG (modifyFs (\<lambda>fs. fst (mkChain (dirChain d) fs))) (\<lambda>_.
          if snd (mkChain (dirChain d) (wfs w)) then returnG ()
          else failG (Fail ''not a directory'')))))"

definition osStat :: "env \<Rightarrow> string \<Rightarrow> nat io" where
  "osStat env p =
     bindG (request env (EvStat p)) (\<lambda>_.
     bindG getW (\<lambda>w.
     (case lookupPath (wfs w) p of
        None \<Rightarrow> failG NotExist
      | Some Dir \<Rightarrow> returnG (e_dirSize env p)
      | Some (File i) \<Rightarrow> returnG (length (content (wfs w) i)))))"

definition osCreate :: "env \<Rightarrow> string \<Rightarrow> nat io" where
  "osCreate env p =
     bindG (request env (EvCreate p)) (\<lambda>_.
     bindG getW (\<lambda>w.
     (case openTrunc p (perm 6 6 6) (wfs w) of
        Inl e \<Rightarrow> failG e
      | Inr (i, fs) \<Rightarrow> bindG (modifyFs (\<lambda>_. fs)) (\<lambda>_. returnG i))))"

text \<open>\<open>io.Copy\<close> from a byte source into an open file.\<close>

definition ioCopy :: "env \<Rightarrow> nat \<Rightarrow> string \<Rightarrow> unit io" where
  "ioCopy env i body =
     bindG (tryG (request env (EvCopy i))) (\<lambda>r.
     bindG getW (\<lambda>w.
     (case r of
        Inl e \<Rightarrow>
          bindG (modifyFs (\<lambda>fs. setContent i (content fs i @ take (e_partial env (hist w)) body) fs))
            (\<lambda>_. failG e)
      | Inr _ \<Rightarrow> modifyFs (\<lambda>fs. setContent i (content fs i @ body) fs))))"

definition osOpen :: "env \<Rightarrow> string \<Rightarrow> entry io" where
  "osOpen env p =
     bindG (request env (EvOpen p)) (\<lambda>_.
     bindG getW (\<lambda>w.
     (case lookupPath (wfs w) p of None \<Rightarrow> failG NotExist | Some e \<Rightarrow> returnG e)))"

definition ioReadAll :: "env \<Rightarrow> entry \<Rightarrow> string io" where
  "ioReadAll env e =
     bindG (request env EvRead) (\<lambda>_.
     bindG getW (\<lambda>w.
     (case e of Dir \<Rightarrow> failG (Fail ''is a directory'') | File i \<Rightarrow> returnG (content (wfs w) i))))"

definition osRename :: "env \<Rightarrow> string \<Rightarrow> string \<Rightarrow> unit io" where
  "osRename env a b =
     bindG (request env (EvRename a b)) (\<lambda>_.
     bindG getW (\<lambda>w.
     (case lookupPath (wfs w) a of
        None \<Rightarrow> failG NotExist
      | Some Dir \<Rightarrow> failG (Fail ''directory rename'')
      | Some (File i) \<Rightarrow>
          (if lookupPath (wfs w) b = Some Dir then failG (Fail ''file exists'')
           else if \<not> isDir (wfs w) (pathDir b) then failG NotExist
           else modifyFs (\<lambda>fs. bindName b (Some (File i)) (bindName a None fs))))))"

definition osRemove :: "env \<Rightarrow> string \<Rightarrow> unit io" where
  "osRemove env p =
     bindG (request env (EvRemove p)) (\<lambda>_.
     bindG getW (\<lambda>w.
     (case lookupPath (wfs w) p of
        None \<Rightarrow> failG NotExist
      | Some Dir \<Rightarrow> failG (Fail ''directory not empty'')
      | Some (File i) \<Rightarrow> modifyFs (bindName p None))))"

definition osLink :: "env \<Rightarrow> string \<Rightarrow> string \<Rightarrow> unit io" where
  "osLink env a b =
     bindG (request env (EvLink a b)) (\<lambda>_.
     bindG getW (\<lambda>w.
     (case lookupPath (wfs w) a of
        None \<Rightarrow> failG NotExist
      | Some Dir \<Rightarrow> failG (Fail ''operation not permitted'')
      | Some (File i) \<Rightarrow>
          (if lookupPath (wfs w) b \<noteq> None then failG (Fail ''file exists'')
           else if \<not> isDir (wfs w) (pathDir b) then failG NotExist
           else modifyFs (bindName b (Some (File i)))))))"

text \<open>\<open>ioutil.WriteFile\<close>: the mode counts only when the file is created.\<close>

definition osWriteFile :: "env \<Rightarrow> string \<Rightarrow> string \<Rightarrow> nat \<Rightarrow> unit io" where
  "osWriteFile env p d m =
     bindG (request env (EvWriteFile p)) (\<lambda>_.
     bindG getW (\<lambda>w.
     (case openTrunc p m (wfs w) of
        Inl e \<Rightarrow> failG e
      | Inr (i, fs) \<Rightarrow>
          bindG (modifyFs (\<lambda>_. fs)) (\<lambda>_.
          bindG (tryG (request env (EvWrite i))) (\<lambda>r.
          bindG getW (\<lambda>w2.
          (case r of
             Inl e \<Rightarrow>
               bindG (modifyFs (setContent i (take (e_partial env (hist w2)) d))) (\<lambda>_. failG e)
           | Inr _ \<Rightarrow> modifyFs (setContent i d))))))))"

text \<open>\<open>exec.Command(..).Run()\<close>, with the variables added to the environment of the process.\<close>

definition osExec :: "env \<Rightarrow> string \<Rightarrow> string list \<Rightarrow> string list \<Rightarrow> unit io" where
  "osExec env cmd cargs vars = request env (EvExec cmd cargs vars)"

text \<open>\<open>ioutil.ReadFile\<close>, \<open>os.Symlink\<close>, \<open>os.RemoveAll\<close>, \<open>syscall.Chown\<close> and \<open>filepath.Abs\<close>.\<close>

definition osReadFile :: "env \<Rightarrow> string \<Rightarrow> string io" where
  "osReadFile env p =
     bindG (request env (EvReadFile p)) (\<lambda>_.
     bindG getW (\<lambda>w.
     (case lookupPath (wfs w) p of
        None \<Rightarrow> failG NotExist
      | Some Dir \<Rightarrow> failG (Fail ''is a directory'')
      | Some (File i) \<Rightarrow> returnG (content (wfs w) i))))"

definition osSymlink :: "env \<Rightarrow> string \<Rightarrow> string \<Rightarrow> unit io" where
  "osSymlink env old new =
     bindG (request env (EvSymlink old new)) (\<lambda>_.
     bindG getW (\<lambda>w.
     if lookupPath (wfs w) new \<noteq> None \<or> links (wfs w) (pathClean new) \<noteq> None
     then failG (Fail ''file exists'')
     else if \<not> isDir (wfs w) (pathDir new) then failG NotExist
     else modifyFs (\<lambda>fs. fs\<lparr>links := (links fs)(pathClean new \<mapsto> old)\<rparr>)))"

text \<open>The names a removal of \<open>p\<close> is about: \<open>p\<close> itself and everything below it.\<close>

definition under :: "string \<Rightarrow> string \<Rightarrow> bool" where
  "under p n \<longleftrightarrow> n = pathClean p \<or> prefix (pathClean p @ ''/'') n"

definition dropNames :: "(string \<Rightarrow> bool) \<Rightarrow> fsys \<Rightarrow> fsys" where
  "dropNames P fs =
     fs\<lparr>names := (\<lambda>n. if P n then None else names fs n), links := (\<lambda>n. if P n then None else links fs n)\<rparr>"

definition osRemoveAll :: "env \<Rightarrow> string \<Rightarrow> unit io" where
  "osRemoveAll env p =
     bindG (tryG (request env (EvRemoveAll p))) (\<lambda>r.
     bindG getW (\<lambda>w.
     (case r of
        Inl e \<Rightarrow>
          bindG (modifyFs (dropNames (\<lambda>n. under p n \<and> e_removed env (hist w) n))) (\<lambda>_. failG e)
      | Inr _ \<Rightarrow> modifyFs (dropNames (under p)))))"

definition osChown :: "env \<Rightarrow> string \<Rightarrow> int \<Rightarrow> int \<Rightarrow> unit io" where
  "osChown env p uid gid =
     bindG (request env (EvChown p uid gid)) (\<lambda>_.
     bindG getW (\<lambda>w.
     (case lookupPath (wfs w) p of
        Some (File i) \<Rightarrow> modifyFs (\<lambda>fs. fs\<lparr>owner := (owner fs)(i := (uid, gid))\<rparr>)
      | Some Dir \<Rightarrow> returnG ()
      | None \<Rightarrow> failG NotExist)))"

definition filepathAbs :: "env \<Rightarrow> string \<Rightarrow> string io" where
  "filepathAbs env p =
     (if rooted p then returnG (pathClean p)
      else bindG (request env (EvAbs p)) (\<lambda>_. returnG (pathJoin [e_cwd env, p])))"

lemmas os_defs =
  osMkdirAll_def osStat_def osCreate_def ioCopy_def osOpen_def ioReadAll_def osRename_def
  osRemove_def osLink_def osWriteFile_def osExec_def osReadFile_def osSymlink_def osRemoveAll_def
  osChown_def filepathAbs_def

section \<open>Frames\<close>

lemma os_deploy [deploy_frame]:
  "within sameDeploy (osMkdirAll env d)"
  "within sameDeploy (osStat env p)"
  "within sameDeploy (osCreate env p)"
  "within sameDeploy (ioCopy env i body)"
  "within sameDeploy (osOpen env p)"
  "within sameDeploy (ioReadAll env e)"
  "within sameDeploy (osRename env a b)"
  "within sameDeploy (osRemove env p)"
  "within sameDeploy (osLink env a b)"
  "within sameDeploy (osWriteFile env p d' m)"
  "within sameDeploy (osExec env c xs vs)"
  "within sameDeploy (osReadFile env p)"
  "within sameDeploy (osSymlink env a b)"
  "within sameDeploy (osRemoveAll env p)"
  "within sameDeploy (osChown env p u g)"
  "within sameDeploy (filepathAbs env p)"
  unfolding os_defs
  by (auto intro!: deploy_frame split: sum.splits option.splits entry.splits prod.splits)

lemma os_grow [grow_frame]:
  "within grows (osMkdirAll env d)"
  "within grows (osStat env p)"
  "within grows (osCreate env p)"
  "within grows (ioCopy env i body)"
  "within grows (osOpen env p)"
  "within grows (ioReadAll env e)"
  "within grows (osRename env a b)"
  "within grows (osRemove env p)"
  "within grows (osLink env a b)"
  "within grows (osWriteFile env p d' m)"
  "within grows (osExec env c xs vs)"
  "within grows (osReadFile env p)"
  "within grows (osSymlink env a b)"
  "within grows (osRemoveAll env p)"
  "within grows (osChown env p u g)"
  "within grows (filepathAbs env p)"
  unfolding os_defs
  by (auto intro!: grow_frame split: sum.splits option.splits entry.splits prod.splits)

lemmas os_nodes [nodes_frame] = os_deploy [THEN sameDeploy_nodes]

section \<open>Directories after MkdirAll\<close>

lemma mkChain_names_mono:
  "names fs p \<noteq> None \<Longrightarrow> names (fst (mkChain ps fs)) p \<noteq> None"
  by (induction ps fs rule: mkChain.induct) (auto split: option.splits entry.splits)

lemma mkChain_file: "names fs p = Some (File i) \<Longrightarrow> names (fst (mkChain ps fs)) p = Some (File i)"
proof (induction ps fs rule: mkChain.induct)
  case (2 q ps fs)
  then show ?case by (cases "p = q") (auto split: option.splits entry.splits)
qed simp

lemma mkChain_dir: "names fs p = Some Dir \<Longrightarrow> names (fst (mkChain ps fs)) p = Some Dir"
  by (induction ps fs rule: mkChain.induct) (auto split: option.splits entry.splits)

lemma mkChain_new:
  "names (fst (mkChain ps fs)) p = Some (File i) \<Longrightarrow> names fs p = Some (File i)"
  by (induction ps fs rule: mkChain.induct) (auto split: option.splits entry.splits if_splits)

lemma mkChain_outside: "p \<notin> set ps \<Longrightarrow> names (fst (mkChain ps fs)) p = names fs p"
  by (induction ps fs rule: mkChain.induct) (auto split: option.splits entry.splits)

lemma mkChain_other:
  "content (fst (mkChain ps fs)) = content fs" "mode (fst (mkChain ps fs)) = mode fs"
  "nextIno (fst (mkChain ps fs)) = nextIno fs"
  by (induction ps fs rule: mkChain.induct) (auto split: option.splits entry.splits)

lemma mkChain_made:
  "snd (mkChain ps fs) \<Longrightarrow> p \<in> set ps \<Longrightarrow> names (fst (mkChain ps fs)) p = Some Dir"
proof (induction ps fs rule: mkChain.induct)
  case (2 q ps fs)
  then show ?case by (auto split: option.splits entry.splits intro: mkChain_dir)
qed simp

lemma dirChain_self: "parts p \<noteq> [] \<Longrightarrow> pathClean p \<in> set (dirChain p)"
proof -
  assume ne: "parts p \<noteq> []"
  have "parts p \<in> set (prefixes (parts p))" by simp
  moreover have "prefixes (parts p) = [] # tl (prefixes (parts p))" by (cases "parts p") auto
  ultimately have "parts p \<in> set (tl (prefixes (parts p)))" using ne by (metis set_ConsD)
  then show ?thesis by (simp add: dirChain_def pathClean_def)
qed

lemma mkdirAll_isDir: "snd (mkChain (dirChain p) fs) \<Longrightarrow> isDir (fst (mkChain (dirChain p) fs)) p"
  using mkChain_made [OF _ dirChain_self] by (simp add: isDir_def lookupPath_def)

lemma isDir_mkChain: "isDir fs p \<Longrightarrow> isDir (fst (mkChain ps fs)) p"
  by (auto simp: isDir_def lookupPath_def mkChain_dir split: if_splits)

lemma osMkdirAll_Ok:
  "osMkdirAll env d s = (Ok u, t) \<Longrightarrow> isDir (wfs t) d"
  unfolding osMkdirAll_def
  by (auto elim!: bindG_OkE simp: go_defs tryG_def mkdirAll_isDir split: sum.splits option.splits if_splits)

lemma osMkdirAll_keeps:
  "osMkdirAll env d s = (r, t) \<Longrightarrow> \<exists>ps. wfs t = fst (mkChain ps (wfs s))"
  unfolding osMkdirAll_def
  by (auto simp: bindG_def go_defs tryG_def split: sum.splits option.splits if_splits)

section \<open>Writing a file\<close>

lemma lookup_newInode: "parts p \<noteq> [] \<Longrightarrow> lookupPath (newInode p m fs) p = Some (File (nextIno fs))"
  by (simp add: lookupPath_def newInode_def bindName_def)

lemma lookup_setContent [simp]: "lookupPath (setContent i d fs) p = lookupPath fs p"
  by (simp add: lookupPath_def setContent_def)

lemma osWriteFile_Ok:
  assumes "osWriteFile env p d m s = (Ok u, t)"
  shows "\<exists>i. lookupPath (wfs t) p = Some (File i) \<and> content (wfs t) i = d \<and>
    (lookupPath (wfs s) p = None \<longrightarrow> mode (wfs t) i = m) \<and>
    (\<forall>j. lookupPath (wfs s) p = Some (File j) \<longrightarrow> i = j \<and> mode (wfs t) = mode (wfs s))"
proof -
  obtain i fs where o: "openTrunc p m (wfs s) = Inr (i, fs)" and t: "wfs t = setContent i d fs"
    using assms unfolding osWriteFile_def
    by (auto elim!: bindG_OkE simp: go_defs tryG_def split: sum.splits option.splits)
  from o have "lookupPath fs p = Some (File i)"
    by (cases "parts p = []")
      (auto simp: openTrunc_def lookup_newInode isDir_def lookupPath_def newInode_def bindName_def setContent_def
        split: option.splits entry.splits if_splits)
  moreover have "lookupPath (wfs s) p = None \<longrightarrow> mode fs i = m"
    "\<forall>j. lookupPath (wfs s) p = Some (File j) \<longrightarrow> i = j \<and> mode fs = mode (wfs s)"
    using o by (auto simp: openTrunc_def newInode_def bindName_def setContent_def split: if_splits option.splits entry.splits)
  ultimately show ?thesis
    unfolding t by (auto simp: setContent_def lookupPath_def)
qed

lemma osWriteFile_new:
  assumes "osWriteFile env p d m s = (Ok u, t)" and "lookupPath (wfs s) p = None"
  shows "wfs t = setContent (nextIno (wfs s)) d (newInode p m (wfs s))"
  using assms unfolding osWriteFile_def
  by (auto elim!: bindG_OkE simp: go_defs tryG_def openTrunc_def split: sum.splits option.splits if_splits)

section \<open>Weakest preconditions over the file system\<close>

lemma wp_osMkdirAll:
  assumes "\<And>t. wfs t = fst (mkChain (dirChain d) (wfs s)) \<Longrightarrow> isDir (wfs t) d \<Longrightarrow> Q () t"
    and "\<And>t n. wfs t = fst (mkChain (take n (dirChain d)) (wfs s)) \<Longrightarrow> E t"
  shows "wp (osMkdirAll env d) Q E s"
  using assms assms(2) [of _ "length (dirChain d)"]
  by (auto simp: osMkdirAll_def wp_def bindG_def tryG_def go_defs mkdirAll_isDir split: option.splits)

lemma wp_osStat:
  assumes "\<And>n t. wfs t = wfs s \<Longrightarrow> lookupPath (wfs s) p \<noteq> None \<Longrightarrow> Q n t"
    and "\<And>t. wfs t = wfs s \<Longrightarrow> E t"
  shows "wp (osStat env p) Q E s"
  using assms
  by (auto simp: osStat_def wp_def bindG_def go_defs split: option.splits entry.splits)

lemma wp_osCreate:
  assumes "\<And>i t. openTrunc p (perm 6 6 6) (wfs s) = Inr (i, wfs t) \<Longrightarrow> Q i t"
    and "\<And>t. wfs t = wfs s \<Longrightarrow> E t"
  shows "wp (osCreate env p) Q E s"
  using assms
  by (auto simp: osCreate_def wp_def bindG_def go_defs split: option.splits sum.splits)

lemma wp_ioCopy:
  assumes "\<And>t. wfs t = setContent i (content (wfs s) i @ body) (wfs s) \<Longrightarrow> Q () t"
    and "\<And>t d. wfs t = setContent i d (wfs s) \<Longrightarrow> E t"
  shows "wp (ioCopy env i body) Q E s"
  using assms
  by (auto simp: ioCopy_def wp_def bindG_def tryG_def go_defs split: option.splits)

lemma wp_osOpen:
  assumes "\<And>e t. wfs t = wfs s \<Longrightarrow> lookupPath (wfs s) p = Some e \<Longrightarrow> Q e t"
    and "\<And>t. wfs t = wfs s \<Longrightarrow> E t"
  shows "wp (osOpen env p) Q E s"
  using assms
  by (auto simp: osOpen_def wp_def bindG_def go_defs split: option.splits)

lemma wp_ioReadAll:
  assumes "\<And>i t. wfs t = wfs s \<Longrightarrow> e = File i \<Longrightarrow> Q (content (wfs s) i) t"
    and "\<And>t. wfs t = wfs s \<Longrightarrow> E t"
  shows "wp (ioReadAll env e) Q E s"
  using assms
  by (auto simp: ioReadAll_def wp_def bindG_def go_defs split: option.splits entry.splits)

lemma wp_osRename:
  assumes "\<And>i t. lookupPath (wfs s) a = Some (File i) \<Longrightarrow>
      wfs t = bindName b (Some (File i)) (bindName a None (wfs s)) \<Longrightarrow> Q () t"
    and "\<And>t. wfs t = wfs s \<Longrightarrow> E t"
  shows "wp (osRename env a b) Q E s"
  using assms
  by (auto simp: osRename_def wp_def bindG_def go_defs split: option.splits entry.splits)

lemma wp_osRemove:
  assumes "\<And>i t. lookupPath (wfs s) p = Some (File i) \<Longrightarrow> wfs t = bindName p None (wfs s) \<Longrightarrow> Q () t"
    and "\<And>t. wfs t = wfs s \<Longrightarrow> E t"
  shows "wp (osRemove env p) Q E s"
  using assms
  by (auto simp: osRemove_def wp_def bindG_def go_defs split: option.splits entry.splits)

lemma wp_answer:
  assumes "\<And>t. wfs t = wfs s \<Longrightarrow> Q (f (hist s)) t"
  shows "wp (answer f ev) Q E s"
  using assms by (simp add: wp_def answer_def)

end
