(* ===== verification/Traces.thy ===== *)
theory Traces
  imports Os Go_Loops
begin

text \<open>
  What a run leaves in one of the records of its state, in order: the world's requests to the outside
  (\<open>hist\<close>) or the call sites of the registered resources. For a record \<open>obs\<close> and a class \<open>F\<close>
  of its entries, \<open>seen obs F xs s t\<close> says that the entries of that class made between two
  states are exactly \<open>xs\<close>. A program \<open>m\<close> follows a plan (\<open>leaves obs F plan m\<close>) when a normal
  return has made exactly the planned entries and any other ending an initial part of them.
  Plans compose like the programs. \<open>halts\<close> says that nothing is made after a failure.
\<close>

section \<open>Entries between two states\<close>

definition seen :: "('s \<Rightarrow> 'o list) \<Rightarrow> ('o \<Rightarrow> bool) \<Rightarrow> 'o list \<Rightarrow> 's \<Rightarrow> 's \<Rightarrow> bool" where
  "seen obs F xs s t \<longleftrightarrow> (\<exists>es. obs t = obs s @ es \<and> filter F es = xs)"

abbreviation asked :: "(event \<Rightarrow> bool) \<Rightarrow> event list \<Rightarrow> world \<Rightarrow> world \<Rightarrow> bool" where
  "asked \<equiv> seen hist"

abbreviation silent :: "(event \<Rightarrow> bool) \<Rightarrow> world \<Rightarrow> world \<Rightarrow> bool" where
  "silent F \<equiv> asked F []"

lemma seen_refl [simp]: "seen obs F [] s s"
  by (simp add: seen_def)

lemma seen_trans: "seen obs F xs s t \<Longrightarrow> seen obs F ys t u \<Longrightarrow> seen obs F (xs @ ys) s u"
  by (auto simp: seen_def)

lemma seen_silent: "seen obs F xs s t \<Longrightarrow> seen obs F [] t u \<Longrightarrow> seen obs F xs s u"
  using seen_trans [of obs F xs s t "[]" u] by simp

lemma silent_seen: "seen obs F [] s t \<Longrightarrow> seen obs F xs t u \<Longrightarrow> seen obs F xs s u"
  using seen_trans [of obs F "[]" s t xs u] by simp

interpretation silence: step_rel "seen obs F []" for obs F
  by unfold_locales (auto elim: seen_silent)

named_theorems silent_frame
declare silence.within_intros [silent_frame]

lemma silent_requests [silent_frame]:
  "\<not> F ev \<Longrightarrow> within (silent F) (request env ev)"
  "\<not> F ev \<Longrightarrow> within (silent F) (answer f ev)"
  "\<not> F (EvPrint txt) \<Longrightarrow> within (silent F) (printG txt)"
  "within (silent F) getW" "within (silent F) (modifyFs g)"
  by (simp_all add: within_def seen_def go_defs printG_def)

lemma silent_os [silent_frame]:
  "\<not> F (EvMkdirAll d) \<Longrightarrow> within (silent F) (osMkdirAll env d)"
  "\<not> F (EvSymlink a b) \<Longrightarrow> within (silent F) (osSymlink env a b)"
  "\<not> F (EvRemoveAll p) \<Longrightarrow> within (silent F) (osRemoveAll env p)"
  "\<not> F (EvReadFile p) \<Longrightarrow> within (silent F) (osReadFile env p)"
  "\<not> F (EvChown p u g) \<Longrightarrow> within (silent F) (osChown env p u g)"
  "\<not> F (EvAbs p) \<Longrightarrow> within (silent F) (filepathAbs env p)"
  "\<not> F (EvExec c xs vs) \<Longrightarrow> within (silent F) (osExec env c xs vs)"
  "\<not> F (EvWriteFile p) \<Longrightarrow> (\<And>i. \<not> F (EvWrite i)) \<Longrightarrow> within (silent F) (osWriteFile env p d' m)"
  unfolding osMkdirAll_def osSymlink_def osRemoveAll_def osReadFile_def osChown_def filepathAbs_def
    osExec_def osWriteFile_def
  by (auto intro!: silent_frame split: sum.splits option.splits entry.splits prod.splits)

section \<open>Following a plan\<close>

definition leaves :: "('s \<Rightarrow> 'o list) \<Rightarrow> ('o \<Rightarrow> bool) \<Rightarrow> 'o list \<Rightarrow> ('s, 'a) go \<Rightarrow> bool" where
  "leaves obs F plan m \<longleftrightarrow> (\<forall>s. wp m (\<lambda>_. seen obs F plan s) (\<lambda>t. \<exists>xs. prefix xs plan \<and> seen obs F xs s t) s)"

abbreviation does :: "(event \<Rightarrow> bool) \<Rightarrow> event list \<Rightarrow> 'a io \<Rightarrow> bool" where
  "does \<equiv> leaves hist"

named_theorems does_intros

lemma does_silent: "within (seen obs F []) m \<Longrightarrow> leaves obs F [] m"
  unfolding leaves_def by (auto intro!: wp_within [of "seen obs F []"])

lemma does_request: "F ev \<Longrightarrow> does F [ev] (request env ev)"
  unfolding leaves_def wp_def by (auto simp: request_def seen_def split: option.split)

lemma does_stop [does_intros]:
  "leaves obs F plan (failG e)" "leaves obs F plan (panicG p)" "leaves obs F plan (exitG n)"
  unfolding leaves_def by (auto intro!: wp_fail wp_panic wp_exit exI [of _ "[]"])

lemma does_bind:
  assumes "leaves obs F xs m" and "\<And>a. leaves obs F ys (k a)"
  shows "leaves obs F (xs @ ys) (bindG m k)"
  unfolding leaves_def
proof (intro allI wp_bind)
  fix s
  from assms(1) have "wp m (\<lambda>_. seen obs F xs s) (\<lambda>t. \<exists>xs'. prefix xs' xs \<and> seen obs F xs' s t) s"
    by (simp add: leaves_def)
  then show "wp m (\<lambda>a. wp (k a) (\<lambda>_. seen obs F (xs @ ys) s) (\<lambda>t. \<exists>zs. prefix zs (xs @ ys) \<and> seen obs F zs s t))
      (\<lambda>t. \<exists>zs. prefix zs (xs @ ys) \<and> seen obs F zs s t) s"
  proof (rule wp_weaken)
    fix a t assume t: "seen obs F xs s t"
    from assms(2) have "wp (k a) (\<lambda>_. seen obs F ys t) (\<lambda>u. \<exists>ys'. prefix ys' ys \<and> seen obs F ys' t u) t"
      by (simp add: leaves_def)
    then show "wp (k a) (\<lambda>_. seen obs F (xs @ ys) s) (\<lambda>t. \<exists>zs. prefix zs (xs @ ys) \<and> seen obs F zs s t) t"
    proof (rule wp_weaken)
      fix u assume "\<exists>ys'. prefix ys' ys \<and> seen obs F ys' t u"
      then obtain ys' where "prefix ys' ys" "seen obs F ys' t u" by blast
      with seen_trans [OF t] show "\<exists>zs. prefix zs (xs @ ys) \<and> seen obs F zs s u"
        by (intro exI [of _ "xs @ ys'"]) simp
    qed (use t in \<open>auto intro: seen_trans\<close>)
  qed (auto intro: prefix_prefix)
qed

text \<open>A step that makes no planned request, and one that makes the next one.\<close>

lemma does_skip [does_intros]:
  "within (seen obs F []) m \<Longrightarrow> (\<And>a. leaves obs F plan (k a)) \<Longrightarrow> leaves obs F plan (bindG m k)"
  using does_bind [OF does_silent, of obs F m plan k] by simp

lemma does_next: "leaves obs F [e] m \<Longrightarrow> (\<And>a. leaves obs F plan (k a)) \<Longrightarrow> leaves obs F (e # plan) (bindG m k)"
  using does_bind [of obs F "[e]" m plan k] by simp

lemma does_if [does_intros]: "(c \<Longrightarrow> leaves obs F plan m) \<Longrightarrow> (\<not> c \<Longrightarrow> leaves obs F plan n) \<Longrightarrow> leaves obs F plan (if c then m else n)"
  by simp

lemma leavesD:
  assumes "leaves obs F plan m" "m s = (r, t)"
  shows "\<exists>xs. prefix xs plan \<and> seen obs F xs s t \<and> (\<forall>a. r = Ok a \<longrightarrow> xs = plan)"
proof -
  have "wp m (\<lambda>_. seen obs F plan s) (\<lambda>t. \<exists>xs. prefix xs plan \<and> seen obs F xs s t) s"
    using assms(1) by (simp add: leaves_def)
  with assms(2) show ?thesis by (cases r) (auto simp: wp_def)
qed

section \<open>Stopping at a failure\<close>

text \<open>
  \<open>bad h e\<close> says that the entry \<open>e\<close>, made after \<open>h\<close>, is a failure the code has to stop at;
  \<open>unfailed\<close> that no entry made after \<open>h\<close> is one. A program \<open>halts\<close> when such an entry is always
  its last one and keeps it from returning normally.
\<close>

fun unfailed :: "('o list \<Rightarrow> 'o \<Rightarrow> bool) \<Rightarrow> 'o list \<Rightarrow> 'o list \<Rightarrow> bool" where
  "unfailed bad h [] \<longleftrightarrow> True"
| "unfailed bad h (e # es) \<longleftrightarrow> \<not> bad h e \<and> unfailed bad (h @ [e]) es"

lemma unfailed_append [simp]: "unfailed bad h (xs @ ys) \<longleftrightarrow> unfailed bad h xs \<and> unfailed bad (h @ xs) ys"
  by (induction xs arbitrary: h) simp_all

lemma unfailed_butlast: "unfailed bad h xs \<Longrightarrow> unfailed bad h (butlast xs)"
  by (cases xs rule: rev_cases) simp_all

definition halts :: "('s \<Rightarrow> 'o list) \<Rightarrow> ('o list \<Rightarrow> 'o \<Rightarrow> bool) \<Rightarrow> ('s, 'a) go \<Rightarrow> bool" where
  "halts obs bad m \<longleftrightarrow> (\<forall>s. wp m (\<lambda>_ t. \<exists>es. obs t = obs s @ es \<and> unfailed bad (obs s) es)
     (\<lambda>t. \<exists>es. obs t = obs s @ es \<and> unfailed bad (obs s) (butlast es)) s)"

named_theorems halts_intros

lemma haltsI:
  "(\<And>s. wp m (\<lambda>_ t. \<exists>es. obs t = obs s @ es \<and> unfailed bad (obs s) es)
     (\<lambda>t. \<exists>es. obs t = obs s @ es \<and> unfailed bad (obs s) (butlast es)) s) \<Longrightarrow> halts obs bad m"
  by (simp add: halts_def)

lemma halts_bind [halts_intros]:
  assumes "halts obs bad m" and "\<And>a. halts obs bad (k a)"
  shows "halts obs bad (bindG m k)"
proof (intro haltsI wp_bind)
  fix s
  let ?Q = "\<lambda>s t. \<exists>es. obs t = obs s @ es \<and> unfailed bad (obs s) es"
  let ?E = "\<lambda>s t. \<exists>es. obs t = obs s @ es \<and> unfailed bad (obs s) (butlast es)"
  have "wp m (\<lambda>_. ?Q s) (?E s) s" using assms(1) by (simp add: halts_def)
  then show "wp m (\<lambda>a. wp (k a) (\<lambda>_. ?Q s) (?E s)) (?E s) s"
  proof (rule wp_weaken)
    fix a t assume "?Q s t"
    then obtain xs where xs: "obs t = obs s @ xs" "unfailed bad (obs s) xs" by blast
    have "wp (k a) (\<lambda>_. ?Q t) (?E t) t" using assms(2) by (simp add: halts_def)
    then show "wp (k a) (\<lambda>_. ?Q s) (?E s) t"
    proof (rule wp_weaken)
      fix u assume "?E t u"
      then obtain ys where "obs u = obs t @ ys" "unfailed bad (obs t) (butlast ys)" by blast
      with xs unfailed_butlast [OF xs(2)] show "?E s u"
        by (intro exI [of _ "xs @ ys"]) (simp add: butlast_append)
    next
      fix u assume "?Q t u"
      with xs show "?Q s u" by force
    qed
  qed
qed

lemma halts_still [halts_intros]:
  "halts obs bad (returnG a)" "halts obs bad (failG e)" "halts obs bad (panicG p)"
  by (auto intro!: haltsI wp_return wp_fail wp_panic exI [of _ "[]"])

lemma halts_if [halts_intros]: "halts obs bad m \<Longrightarrow> halts obs bad n \<Longrightarrow> halts obs bad (if c then m else n)"
  by simp

lemma halts_request [halts_intros]:
  "(\<And>h. bad h ev \<Longrightarrow> e_fault env h ev \<noteq> None) \<Longrightarrow> halts hist bad (request env ev)"
  by (rule haltsI) (force simp: wp_def request_def split: option.split)

lemma halts_io [halts_intros]:
  "halts hist bad getW" "(\<And>h. \<not> bad h (EvPrint txt)) \<Longrightarrow> halts hist bad (printG txt)"
  by (auto intro!: haltsI simp: wp_def getW_def printG_def answer_def)

text \<open>A request whose error is looked at: it is one to stop at exactly where the code goes on to fail.\<close>

lemma halts_ask [halts_intros]: "(\<And>h. \<not> bad h ev) \<Longrightarrow> halts hist bad (tryG (request env ev))"
  by (rule haltsI) (force simp: wp_def tryG_def request_def split: option.split)

lemma halts_except:
  assumes "\<And>h. bad h ev \<Longrightarrow> e_fault env h ev \<notin> {None, Some e'}" and "halts hist bad k"
  shows "halts hist bad (bindG (tryG (request env ev)) (\<lambda>r.
    bindG (case r of Inl e \<Rightarrow> (if e \<noteq> e' then failG e else returnG ()) | Inr _ \<Rightarrow> returnG ()) (\<lambda>_. k)))"
proof -
  have "halts hist bad (bindG (bindG (tryG (request env ev)) (\<lambda>r.
    case r of Inl e \<Rightarrow> (if e \<noteq> e' then failG e else returnG ()) | Inr _ \<Rightarrow> returnG ())) (\<lambda>_. k))"
    by (rule halts_bind [OF _ assms(2)])
      (rule haltsI, use assms(1) in \<open>force simp: wp_def bindG_def tryG_def request_def go_defs split: option.split\<close>)
  then show ?thesis by (simp add: bindG_assoc)
qed

lemma haltsD:
  assumes "halts obs bad m" "m s = (r, t)"
  shows "\<exists>es. obs t = obs s @ es \<and> unfailed bad (obs s) (butlast es) \<and> (\<forall>a. r = Ok a \<longrightarrow> unfailed bad (obs s) es)"
proof -
  have "wp m (\<lambda>_ t. \<exists>es. obs t = obs s @ es \<and> unfailed bad (obs s) es)
     (\<lambda>t. \<exists>es. obs t = obs s @ es \<and> unfailed bad (obs s) (butlast es)) s"
    using assms(1) by (simp add: halts_def)
  with assms(2) show ?thesis by (cases r) (auto simp: wp_def dest: unfailed_butlast)
qed

section \<open>Programs that may not return\<close>

definition doesP :: "(event \<Rightarrow> bool) \<Rightarrow> event list \<Rightarrow> (world, 'a) goP \<Rightarrow> bool" where
  "doesP F plan m \<longleftrightarrow> (\<forall>s r t. m s = Some (r, t) \<longrightarrow>
     (\<exists>xs. prefix xs plan \<and> asked F xs s t \<and> (\<forall>a. r = Ok a \<longrightarrow> xs = plan)))"

lemma doesP_lift: "does F plan m \<Longrightarrow> doesP F plan (liftP m)"
  using leavesD [of hist F plan m] by (simp add: doesP_def liftP_def)

lemma doesP_bind:
  assumes "doesP F xs m" and "\<And>a. doesP F ys (k a)"
  shows "doesP F (xs @ ys) (bindP m k)"
  unfolding doesP_def
proof (intro allI impI)
  fix s r u assume run: "bindP m k s = Some (r, u)"
  then obtain r1 t where m: "m s = Some (r1, t)" by (auto simp: bindP_def split: option.splits)
  from assms(1) m obtain zs where z: "prefix zs xs" "asked F zs s t" "\<forall>a. r1 = Ok a \<longrightarrow> zs = xs"
    unfolding doesP_def by blast
  show "\<exists>zs. prefix zs (xs @ ys) \<and> asked F zs s u \<and> (\<forall>a. r = Ok a \<longrightarrow> zs = xs @ ys)"
  proof (cases r1)
    case (Ok a)
    with run m have "k a t = Some (r, u)" by (simp add: bindP_def)
    with assms(2) obtain ws where "prefix ws ys" "asked F ws t u" "\<forall>a. r = Ok a \<longrightarrow> ws = ys"
      unfolding doesP_def by blast
    with z Ok show ?thesis by (intro exI [of _ "xs @ ws"]) (auto intro: seen_trans)
  qed (use run m z in \<open>auto simp: bindP_def intro!: exI [of _ zs] prefix_prefix\<close>)
qed

lemma doesP_skip: "does F [] m \<Longrightarrow> (\<And>a. doesP F plan (k a)) \<Longrightarrow> doesP F plan (bindP (liftP m) k)"
  using doesP_bind [OF doesP_lift, of F "[]" m plan k] by simp

lemma doesP_until:
  assumes "\<And>b. within (silent F) (body b)"
  shows "doesP F [] (untilP body b)"
proof -
  have "silent F s (snd y)" if "untilP body b s = Some y" for b s y
    using that
  proof (induction rule: untilP_induct)
    case (again b s c t y)
    with withinD [OF assms again(1)] show ?case by (auto elim: seen_silent)
  qed (use withinD [OF assms] in auto)
  then show ?thesis by (force simp: doesP_def)
qed

end
