(* ===== verification/Vm.thy ===== *)
theory Vm
  imports Go_Fmt "HOL-Library.Word"
begin

unbundle bit_operations_syntax

text \<open>
  \<open>src/pkg/vm/vm.go\<close>: the vm configuration a user writes (sizes as text), the internal
  one (sizes in bytes), the conversion, the printing of sizes and the random mac address.
  \<open>units.RAMInBytes\<close> of the go-units library is the parameter \<open>ram\<close> (text to bytes or
  an error). Go's \<open>int\<close> and \<open>int64\<close> are only copied, compared and divided by positive
  constants here, which cannot overflow, so they are \<open>int\<close>; the bytes of the mac address
  are \<open>8 word\<close>.
\<close>

section \<open>Configurations\<close>

record UserConfig =
  uc_Count :: int
  uc_Cpu :: int
  uc_Disksize :: string
  uc_Memory :: string
  uc_Name :: string
  uc_Qcow2 :: string

record Config =
  c_Count :: int
  c_Cpu :: int
  c_Disksize :: int
  c_Memory :: int
  c_Name :: string
  c_Qcow2 :: string

definition zeroConfig :: Config where
  "zeroConfig = \<lparr>c_Count = 0, c_Cpu = 0, c_Disksize = 0, c_Memory = 0, c_Name = '''', c_Qcow2 = ''''\<rparr>"

definition LOCALMAC :: "8 word" where "LOCALMAC = 0b10"
definition MCASTMAC :: "8 word" where "MCASTMAC = 0b1"
definition GIB :: int where "GIB = 1024 * 1024 * 1024"
definition MIB :: int where "MIB = 1024 * 1024"
definition KIB :: int where "KIB = 1024"

text \<open>
  \<open>%.2f\<close> of a \<open>float64\<close> that holds an integer: exact, since every quotient printed is
  below \<open>2 ^ 53\<close>.
\<close>

definition fmtWhole :: "int \<Rightarrow> string" where
  "fmtWhole n = showInt n @ ''.00''"

definition fmtIec :: "int \<Rightarrow> string" where
  "fmtIec bytes =
     (if bytes \<ge> GIB then fmtWhole (goDiv bytes GIB) @ ''GiB''
      else if bytes \<ge> MIB then fmtWhole (goDiv bytes MIB) @ ''MiB''
      else if bytes \<ge> KIB then fmtWhole (goDiv bytes KIB) @ ''KiB''
      else showInt bytes @ ''bytes'')"

definition formatConfig :: "Config \<Rightarrow> string" where
  "formatConfig c =
     c_Name c @ '': count='' @ showInt (c_Count c) @ '' cpu='' @ showInt (c_Cpu c) @
     '' disksize='' @ fmtIec (c_Disksize c) @ '' mem='' @ fmtIec (c_Memory c) @
     '' qcow2='' @ c_Qcow2 c"

text \<open>Returns the configuration built so far and the error, as the Go code does.\<close>

definition toConfig :: "(string \<Rightarrow> goerr + int) \<Rightarrow> UserConfig \<Rightarrow> Config \<times> goerr option" where
  "toConfig ram uc =
     (case ram (uc_Disksize uc) of
        Inl err \<Rightarrow> (zeroConfig, Some err)
      | Inr bytes \<Rightarrow>
          (let c = zeroConfig\<lparr>c_Disksize := bytes\<rparr> in
           (case ram (uc_Memory uc) of
              Inl err \<Rightarrow> (c, Some err)
            | Inr membytes \<Rightarrow>
                (c\<lparr>c_Memory := membytes, c_Count := uc_Count uc, c_Cpu := uc_Cpu uc,
                   c_Name := uc_Name uc, c_Qcow2 := uc_Qcow2 uc\<rparr>, None))))"

text \<open>What a converted configuration has to do with the user's.\<close>

definition converts :: "(string \<Rightarrow> goerr + int) \<Rightarrow> UserConfig \<Rightarrow> Config \<Rightarrow> bool" where
  "converts ram uc c \<longleftrightarrow>
     ram (uc_Disksize uc) = Inr (c_Disksize c) \<and> ram (uc_Memory uc) = Inr (c_Memory c) \<and>
     c_Count c = uc_Count uc \<and> c_Cpu c = uc_Cpu uc \<and> c_Name c = uc_Name uc \<and> c_Qcow2 c = uc_Qcow2 uc"

section \<open>Mac addresses\<close>

text \<open>\<open>rd\<close> is what \<open>rand.Read\<close> put into the three-byte buffer, or its error.\<close>

definition randmac :: "goerr + (8 word \<times> 8 word \<times> 8 word) \<Rightarrow> goerr + string" where
  "randmac rd =
     (case rd of
        Inl err \<Rightarrow> Inl err
      | Inr (b0, b1, b2) \<Rightarrow>
          (let b0' = b0 AND NOT MCASTMAC OR LOCALMAC in
           Inr (''C0:FF:EE:'' @ hex2 (unat b0') @ '':'' @ hex2 (unat b1) @ '':'' @ hex2 (unat b2))))"

text \<open>Reading a textual mac address back, and the two bits of its first octet.\<close>

definition hexVal :: "char \<Rightarrow> nat" where
  "hexVal c = (let n = (of_char c :: nat) in
     if n < 58 then n - 48 else if n < 91 then n - 55 else n - 87)"

definition octet :: "string \<Rightarrow> 8 word" where
  "octet s = of_nat (foldl (\<lambda>n c. 16 * n + hexVal c) 0 s)"

definition macOctets :: "string \<Rightarrow> 8 word list" where
  "macOctets m = map octet (splitOn CHR '':'' m)"

definition macLocal :: "string \<Rightarrow> bool" where
  "macLocal m \<longleftrightarrow> macOctets m \<noteq> [] \<and> hd (macOctets m) AND LOCALMAC \<noteq> 0"

definition macMulticast :: "string \<Rightarrow> bool" where
  "macMulticast m \<longleftrightarrow> macOctets m \<noteq> [] \<and> hd (macOctets m) AND MCASTMAC \<noteq> 0"

section \<open>Facts\<close>

lemma toConfig_None: "snd (toConfig ram uc) = None \<Longrightarrow> converts ram uc (fst (toConfig ram uc))"
  by (simp add: toConfig_def zeroConfig_def converts_def Let_def split: sum.splits)

lemma converts_toConfig: "converts ram uc c \<Longrightarrow> toConfig ram uc = (c, None)"
  by (simp add: toConfig_def zeroConfig_def converts_def Let_def split: sum.splits)

lemma toConfig_None_iff: "snd (toConfig ram uc) = None \<longleftrightarrow> (\<exists>c. converts ram uc c)"
  by (metis converts_toConfig snd_conv toConfig_None)

lemma hexVal_digitChar: "d < 16 \<Longrightarrow> hexVal (digitChar d) = d"
proof -
  have "\<forall>d\<in>set [0..<16]. hexVal (digitChar d) = d" by code_simp
  then show "d < 16 \<Longrightarrow> hexVal (digitChar d) = d" by simp
qed

lemma octet_hex2: "octet (hex2 (unat b)) = b"
proof -
  have "unat b < 256" using unsigned_less [where ?'a = nat, of b] by simp
  then have "16 * (unat b div 16 mod 16) + unat b mod 16 = unat b"
    by (simp add: less_mult_imp_div_less)
  then show ?thesis by (simp add: octet_def hex2_def hexVal_digitChar)
qed

lemma hex2_no_colon: "CHR '':'' \<notin> set (hex2 n)"
  using hex2_chars [of n] by auto

lemma randmac_octets:
  "randmac (Inr (b0, b1, b2)) = Inr m \<Longrightarrow>
     macOctets m = [0xC0, 0xFF, 0xEE, b0 AND NOT MCASTMAC OR LOCALMAC, b1, b2]"
proof -
  assume "randmac (Inr (b0, b1, b2)) = Inr m"
  then have m: "m = joinWith '':'' [''C0'', ''FF'', ''EE'',
      hex2 (unat (b0 AND NOT MCASTMAC OR LOCALMAC)), hex2 (unat b1), hex2 (unat b2)]"
    by (auto simp: randmac_def Let_def)
  have "splitOn CHR '':'' m = [''C0'', ''FF'', ''EE'',
      hex2 (unat (b0 AND NOT MCASTMAC OR LOCALMAC)), hex2 (unat b1), hex2 (unat b2)]"
    unfolding m by (rule splitOn_joinWith) (simp_all add: hex2_no_colon)
  moreover have "octet ''C0'' = 0xC0" "octet ''FF'' = 0xFF" "octet ''EE'' = 0xEE"
    by (simp_all add: octet_def hexVal_def Let_def)
  ultimately show ?thesis by (simp add: macOctets_def octet_hex2)
qed

text \<open>
  C34: every address \<open>Randmac\<close> returns is six octets, C0:FF:EE followed by three, the last
  two of which are the second and third random byte; it is a unicast address; the fourth octet has the local bit set and the multicast bit clear, as the
  code's masking intends, but the bits that say so for the address are those of its first
  octet, so the address is never a locally administered one, whatever the random bytes.
\<close>

theorem randmac_not_local:
  assumes "randmac (Inr (b0, b1, b2)) = Inr m"
  shows "length (macOctets m) = 6 \<and> take 3 (macOctets m) = [0xC0, 0xFF, 0xEE] \<and>
    drop 4 (macOctets m) = [b1, b2] \<and> \<not> macMulticast m \<and> \<not> macLocal m \<and>
    macOctets m ! 3 AND LOCALMAC = LOCALMAC \<and> macOctets m ! 3 AND MCASTMAC = 0"
proof -
  have "(b0 AND NOT MCASTMAC OR LOCALMAC) AND LOCALMAC = LOCALMAC"
    "(b0 AND NOT MCASTMAC OR LOCALMAC) AND MCASTMAC = 0"
    by (simp_all add: LOCALMAC_def MCASTMAC_def bit_eq_iff bit_simps) (auto simp: bit_numeral_rec bit_1_iff)
  moreover have "(0xC0 :: 8 word) AND LOCALMAC = 0" "(0xC0 :: 8 word) AND MCASTMAC = 0"
    by (simp_all add: LOCALMAC_def MCASTMAC_def)
  ultimately show ?thesis
    using randmac_octets [OF assms] by (simp add: macLocal_def macMulticast_def)
qed

theorem randmac_not_local_witness:
  "\<not> macLocal ''C0:FF:EE:fe:10:0a'' \<and> randmac (Inr (255, 16, 10)) = Inr ''C0:FF:EE:fe:10:0a''"
proof -
  have r: "randmac (Inr (255, 16, 10)) = Inr ''C0:FF:EE:fe:10:0a''"
    by (simp add: randmac_def Let_def MCASTMAC_def LOCALMAC_def hex2_def digitChar_def)
  show ?thesis using randmac_not_local [OF r] r by simp
qed

text \<open>
  \<open>fmtIec\<close> prints a size as a whole number of the largest unit that fits, always
  rounded down, followed by two zero decimals: the integer division discards the fraction
  before it is formatted.
\<close>

theorem fmtIec_rounds_down:
  assumes "u \<in> {(GIB, ''GiB''), (MIB, ''MiB''), (KIB, ''KiB'')}"
    and "int k * fst u \<le> bytes" and "bytes < (int k + 1) * fst u" and "0 < k"
    and "snd u = ''GiB'' \<or> k < 1024"
  shows "fmtIec bytes = showNat k @ ''.00'' @ snd u"
proof -
  have pos: "0 < fst u" using assms(1) by (auto simp: GIB_def MIB_def KIB_def)
  have "bytes div fst u = int k"
    using assms(2,3) pos by (intro int_div_pos_eq [of _ _ _ "bytes - int k * fst u"]) (auto simp: algebra_simps)
  moreover have "0 \<le> bytes" using assms(2,4) pos by (smt (verit) mult_nonneg_nonneg of_nat_0_le_iff)
  ultimately have "goDiv bytes (fst u) = int k" using pos by (simp add: goDiv_nonneg)
  then have whole: "fmtWhole (goDiv bytes (fst u)) = showNat k @ ''.00''"
    by (simp add: fmtWhole_def showInt_def)
  have k: "1 \<le> int k" using assms(4) by simp
  have "1 * fst u \<le> int k * fst u" using k pos by (intro mult_right_mono) simp_all
  then have low: "fst u \<le> bytes" using assms(2) by simp
  have high: "bytes < 1024 * fst u" if "snd u \<noteq> ''GiB''"
  proof -
    have "(int k + 1) * fst u \<le> 1024 * fst u" using assms(5) that pos by (intro mult_right_mono) auto
    with assms(3) show ?thesis by simp
  qed
  from assms(1) consider "u = (GIB, ''GiB'')" | "u = (MIB, ''MiB'')" | "u = (KIB, ''KiB'')" by blast
  then show ?thesis
  proof cases
    case 1
    with low whole show ?thesis by (simp add: fmtIec_def)
  next
    case 2
    with high have "bytes < GIB" by (simp add: GIB_def MIB_def)
    with 2 low whole show ?thesis by (simp add: fmtIec_def)
  next
    case 3
    with high have "bytes < MIB" "bytes < GIB" by (simp_all add: GIB_def MIB_def KIB_def)
    with 3 low whole show ?thesis by (simp add: fmtIec_def)
  qed
qed

theorem fmtIec_rounds_down_witness: "fmtIec (GIB + 512 * MIB) = ''1.00GiB''"
proof -
  have "fmtIec (GIB + 512 * MIB) = showNat 1 @ ''.00'' @ snd (GIB, ''GiB'')"
    by (rule fmtIec_rounds_down) (simp_all add: GIB_def MIB_def)
  then show ?thesis by (simp add: showNat.simps digitChar_def)
qed

end
