(* ===== verification/Unit_Config.thy ===== *)
theory Unit_Config
  imports Vm
begin

text \<open>
  \<open>src/pkg/unit/unit.go\<close>: a unit (a group of vms with a kind, helmfiles and the units it
  comes after), the user's form of it, the conversion and the debug printing.
\<close>

section \<open>Units\<close>

record UserUnit =
  uu_After :: "string list"
  uu_Config :: "UserConfig list"
  uu_Kind :: string
  uu_Name :: string
  uu_Online :: bool
  uu_Helmfiles :: "string list"

record Unit =
  u_After :: "string list"
  u_Config :: "Config list"
  u_Kind :: string
  u_Name :: string
  u_Online :: bool
  u_Helmfiles :: "string list"

definition formatUnit :: "Unit \<Rightarrow> string" where
  "formatUnit u =
     (let out = ''unit '' @ u_Name u @ '': '';
          out = (if u_Kind u \<noteq> '''' then out @ '' kind: '' @ u_Kind u else out);
          out = (if 0 < length (u_After u) then out @ '' after: '' @ showStrings (u_After u) else out)
      in out @ '' '' @ showStrings (map formatConfig (u_Config u)))"

text \<open>The loop over the configurations: those converted so far, or the first error.\<close>

fun toConfigs :: "(string \<Rightarrow> goerr + int) \<Rightarrow> UserConfig list \<Rightarrow> Config list \<Rightarrow> goerr + Config list" where
  "toConfigs ram [] configs = Inr configs"
| "toConfigs ram (uc # ucs) configs =
     (case toConfig ram uc of
        (c, Some err) \<Rightarrow> Inl err
      | (c, None) \<Rightarrow> toConfigs ram ucs (configs @ [c]))"

definition toUnit :: "(string \<Rightarrow> goerr + int) \<Rightarrow> UserUnit \<Rightarrow> Unit \<times> goerr option" where
  "toUnit ram uu =
     (let u = \<lparr>u_After = uu_After uu, u_Config = [], u_Kind = uu_Kind uu, u_Name = uu_Name uu,
               u_Online = uu_Online uu, u_Helmfiles = uu_Helmfiles uu\<rparr> in
      (case toConfigs ram (uu_Config uu) [] of
         Inl err \<Rightarrow> (u, Some err)
       | Inr configs \<Rightarrow> (u\<lparr>u_Config := configs\<rparr>, None)))"

section \<open>Facts\<close>

lemma toConfigs_Inr:
  "toConfigs ram ucs cs = Inr ds \<longleftrightarrow>
     (\<forall>uc\<in>set ucs. snd (toConfig ram uc) = None) \<and> ds = cs @ map (fst \<circ> toConfig ram) ucs"
proof (induction ucs arbitrary: cs)
  case (Cons uc ucs)
  then show ?case by (cases "toConfig ram uc"; cases "snd (toConfig ram uc)") auto
qed auto

lemma toConfigs_Inl:
  "toConfigs ram ucs cs = Inl e \<longleftrightarrow>
     (\<exists>pre uc post. ucs = pre @ uc # post \<and> (\<forall>x\<in>set pre. snd (toConfig ram x) = None) \<and>
        snd (toConfig ram uc) = Some e)"
proof (induction ucs arbitrary: cs)
  case (Cons uc ucs)
  show ?case
  proof (cases "snd (toConfig ram uc)")
    case None
    then have "toConfigs ram (uc # ucs) cs = toConfigs ram ucs (cs @ [fst (toConfig ram uc)])"
      by (cases "toConfig ram uc") auto
    with None Cons.IH show ?thesis by (auto simp: Cons_eq_append_conv) (metis list.set_intros(2) set_ConsD)+
  next
    case (Some err)
    then have "toConfigs ram (uc # ucs) cs = Inl err" by (cases "toConfig ram uc") auto
    moreover have "\<exists>pre x post. uc # ucs = pre @ x # post \<and>
        (\<forall>y\<in>set pre. snd (toConfig ram y) = None) \<and> snd (toConfig ram x) = Some err"
      using Some by (intro exI [of _ "[]"]) auto
    ultimately show ?thesis using Some by (auto simp: Cons_eq_append_conv)
  qed
qed auto

text \<open>
  The conversion of a unit succeeds exactly when both sizes of every vm configuration
  parse; then every configuration is converted in order with its name, count, cpu count and
  image unchanged, and the unit's other fields are the user's.
\<close>

theorem toUnit_success_iff:
  "snd (toUnit ram uu) = None \<longleftrightarrow>
     (\<exists>ds. list_all2 (converts ram) (uu_Config uu) ds \<and>
       fst (toUnit ram uu) = \<lparr>u_After = uu_After uu, u_Config = ds, u_Kind = uu_Kind uu,
          u_Name = uu_Name uu, u_Online = uu_Online uu, u_Helmfiles = uu_Helmfiles uu\<rparr>)"
  (is "?L \<longleftrightarrow> ?R")
proof
  assume ?L
  then obtain ds where ds: "toConfigs ram (uu_Config uu) [] = Inr ds"
    by (auto simp: toUnit_def Let_def split: sum.splits)
  then have "list_all2 (converts ram) (uu_Config uu) ds"
    by (auto simp: toConfigs_Inr list_all2_conv_all_nth intro: toConfig_None)
  with ds show ?R by (auto simp: toUnit_def Let_def)
next
  assume ?R
  then obtain ds where "list_all2 (converts ram) (uu_Config uu) ds" by blast
  then have "\<forall>uc\<in>set (uu_Config uu). snd (toConfig ram uc) = None"
    unfolding toConfig_None_iff by (auto simp: list_all2_conv_all_nth in_set_conv_nth) metis
  then have "toConfigs ram (uu_Config uu) [] = Inr (map (fst \<circ> toConfig ram) (uu_Config uu))"
    by (simp add: toConfigs_Inr)
  then show ?L by (simp add: toUnit_def Let_def)
qed

text \<open>
  When some configuration does not convert, the error returned is the one of the first
  such configuration, and no configuration at all is kept in the unit.
\<close>

theorem toUnit_first_error:
  "snd (toUnit ram uu) = Some e \<longleftrightarrow>
     (\<exists>pre uc post. uu_Config uu = pre @ uc # post \<and> (\<forall>x\<in>set pre. \<exists>c. converts ram x c) \<and>
        snd (toConfig ram uc) = Some e \<and> u_Config (fst (toUnit ram uu)) = [])"
proof -
  have "snd (toUnit ram uu) = Some e \<longleftrightarrow> toConfigs ram (uu_Config uu) [] = Inl e"
    by (simp add: toUnit_def Let_def split: sum.splits)
  moreover have "u_Config (fst (toUnit ram uu)) = []" if "toConfigs ram (uu_Config uu) [] = Inl e"
    using that by (simp add: toUnit_def Let_def)
  ultimately show ?thesis by (auto simp: toConfigs_Inl toConfig_None_iff)
qed

definition sampleRam :: "string \<Rightarrow> goerr + int" where
  "sampleRam d = (if d = ''bad'' then Inl (Fail d) else Inr (int (length d)))"

definition sampleUnit :: UserUnit where
  "sampleUnit =
     (let uc = (\<lambda>d. \<lparr>uc_Count = 1, uc_Cpu = 2, uc_Disksize = ''1GiB'', uc_Memory = d, uc_Name = d, uc_Qcow2 = ''q''\<rparr>)
      in \<lparr>uu_After = [], uu_Config = [uc ''1GiB'', uc ''bad'', uc ''2GiB''], uu_Kind = ''k'', uu_Name = ''n'',
          uu_Online = True, uu_Helmfiles = []\<rparr>)"

theorem toUnit_first_error_witness:
  "snd (toUnit sampleRam sampleUnit) = Some (Fail ''bad'') \<and> u_Config (fst (toUnit sampleRam sampleUnit)) = []"
proof -
  have e: "snd (toUnit sampleRam sampleUnit) = Some (Fail ''bad'')" by code_simp
  with toUnit_first_error [THEN iffD1, OF e] show ?thesis by blast
qed

end
