(* ===== verification/Network.thy ===== *)
theory Network
  imports Go_Fmt "HOL-Library.Word"
begin

text \<open>
  \<open>src/pkg/network/network.go\<close>: the user's network description, the internal one and the
  conversion, which gives addresses from the end of the network's range to the hosts that ask
  for one with \<open>ip: auto\<close>.

  The cidr library is the parameter \<open>cidr_lib\<close>: \<open>cidr.Parse\<close>, \<open>CIDR.IPRange\<close> and
  \<open>cidr.IPDecr\<close>. A Go \<open>net.IP\<close> is a byte slice, so \<open>IPDecr\<close> changes the bytes that
  every variable holding the slice sees. The loop of \<open>ToNetwork\<close> depends on that, so it is
  modelled over an explicit store from addresses to bytes, with the variables holding
  addresses.
\<close>

section \<open>Networks\<close>

record StaticHost =
  sh_Name :: string
  sh_Ip :: string

record UserNetwork =
  un_Method :: string
  un_Cidr :: string
  un_Domain :: string
  un_Hosts :: "StaticHost list"
  un_Libvirt :: string

record Host =
  h_Fqdn :: string
  h_Name :: string
  h_Ipv4 :: string

text \<open>The zero value of the library's \<open>CIDR\<close> struct is \<open>None\<close>.\<close>

record 'c Network =
  n_Method :: string
  n_Cidr :: "'c option"
  n_Domain :: string
  n_Hosts :: "Host list"
  n_Libvirt :: string

type_synonym ip = "8 word list"

record 'c cidr_lib =
  cl_Parse :: "string \<Rightarrow> goerr + 'c"
  cl_IPRange :: "'c \<Rightarrow> ip \<times> ip"
  cl_IPDecr :: "ip \<Rightarrow> ip"

section \<open>Printing an address: net.IP.String\<close>

definition dotted :: "ip \<Rightarrow> string" where
  "dotted bs = joinWith ''.'' (map (\<lambda>b. showNat (unat b)) bs)"

fun showHex :: "nat \<Rightarrow> string" where
  "showHex n = (if n < 16 then [digitChar n] else showHex (n div 16) @ [digitChar (n mod 16)])"

declare showHex.simps [simp del]

fun groups16 :: "ip \<Rightarrow> nat list" where
  "groups16 (a # b # rest) = (256 * unat a + unat b) # groups16 rest"
| "groups16 _ = []"

definition zeroRun :: "nat list \<Rightarrow> nat" where
  "zeroRun gs = length (takeWhile (\<lambda>g. g = 0) gs)"

text \<open>The first longest run of at least two zero groups, as start and length.\<close>

fun longestRun :: "nat list \<Rightarrow> nat \<Rightarrow> nat \<times> nat \<Rightarrow> nat \<times> nat" where
  "longestRun [] i best = best"
| "longestRun (g # gs) i best =
     longestRun gs (Suc i)
       (if 2 \<le> zeroRun (g # gs) \<and> snd best < zeroRun (g # gs) then (i, zeroRun (g # gs)) else best)"

definition ipv6String :: "ip \<Rightarrow> string" where
  "ipv6String bs =
     (let gs = groups16 bs; (z, n) = longestRun gs 0 (0, 0)
      in if n = 0 then joinWith '':'' (map showHex gs)
         else joinWith '':'' (map showHex (take z gs)) @ ''::'' @
              joinWith '':'' (map showHex (drop (z + n) gs)))"

definition ipString :: "ip \<Rightarrow> string" where
  "ipString bs =
     (if bs = [] then ''<nil>''
      else if length bs = 4 then dotted bs
      else if length bs = 16 then
        (if take 12 bs = replicate 10 0 @ [255, 255] then dotted (drop 12 bs) else ipv6String bs)
      else ''?'' @ concat (map (\<lambda>b. hex2 (unat b)) bs))"

section \<open>ToNetwork\<close>

type_synonym ip_store = "nat \<Rightarrow> ip"

text \<open>
  The loop over the hosts: the store, the slice variable \<open>autoIp\<close> (an address) and the
  hosts so far. \<open>thisIp := autoIp\<close> copies the address, not the bytes.
\<close>

fun assignHosts ::
  "(ip \<Rightarrow> ip) \<Rightarrow> string \<Rightarrow> StaticHost list \<Rightarrow> ip_store \<Rightarrow> nat \<Rightarrow> Host list \<Rightarrow> Host list" where
  "assignHosts decr domain [] st autoIp hosts = hosts"
| "assignHosts decr domain (v # vs) st autoIp hosts =
     (let fqdn = sh_Name v @ ''.'' @ domain; name = sh_Name v in
      if sh_Ip v = ''auto'' then
        (let thisIp = autoIp;
             st = st(autoIp := decr (st autoIp));
             autoIp = thisIp
         in assignHosts decr domain vs st autoIp
              (hosts @ [\<lparr>h_Fqdn = fqdn, h_Name = name, h_Ipv4 = ipString (st thisIp)\<rparr>]))
      else
        assignHosts decr domain vs st autoIp
          (hosts @ [\<lparr>h_Fqdn = fqdn, h_Name = name, h_Ipv4 = sh_Ip v\<rparr>]))"

definition zeroNetwork :: "'c Network" where
  "zeroNetwork = \<lparr>n_Method = '''', n_Cidr = None, n_Domain = '''', n_Hosts = [], n_Libvirt = ''''\<rparr>"

definition toNetwork :: "'c cidr_lib \<Rightarrow> UserNetwork \<Rightarrow> 'c Network \<times> goerr option" where
  "toNetwork lib un =
     (case cl_Parse lib (un_Cidr un) of
        Inl err \<Rightarrow> (zeroNetwork, Some err)
      | Inr userCidr \<Rightarrow>
          (let n = zeroNetwork\<lparr>n_Cidr := Some userCidr, n_Domain := un_Domain un\<rparr>;
               endIp = 0;
               st = (\<lambda>_. [])(endIp := snd (cl_IPRange lib userCidr));
               autoIp = endIp;
               hosts = assignHosts (cl_IPDecr lib) (un_Domain un) (un_Hosts un) st autoIp []
           in (n\<lparr>n_Hosts := hosts\<rparr>, None)))"

section \<open>Specification\<close>

text \<open>How many of the first \<open>i\<close> hosts ask for an automatic address.\<close>

definition autosBefore :: "StaticHost list \<Rightarrow> nat \<Rightarrow> nat" where
  "autosBefore vs i = length (filter (\<lambda>v. sh_Ip v = ''auto'') (take i vs))"

definition hostSpec :: "(ip \<Rightarrow> ip) \<Rightarrow> ip \<Rightarrow> string \<Rightarrow> StaticHost \<Rightarrow> nat \<Rightarrow> Host" where
  "hostSpec decr end domain v k =
     \<lparr>h_Fqdn = sh_Name v @ ''.'' @ domain, h_Name = sh_Name v,
      h_Ipv4 = (if sh_Ip v = ''auto'' then ipString ((decr ^^ Suc k) end) else sh_Ip v)\<rparr>"

text \<open>The big-endian value of an address and what \<open>cidr.IPDecr\<close> documents.\<close>

definition ipVal :: "ip \<Rightarrow> nat" where
  "ipVal bs = foldl (\<lambda>n b. 256 * n + unat b) 0 bs"

definition decrLaw :: "(ip \<Rightarrow> ip) \<Rightarrow> bool" where
  "decrLaw decr \<longleftrightarrow>
     (\<forall>bs. length (decr bs) = length bs \<and> (0 < ipVal bs \<longrightarrow> ipVal (decr bs) = ipVal bs - 1))"

text \<open>A concrete decrement with borrow, the instance used in the witnesses.\<close>

fun borrowDecr :: "ip \<Rightarrow> ip \<times> bool" where
  "borrowDecr [] = ([], True)"
| "borrowDecr (b # bs) =
     (let (bs', borrow) = borrowDecr bs
      in if borrow then ((b - 1) # bs', b = 0) else (b # bs', False))"

section \<open>Facts\<close>

lemma assignHosts_spec:
  "st autoIp = (decr ^^ k) end \<Longrightarrow>
     assignHosts decr domain vs st autoIp hosts =
       hosts @ map (\<lambda>i. hostSpec decr end domain (vs ! i) (k + autosBefore vs i)) [0..<length vs]"
proof (induction vs arbitrary: st k hosts)
  case Nil
  then show ?case by simp
next
  case (Cons v vs)
  have shift: "map (\<lambda>i. hostSpec decr end domain ((v # vs) ! i) (k + autosBefore (v # vs) i)) [0..<length (v # vs)]
      = hostSpec decr end domain v k #
        map (\<lambda>i. hostSpec decr end domain (vs ! i)
              ((if sh_Ip v = ''auto'' then Suc k else k) + autosBefore vs i)) [0..<length vs]"
    by (simp add: upt_conv_Cons autosBefore_def map_Suc_upt [symmetric] del: upt_Suc)
  show ?case
  proof (cases "sh_Ip v = ''auto''")
    case True
    let ?st = "st(autoIp := decr (st autoIp))"
    have "assignHosts decr domain (v # vs) st autoIp hosts =
        assignHosts decr domain vs ?st autoIp (hosts @ [hostSpec decr end domain v k])"
      using True Cons.prems by (simp add: hostSpec_def Let_def)
    also have "\<dots> = (hosts @ [hostSpec decr end domain v k]) @
        map (\<lambda>i. hostSpec decr end domain (vs ! i) (Suc k + autosBefore vs i)) [0..<length vs]"
      by (rule Cons.IH) (simp add: Cons.prems)
    finally show ?thesis unfolding shift using True by simp
  next
    case False
    have "assignHosts decr domain (v # vs) st autoIp hosts =
        assignHosts decr domain vs st autoIp (hosts @ [hostSpec decr end domain v k])"
      using False by (simp add: hostSpec_def Let_def)
    also have "\<dots> = (hosts @ [hostSpec decr end domain v k]) @
        map (\<lambda>i. hostSpec decr end domain (vs ! i) (k + autosBefore vs i)) [0..<length vs]"
      by (rule Cons.IH) (simp add: Cons.prems)
    finally show ?thesis unfolding shift using False by simp
  qed
qed

lemma toNetwork_Inr:
  "cl_Parse lib (un_Cidr un) = Inr c \<Longrightarrow>
     toNetwork lib un =
       (\<lparr>n_Method = '''', n_Cidr = Some c, n_Domain = un_Domain un,
         n_Hosts = map (\<lambda>i. hostSpec (cl_IPDecr lib) (snd (cl_IPRange lib c)) (un_Domain un)
                     (un_Hosts un ! i) (autosBefore (un_Hosts un) i)) [0..<length (un_Hosts un)],
         n_Libvirt = ''''\<rparr>, None)"
  by (simp add: toNetwork_def Let_def zeroNetwork_def assignHosts_spec [where k = 0])

lemma ipVal_snoc: "ipVal (bs @ [b]) = 256 * ipVal bs + unat b"
  by (simp add: ipVal_def)

lemma unat_byte: "unat (b :: 8 word) < 256"
  using unsigned_less [where ?'a = nat, of b] by simp

lemma ipVal_inj: "length bs = length cs \<Longrightarrow> ipVal bs = ipVal cs \<Longrightarrow> bs = cs"
proof (induction bs arbitrary: cs rule: rev_induct)
  case Nil
  then show ?case by simp
next
  case (snoc b bs)
  then obtain cs' c where cs: "cs = cs' @ [c]" by (cases cs rule: rev_cases) auto
  with snoc.prems have eq: "256 * ipVal bs + unat b = 256 * ipVal cs' + unat c"
    by (simp add: ipVal_snoc)
  then have "(256 * ipVal bs + unat b) mod 256 = (256 * ipVal cs' + unat c) mod 256" by (rule arg_cong)
  then have "unat b = unat c" using unat_byte [of b] unat_byte [of c] by simp
  moreover from this eq have "ipVal bs = ipVal cs'" by simp
  ultimately show ?case using snoc cs by (simp add: word_unat_eq_iff)
qed

lemma dotted_inj: "length bs = 4 \<Longrightarrow> length cs = 4 \<Longrightarrow> dotted bs = dotted cs \<Longrightarrow> bs = cs"
proof -
  assume len: "length bs = 4" "length cs = 4" and eq: "dotted bs = dotted cs"
  have nodot: "CHR ''.'' \<notin> set (showNat n)" for n by (rule showNat_no_sep) simp
  have "map (\<lambda>b. showNat (unat b)) bs = map (\<lambda>b. showNat (unat b)) cs"
    by (rule joinWith_inj [where c = "CHR ''.''"]) (use len eq nodot in \<open>auto simp: dotted_def\<close>)
  moreover have "inj (\<lambda>b :: 8 word. showNat (unat b))" by (rule injI) (simp add: word_unat_eq_iff)
  ultimately show ?thesis by (simp add: inj_map_eq_map)
qed

lemma decr_iterate:
  "decrLaw decr \<Longrightarrow> k \<le> ipVal e \<Longrightarrow>
     length ((decr ^^ k) e) = length e \<and> ipVal ((decr ^^ k) e) = ipVal e - k"
  by (induction k) (auto simp: decrLaw_def)

lemma ipString_decr_inj:
  assumes "decrLaw decr" and "length e = 4" and "j \<le> ipVal e" and "k \<le> ipVal e"
    and "ipString ((decr ^^ j) e) = ipString ((decr ^^ k) e)"
  shows "j = k"
proof -
  note j = decr_iterate [OF assms(1,3)] and k = decr_iterate [OF assms(1,4)]
  from assms(2,5) j k have "(decr ^^ j) e = (decr ^^ k) e"
    by (intro dotted_inj) (auto simp: ipString_def split: if_splits)
  with j k have "ipVal e - j = ipVal e - k" by metis
  with assms(3,4) show ?thesis by simp
qed

lemma autosBefore_mono: "i \<le> j \<Longrightarrow> autosBefore vs i \<le> autosBefore vs j"
proof -
  assume "i \<le> j"
  then have "take j vs = take i vs @ take (j - i) (drop i vs)"
    by (metis le_add_diff_inverse take_add)
  then show ?thesis by (simp add: autosBefore_def)
qed

lemma autosBefore_step:
  "i < length vs \<Longrightarrow> sh_Ip (vs ! i) = ''auto'' \<Longrightarrow> autosBefore vs (Suc i) = Suc (autosBefore vs i)"
  by (simp add: autosBefore_def take_Suc_conv_app_nth)

lemma ipVal_Cons: "ipVal (b # bs) = unat b * 256 ^ length bs + ipVal bs"
proof (induction bs rule: rev_induct)
  case Nil
  then show ?case by (simp add: ipVal_def)
next
  case (snoc c bs)
  then show ?case using ipVal_snoc [of "b # bs" c] by (simp add: ipVal_snoc algebra_simps)
qed

lemma ipVal_less: "ipVal bs < 256 ^ length bs"
proof (induction bs rule: rev_induct)
  case Nil
  then show ?case by (simp add: ipVal_def)
next
  case (snoc b bs)
  then show ?case using unat_byte [of b] by (simp add: ipVal_snoc)
qed

lemma borrowDecr_val:
  "length (fst (borrowDecr bs)) = length bs \<and>
   (if snd (borrowDecr bs) then ipVal bs = 0 \<and> ipVal (fst (borrowDecr bs)) = 256 ^ length bs - 1
    else ipVal (fst (borrowDecr bs)) + 1 = ipVal bs)"
proof (induction bs)
  case Nil
  then show ?case by (simp add: ipVal_def)
next
  case (Cons b bs)
  obtain cs bo where r: "borrowDecr bs = (cs, bo)" by fastforce
  have dec: "b \<noteq> 0 \<Longrightarrow> unat b = Suc (unat (b - 1))" by (simp add: unat_minus_one word_unat_eq_iff)
  have m1: "unat (- 1 :: 8 word) = 255"
    by (simp add: unsigned_minus_1_eq_mask mask_eq_exp_minus_1)
  have "0 < (256::nat) ^ length bs" by simp
  with Cons r dec show ?case
    by (cases "b = 0") (auto simp: ipVal_Cons m1 split: if_splits)
qed

lemma decrLaw_borrow: "decrLaw (fst \<circ> borrowDecr)"
  unfolding decrLaw_def
proof
  fix bs
  show "length ((fst \<circ> borrowDecr) bs) = length bs \<and>
      (0 < ipVal bs \<longrightarrow> ipVal ((fst \<circ> borrowDecr) bs) = ipVal bs - 1)"
    using borrowDecr_val [of bs] by (auto split: if_splits)
qed

section \<open>Properties\<close>

text \<open>
  C32: the conversion fails exactly when the cidr does not parse. Otherwise every host is kept
  in order under its name and fully qualified name; a static host keeps the address the user
  wrote, and the host that is the (k+1)-th to ask for an automatic address gets the end of the
  range decremented k+1 times: the decrement runs before the address is printed, because the
  loop's variables share one slice. The user's \<open>Method\<close> and \<open>Libvirt\<close> settings are not
  carried over.
\<close>

theorem toNetwork_functional:
  "(case cl_Parse lib (un_Cidr un) of
      Inl err \<Rightarrow> toNetwork lib un = (zeroNetwork, Some err)
    | Inr c \<Rightarrow> snd (toNetwork lib un) = None \<and>
        n_Cidr (fst (toNetwork lib un)) = Some c \<and>
        n_Domain (fst (toNetwork lib un)) = un_Domain un \<and>
        n_Method (fst (toNetwork lib un)) = '''' \<and> n_Libvirt (fst (toNetwork lib un)) = '''' \<and>
        n_Hosts (fst (toNetwork lib un)) =
          map (\<lambda>i. hostSpec (cl_IPDecr lib) (snd (cl_IPRange lib c)) (un_Domain un)
                  (un_Hosts un ! i) (autosBefore (un_Hosts un) i)) [0..<length (un_Hosts un)])"
proof (cases "cl_Parse lib (un_Cidr un)")
  case (Inl err)
  then show ?thesis by (simp add: toNetwork_def)
next
  case (Inr c)
  then show ?thesis by (simp add: toNetwork_Inr)
qed

text \<open>
  C33: with a decrement that behaves as documented and an IPv4 range whose end is large enough
  for the number of automatic hosts, no two automatic hosts get the same address, and none of
  them gets the end of the range itself (the broadcast address).
\<close>

theorem toNetwork_auto_distinct:
  assumes "cl_Parse lib (un_Cidr un) = Inr c" and "snd (cl_IPRange lib c) = e" and "length e = 4"
    and "decrLaw (cl_IPDecr lib)" and "length (un_Hosts un) \<le> ipVal e"
    and "i < j" and "j < length (un_Hosts un)"
    and "sh_Ip (un_Hosts un ! i) = ''auto''" and "sh_Ip (un_Hosts un ! j) = ''auto''"
  shows "h_Ipv4 (n_Hosts (fst (toNetwork lib un)) ! i) \<noteq> h_Ipv4 (n_Hosts (fst (toNetwork lib un)) ! j) \<and>
    h_Ipv4 (n_Hosts (fst (toNetwork lib un)) ! i) \<noteq> ipString e \<and>
    h_Ipv4 (n_Hosts (fst (toNetwork lib un)) ! j) \<noteq> ipString e"
proof -
  let ?d = "cl_IPDecr lib" and ?a = "autosBefore (un_Hosts un)"
  have ip: "h_Ipv4 (n_Hosts (fst (toNetwork lib un)) ! k) = ipString ((?d ^^ Suc (?a k)) e)"
    if "k < length (un_Hosts un)" "sh_Ip (un_Hosts un ! k) = ''auto''" for k
    using that assms(1,2) by (simp add: toNetwork_Inr hostSpec_def)
  have bound: "Suc (?a k) \<le> ipVal e"
    if "k < length (un_Hosts un)" "sh_Ip (un_Hosts un ! k) = ''auto''" for k
  proof -
    have "Suc (?a k) = ?a (Suc k)" using that by (simp add: autosBefore_step)
    also have "\<dots> \<le> length (take (Suc k) (un_Hosts un))" unfolding autosBefore_def by (rule length_filter_le)
    also have "\<dots> \<le> ipVal e" using assms(5) by simp
    finally show ?thesis .
  qed
  have "?a i < ?a j"
    using autosBefore_step [of i "un_Hosts un"] autosBefore_mono [of "Suc i" j "un_Hosts un"] assms(6-8)
    by simp
  then have "ipString ((?d ^^ Suc (?a i)) e) \<noteq> ipString ((?d ^^ Suc (?a j)) e)"
    using ipString_decr_inj [OF assms(4,3)] bound assms(6-9)
    by (metis less_not_refl less_trans nat.inject)
  moreover have "ipString ((?d ^^ Suc k) e) \<noteq> ipString e" if "Suc k \<le> ipVal e" for k
    using ipString_decr_inj [OF assms(4,3) that, of 0] by auto
  ultimately show ?thesis
    using ip bound assms(6-9) by simp
qed

theorem toNetwork_auto_distinct_witness:
  "let lib = \<lparr>cl_Parse = (\<lambda>_. Inr ()), cl_IPRange = (\<lambda>_. ([10, 200, 200, 0], [10, 200, 200, 255])),
              cl_IPDecr = fst \<circ> borrowDecr\<rparr>;
       un = \<lparr>un_Method = '''', un_Cidr = ''10.200.200.1/24'', un_Domain = ''dev.home.arpa'',
             un_Hosts = [\<lparr>sh_Name = ''vip'', sh_Ip = ''auto''\<rparr>, \<lparr>sh_Name = ''demo'', sh_Ip = ''auto''\<rparr>],
             un_Libvirt = ''nat''\<rparr>;
       hs = n_Hosts (fst (toNetwork lib un))
   in map h_Ipv4 hs = [''10.200.200.254'', ''10.200.200.253''] \<and> h_Ipv4 (hs ! 0) \<noteq> h_Ipv4 (hs ! 1)"
proof -
  define lib :: "unit cidr_lib" where
    "lib = \<lparr>cl_Parse = (\<lambda>_. Inr ()), cl_IPRange = (\<lambda>_. ([10, 200, 200, 0], [10, 200, 200, 255])),
            cl_IPDecr = fst \<circ> borrowDecr\<rparr>"
  define un where
    "un = \<lparr>un_Method = '''', un_Cidr = ''10.200.200.1/24'', un_Domain = ''dev.home.arpa'',
           un_Hosts = [\<lparr>sh_Name = ''vip'', sh_Ip = ''auto''\<rparr>, \<lparr>sh_Name = ''demo'', sh_Ip = ''auto''\<rparr>],
           un_Libvirt = ''nat''\<rparr>"
  have "h_Ipv4 (n_Hosts (fst (toNetwork lib un)) ! 0) \<noteq> h_Ipv4 (n_Hosts (fst (toNetwork lib un)) ! 1)"
    using toNetwork_auto_distinct [of lib un "()" "[10, 200, 200, 255]" 0 1]
    by (simp add: lib_def un_def decrLaw_borrow ipVal_def)
  moreover have "map h_Ipv4 (n_Hosts (fst (toNetwork lib un))) = [''10.200.200.254'', ''10.200.200.253'']"
    by (simp add: lib_def un_def toNetwork_def ipString_def dotted_def showNat.simps digitChar_def)
  ultimately show ?thesis unfolding lib_def un_def Let_def by simp
qed

text \<open>
  Nothing keeps a static host from being given an address that an automatic host also
  gets: there is a network whose two hosts end up with the same address.
\<close>

theorem toNetwork_static_collision:
  "\<exists>un. snd (toNetwork \<lparr>cl_Parse = (\<lambda>_. Inr ()), cl_IPRange = (\<lambda>_. ([10, 200, 200, 0], [10, 200, 200, 255])),
              cl_IPDecr = fst \<circ> borrowDecr\<rparr> un) = None \<and>
     map h_Ipv4 (n_Hosts (fst (toNetwork \<lparr>cl_Parse = (\<lambda>_. Inr ()),
        cl_IPRange = (\<lambda>_. ([10, 200, 200, 0], [10, 200, 200, 255])),
        cl_IPDecr = fst \<circ> borrowDecr\<rparr> un))) = [''10.200.200.254'', ''10.200.200.254'']"
  by (rule exI [of _ "\<lparr>un_Method = '''', un_Cidr = ''10.200.200.1/24'', un_Domain = ''dev.home.arpa'',
        un_Hosts = [\<lparr>sh_Name = ''vip'', sh_Ip = ''auto''\<rparr>, \<lparr>sh_Name = ''nas'', sh_Ip = ''10.200.200.254''\<rparr>],
        un_Libvirt = ''nat''\<rparr>"])
    (simp add: toNetwork_def ipString_def dotted_def showNat.simps digitChar_def)

end
