(* ===== verification/Cache.thy ===== *)
theory Cache
  imports Os
begin

text \<open>
  \<open>src/pkg/cache/cache.go\<close>: the directories of one deployment and the registry of its
  artifacts. \<open>State\<close> holds the directory names; the \<open>artifacts\<close> map of the Go struct is a
  reference that every copy of the struct shares, so it is a field of the world. The locale
  \<open>artifact_store\<close> is the interface the other components use: registering a relative name
  returns its place, makes the directory above it and records it.
\<close>

section \<open>State and operations\<close>

record State =
  st_base :: string
  st_suuid :: string
  st_tmpdir :: string
  st_artifactdir :: string
  st_instancedir :: string
  st_cachedir :: string

definition formatState :: "State \<Rightarrow> string" where
  "formatState s =
     ''state: base='' @ st_base s @ '' tmp='' @ st_tmpdir s @ '' artifact='' @ st_artifactdir s @
     '' instance='' @ st_instancedir s @ '' cache='' @ st_cachedir s @ '' uuid='' @ st_suuid s"

definition registerArtifact :: "env \<Rightarrow> State \<Rightarrow> string \<Rightarrow> string io" where
  "registerArtifact env s dir =
     (let a = pathJoin [st_artifactdir s, dir]; d = pathDir a in
      bindG (osMkdirAll env d) (\<lambda>_.
      bindG (modifyW (\<lambda>w. w\<lparr>artifacts := (artifacts w)(dir \<mapsto> a)\<rparr>)) (\<lambda>_.
      returnG a)))"

text \<open>The directory names, from the base directory.\<close>

definition stateFor :: "env \<Rightarrow> string \<Rightarrow> string \<Rightarrow> State" where
  "stateFor env base suuid =
     \<lparr>st_base = base, st_suuid = suuid,
      st_tmpdir = pathJoin [base, ''tmp''],
      st_artifactdir = pathJoin [base, ''artifacts''],
      st_instancedir = pathJoin [base, ''instance''],
      st_cachedir = pathJoin [pathJoin [e_cacheHome env, ''shenanigans''], ''cache'']\<rparr>"

definition newState :: "env \<Rightarrow> string \<Rightarrow> string \<Rightarrow> State io" where
  "newState env dir suuid =
     bindG (modifyW (\<lambda>w. w\<lparr>artifacts := (\<lambda>_. None)\<rparr>)) (\<lambda>_.
     bindG (if suuid = '''' then answer (e_uuid env) EvUuid else returnG suuid) (\<lambda>suuid.
     let base = (if dir \<noteq> '''' then dir else pathJoin [e_cacheHome env, ''shenanigans'', suuid]);
         s = stateFor env base suuid;
         dirs = [st_base s, st_tmpdir s, st_artifactdir s, st_cachedir s, st_instancedir s, st_tmpdir s]
     in bindG (forG dirs (\<lambda>d _. osMkdirAll env d) ()) (\<lambda>_. returnG s)))"

section \<open>The interface to the other components\<close>

locale artifact_store =
  fixes reg :: "string \<Rightarrow> string io"
    and place :: "string \<Rightarrow> string"
  assumes reg_Ok: "reg dir s = (Ok a, t) \<Longrightarrow>
      a = place dir \<and> artifacts t = (artifacts s)(dir \<mapsto> a) \<and> isDir (wfs t) (pathDir a)"
    and reg_fails: "reg dir s = (r, t) \<Longrightarrow> (\<forall>a. r \<noteq> Ok a) \<Longrightarrow> artifacts t = artifacts s"
    and reg_nodes: "within sameNodes (reg dir)"
    and reg_files: "reg dir s = (r, t) \<Longrightarrow> names (wfs s) p = Some (File i) \<Longrightarrow> names (wfs t) p = Some (File i)"
begin

lemma wp_reg:
  assumes "\<And>t. nodes t = nodes s \<Longrightarrow> artifacts t dir = Some (place dir) \<Longrightarrow>
      isDir (wfs t) (pathDir (place dir)) \<Longrightarrow> Q (place dir) t"
    and "\<And>t. nodes t = nodes s \<Longrightarrow> E t"
  shows "wp (reg dir) Q E s"
proof -
  obtain r t where rt: "reg dir s = (r, t)" by fastforce
  then have "nodes t = nodes s"
    using withinD [OF reg_nodes rt] by (simp add: sameNodes_def)
  then show ?thesis
    using rt assms reg_Ok [of dir s] by (cases r) (auto simp: wp_def)
qed

text \<open>The same name always gets the same place, whatever happened in between.\<close>

lemma reg_stable: "reg dir s = (Ok a, t) \<Longrightarrow> reg dir s' = (Ok b, t') \<Longrightarrow> a = b"
  using reg_Ok by metis

text \<open>Registering a list of names records every one of them.\<close>

lemma reg_all:
  "forG dirs (\<lambda>d _. bindG (reg d) (\<lambda>_. returnG ())) () s = (Ok (), t) \<Longrightarrow>
     d \<in> set dirs \<Longrightarrow> artifacts t d = Some (place d)"
proof -
  have keep: "forG ds (\<lambda>d _. bindG (reg d) (\<lambda>_. returnG ())) () u = (Ok (), v) \<Longrightarrow>
      artifacts u d = Some (place d) \<Longrightarrow> artifacts v d = Some (place d)" for ds d u v
    by (induction ds arbitrary: u)
      (auto simp: returnG_def elim!: bindG_OkE dest!: reg_Ok)
  show "forG dirs (\<lambda>d _. bindG (reg d) (\<lambda>_. returnG ())) () s = (Ok (), t) \<Longrightarrow>
     d \<in> set dirs \<Longrightarrow> artifacts t d = Some (place d)"
    by (induction dirs arbitrary: s)
      (auto simp: returnG_def elim!: bindG_OkE dest!: reg_Ok intro: keep)
qed

end

lemma registerArtifact_Ok:
  "registerArtifact env st dir s = (Ok a, t) \<Longrightarrow>
     a = pathJoin [st_artifactdir st, dir] \<and> artifacts t = (artifacts s)(dir \<mapsto> a) \<and>
     isDir (wfs t) (pathDir a)"
proof -
  assume "registerArtifact env st dir s = (Ok a, t)"
  then obtain u where m: "osMkdirAll env (pathDir (pathJoin [st_artifactdir st, dir])) s = (Ok (), u)"
    and t: "t = u\<lparr>artifacts := (artifacts u)(dir \<mapsto> a)\<rparr>" and a: "a = pathJoin [st_artifactdir st, dir]"
    by (auto simp: registerArtifact_def Let_def go_defs elim!: bindG_OkE)
  from withinD [OF os_deploy(1) m] have "artifacts u = artifacts s" by (simp add: sameDeploy_def)
  with osMkdirAll_Ok [OF m] t a show ?thesis by simp
qed

interpretation astore: artifact_store "registerArtifact env st" "\<lambda>dir. pathJoin [st_artifactdir st, dir]"
  for env st
proof (unfold_locales, goal_cases)
  case (1 dir s a t)
  then show ?case by (rule registerArtifact_Ok)
next
  case (2 dir s r t)
  let ?d = "pathDir (pathJoin [st_artifactdir st, dir])"
  obtain r' u where m: "osMkdirAll env ?d s = (r', u)" by fastforce
  with withinD [OF os_deploy(1) m] have "artifacts u = artifacts s" by (simp add: sameDeploy_def)
  with 2 m show ?case
    by (cases r') (auto simp: registerArtifact_def Let_def bindG_def go_defs)
next
  case (3 dir)
  then show ?case unfolding registerArtifact_def Let_def
    by (intro nodes_frame) (simp_all add: within_def modifyW_def sameNodes_def)
next
  case (4 dir s r t p i)
  let ?d = "pathDir (pathJoin [st_artifactdir st, dir])"
  obtain r' u where m: "osMkdirAll env ?d s = (r', u)" by fastforce
  with osMkdirAll_keeps [OF m] 4 have "names (wfs u) p = Some (File i)"
    by (auto intro: mkChain_file)
  with 4 m show ?case
    by (cases r') (auto simp: registerArtifact_def Let_def bindG_def go_defs)
qed

section \<open>Frames\<close>

lemma registerArtifact_grows [grow_frame]: "within grows (registerArtifact env st dir)"
  unfolding registerArtifact_def Let_def
  by (intro grow_frame) (auto simp: within_def modifyW_def grows_def)

lemma registerArtifact_nodes [nodes_frame]: "within sameNodes (registerArtifact env st dir)"
  by (rule astore.reg_nodes)

lemma newState_nodes [nodes_frame]: "within sameNodes (newState env dir suuid)"
  unfolding newState_def Let_def
  by (intro nodes_frame) (auto simp: within_def modifyW_def sameNodes_def intro!: nodes_frame)

lemma mkdirs_isDir:
  "forG dirs (\<lambda>d _. osMkdirAll env d) () s = (Ok (), t) \<Longrightarrow>
     (\<forall>d\<in>set dirs. isDir (wfs t) d) \<and> (\<forall>p. isDir (wfs s) p \<longrightarrow> isDir (wfs t) p)"
proof (induction dirs arbitrary: s)
  case Nil
  then show ?case by (simp add: returnG_def)
next
  case (Cons d dirs)
  then obtain u where m: "osMkdirAll env d s = (Ok (), u)"
    and rest: "forG dirs (\<lambda>d _. osMkdirAll env d) () u = (Ok (), t)"
    by (auto elim!: bindG_OkE)
  from osMkdirAll_keeps [OF m] have "isDir (wfs s) p \<Longrightarrow> isDir (wfs u) p" for p
    by (auto intro: isDir_mkChain)
  with Cons.IH [OF rest] osMkdirAll_Ok [OF m] show ?case by auto
qed

lemma newState_Ok:
  "newState env dir suuid s = (Ok st, t) \<Longrightarrow>
     (\<exists>u. st = stateFor env (if dir \<noteq> '''' then dir else pathJoin [e_cacheHome env, ''shenanigans'', u]) u \<and>
          (suuid \<noteq> '''' \<longrightarrow> u = suuid)) \<and>
     (\<forall>d\<in>{st_base st, st_tmpdir st, st_artifactdir st, st_cachedir st, st_instancedir st}. isDir (wfs t) d)"
proof -
  assume "newState env dir suuid s = (Ok st, t)"
  then obtain u su where
    st: "st = stateFor env (if dir \<noteq> '''' then dir else pathJoin [e_cacheHome env, ''shenanigans'', u]) u"
      "suuid \<noteq> '''' \<longrightarrow> u = suuid"
    and mk: "forG [st_base st, st_tmpdir st, st_artifactdir st, st_cachedir st, st_instancedir st, st_tmpdir st]
        (\<lambda>d _. osMkdirAll env d) () su = (Ok (), t)"
    by (auto simp: newState_def Let_def go_defs simp del: forG.simps elim!: bindG_OkE split: if_splits)
  from mkdirs_isDir [OF mk] st show ?thesis by auto
qed

section \<open>Properties\<close>

text \<open>
  C31: when \<open>NewState\<close> succeeds for the default base, all five directories exist; the
  temporary, artifact and instance directories are directly below the deployment's base, which
  is named by the given uuid; and the download cache is the one directory shared by all
  deployments, independent of the uuid.
\<close>

theorem newState_layout:
  assumes "newState env '''' suuid s = (Ok st, t)"
    and "rooted (e_cacheHome env)" and "plainName suuid"
  shows "st_base st = absPath (parts (e_cacheHome env) @ [''shenanigans'', suuid]) \<and>
    st_tmpdir st = absPath (parts (st_base st) @ [''tmp'']) \<and>
    st_artifactdir st = absPath (parts (st_base st) @ [''artifacts'']) \<and>
    st_instancedir st = absPath (parts (st_base st) @ [''instance'']) \<and>
    st_cachedir st = absPath (parts (e_cacheHome env) @ [''shenanigans'', ''cache'']) \<and>
    (\<forall>d\<in>{st_base st, st_tmpdir st, st_artifactdir st, st_cachedir st, st_instancedir st}. isDir (wfs t) d)"
proof -
  from assms(3) have "suuid \<noteq> ''''" by (auto simp: plainName_def)
  with newState_Ok [OF assms(1)]
  have st: "st = stateFor env (pathJoin [e_cacheHome env, ''shenanigans'', suuid]) suuid"
    and dirs: "\<forall>d\<in>{st_base st, st_tmpdir st, st_artifactdir st, st_cachedir st, st_instancedir st}. isDir (wfs t) d"
    by auto
  have plain: "plainName ''shenanigans''" "plainName ''tmp''" "plainName ''artifacts''"
    "plainName ''instance''" "plainName ''cache''" by (simp_all add: plainName_def)
  have home: "\<forall>c\<in>set (parts (e_cacheHome env)). plainName c"
    by (rule parts_rooted_plain [OF assms(2)])
  have app: "pathJoin [e_cacheHome env, ''shenanigans''] = absPath (parts (e_cacheHome env) @ [''shenanigans''])"
    "pathJoin [e_cacheHome env, ''shenanigans'', suuid] =
       absPath (parts (e_cacheHome env) @ [''shenanigans'', suuid])"
    using assms(2,3) plain by (simp_all add: pathJoin_plain)
  show ?thesis
    using st dirs app plain home assms(3)
    by (simp add: stateFor_def pathJoin_plain parts_absPath)
qed

theorem newState_layout_witness:
  "st_artifactdir (stateFor calmEnv ''/h/.cache/shenanigans/u'' ''u'') = ''/h/.cache/shenanigans/u/artifacts'' \<and>
   isDir (wfs (snd (newState calmEnv '''' ''u'' emptyWorld))) ''/h/.cache/shenanigans/u/artifacts''"
proof -
  let ?st = "stateFor calmEnv ''/h/.cache/shenanigans/u'' ''u''"
  have "fst (newState calmEnv '''' ''u'' emptyWorld) = Ok ?st" by code_simp
  then have ok: "newState calmEnv '''' ''u'' emptyWorld = (Ok ?st, snd (newState calmEnv '''' ''u'' emptyWorld))"
    by (metis prod.collapse)
  have a: "st_artifactdir ?st = ''/h/.cache/shenanigans/u/artifacts''" by code_simp
  have r: "rooted (e_cacheHome calmEnv)" and pl: "plainName ''u''" by code_simp+
  have "isDir (wfs (snd (newState calmEnv '''' ''u'' emptyWorld))) (st_artifactdir ?st)"
    using newState_layout [OF ok r pl] by blast
  then show ?thesis unfolding a by simp
qed

text \<open>
  An artifact registered under a relative name of ordinary components, with or without a
  leading slash, is placed at exactly those components below the artifact directory; its parent
  directory exists afterwards, the name is recorded with that place, and no file of the file
  system is lost or replaced.
\<close>

theorem registerArtifact_place:
  assumes "registerArtifact env st dir s = (Ok a, t)"
    and "rooted (st_artifactdir st)" and "cs \<noteq> []" and "\<forall>c\<in>set cs. plainName c"
    and "dir = joinWith ''/'' cs \<or> dir = CHR ''/'' # joinWith ''/'' cs"
  shows "a = absPath (parts (st_artifactdir st) @ cs) \<and> isDir (wfs t) (pathDir a) \<and>
    artifacts t = (artifacts s)(dir \<mapsto> a) \<and>
    (\<forall>p i. names (wfs s) p = Some (File i) \<longrightarrow> names (wfs t) p = Some (File i))"
  using registerArtifact_Ok [OF assms(1)] pathJoin_relative [OF assms(2-4)] assms(5)
    astore.reg_files [OF assms(1)] by auto

theorem registerArtifact_place_witness:
  "fst (registerArtifact calmEnv (stateFor calmEnv ''/b'' ''u'') ''/up/kube/config'' emptyWorld)
     = Ok ''/b/artifacts/up/kube/config'' \<and>
   isDir (wfs (snd (registerArtifact calmEnv (stateFor calmEnv ''/b'' ''u'') ''/up/kube/config'' emptyWorld)))
     ''/b/artifacts/up/kube''"
proof -
  let ?st = "stateFor calmEnv ''/b'' ''u''"
  let ?r = "registerArtifact calmEnv ?st ''/up/kube/config'' emptyWorld"
  have a: "fst ?r = Ok ''/b/artifacts/up/kube/config''" by code_simp
  then have ok: "?r = (Ok ''/b/artifacts/up/kube/config'', snd ?r)" by (metis prod.collapse)
  have r: "rooted (st_artifactdir ?st)" by code_simp
  have d: "pathDir ''/b/artifacts/up/kube/config'' = ''/b/artifacts/up/kube''" by code_simp
  have "isDir (wfs (snd ?r)) (pathDir ''/b/artifacts/up/kube/config'')"
    by (rule registerArtifact_place [OF ok r, of "[''up'', ''kube'', ''config'']", THEN conjunct2, THEN conjunct1])
      (simp_all add: plainName_def)
  then show ?thesis using a unfolding d by blast
qed

end
