(* ===== verification/Filecache.thy ===== *)
theory Filecache
  imports Os
begin

text \<open>
  \<open>src/pkg/filecache/filecache.go\<close>: the download cache, in which a file is stored under its
  sha256 sum. \<open>crypto/sha256\<close> is the parameter \<open>e_sha256\<close> (the bytes of the sum) and
  \<open>http.Get\<close> the parameter \<open>e_http\<close>. The signal handler that \<open>TmpDir\<close> starts is left to
  \<open>Filecache_Signals\<close>. The lemmas carry one invariant: whatever lies in the cache directory under a plain
  name has that name as its sum.
\<close>

section \<open>Types and operations\<close>

record RemoteFile =
  rf_Dest :: string
  rf_Mode :: string
  rf_Owner :: string
  rf_Group :: string

record CachedFile =
  cf_Uri :: string
  cf_Sha256Sum :: string
  cf_Remote :: RemoteFile

definition APPNAME :: string where
  "APPNAME = ''shenanigans''"

definition cacheDir :: "env \<Rightarrow> string" where
  "cacheDir env = pathJoin [e_cacheHome env, APPNAME]"

definition tmpDir :: "env \<Rightarrow> string" where
  "tmpDir env = pathJoin [cacheDir env, ''tmp'', showNat (e_pid env)]"

definition httpGet :: "env \<Rightarrow> string \<Rightarrow> http_result io" where
  "httpGet env uri = answer (\<lambda>h. e_http env h uri) (EvHttpGet uri)"

definition sha256Sum :: "env \<Rightarrow> string \<Rightarrow> string io" where
  "sha256Sum env path =
     bindG (osOpen env path) (\<lambda>f.
     bindG (ioReadAll env f) (\<lambda>data.
     returnG (hexString (e_sha256 env data))))"

text \<open>
  The part of \<open>CacheInput\<close> after the file was not found in the cache. A failed
  \<open>http.Get\<close> leaves a nil response, and the deferred \<open>resp.Body.Close()\<close> dereferences it
  before the error is looked at. The results of \<open>os.Rename\<close> and \<open>os.Remove\<close> are dropped;
  \<open>log.Fatal\<close> ends the process with status 1.
\<close>

definition storeInput :: "env \<Rightarrow> CachedFile \<Rightarrow> string \<Rightarrow> string \<Rightarrow> string \<Rightarrow> unit io" where
  "storeInput env input dlFile destFile dlSum =
     (if dlSum = cf_Sha256Sum input then
        bindG (tryG (osStat env destFile)) (\<lambda>err.
        if err = Inl NotExist then
          bindG (tryG (osRename env dlFile destFile)) (\<lambda>_. returnG ())
        else returnG ())
      else
        bindG (tryG (osRemove env dlFile)) (\<lambda>_.
        bindG (answer (\<lambda>_. ()) (EvFatal (cf_Uri input))) (\<lambda>_.
        exitG 1)))"

definition downloadInput :: "env \<Rightarrow> CachedFile \<Rightarrow> string \<Rightarrow> string \<Rightarrow> unit io" where
  "downloadInput env input dlUuid destFile =
     bindG (osMkdirAll env (tmpDir env)) (\<lambda>_.
     let dlFile = pathJoin [tmpDir env, dlUuid] in
     bindG (osCreate env dlFile) (\<lambda>out.
     bindG (httpGet env (cf_Uri input)) (\<lambda>resp.
     (case resp of
        NilResponse err \<Rightarrow> panicG ''nil pointer dereference''
      | ClosedResponse err \<Rightarrow> failG err
      | Response body \<Rightarrow>
          bindG (ioCopy env out body) (\<lambda>_.
          bindG (sha256Sum env dlFile) (\<lambda>dlSum.
          storeInput env input dlFile destFile dlSum))))))"

definition cacheInput :: "env \<Rightarrow> CachedFile \<Rightarrow> unit io" where
  "cacheInput env input =
     bindG (answer (e_uuid env) EvUuid) (\<lambda>dlUuid.
     let destFile = pathJoin [cacheDir env, ''cache'', cf_Sha256Sum input] in
     bindG (tryG (osStat env destFile)) (\<lambda>r.
     (case r of
        Inl NotExist \<Rightarrow> downloadInput env input dlUuid destFile
      | Inl (Fail _) \<Rightarrow> panicG ''nil pointer dereference''
      | Inr sz \<Rightarrow> (if sz \<noteq> 0 then returnG () else returnG ()))))"

section \<open>The cache invariant\<close>

text \<open>
  What is assumed of the outside: the cache home is an absolute path, a generated uuid is an
  ordinary file name, and a sha256 sum is not empty.
\<close>

definition envOk :: "env \<Rightarrow> bool" where
  "envOk env \<longleftrightarrow> rooted (e_cacheHome env) \<and> (\<forall>h. plainName (e_uuid env h)) \<and> (\<forall>d. e_sha256 env d \<noteq> [])"

definition cachePath :: "env \<Rightarrow> string \<Rightarrow> string" where
  "cachePath env s = absPath (parts (e_cacheHome env) @ [''shenanigans'', ''cache'', s])"

definition tmpPath :: "env \<Rightarrow> string \<Rightarrow> string" where
  "tmpPath env f = absPath (parts (e_cacheHome env) @ [''shenanigans'', ''tmp'', showNat (e_pid env), f])"

text \<open>
  Files in the cache have their name as their sum; a file being downloaded is not shared with
  any other name; inode numbers in use are below the next one.
\<close>

definition fsInv :: "env \<Rightarrow> fsys \<Rightarrow> bool" where
  "fsInv env fs \<longleftrightarrow>
     (\<forall>s i. plainName s \<longrightarrow> names fs (cachePath env s) = Some (File i) \<longrightarrow>
        hexString (e_sha256 env (content fs i)) = s) \<and>
     (\<forall>f i p. plainName f \<longrightarrow> names fs (tmpPath env f) = Some (File i) \<longrightarrow>
        names fs p = Some (File i) \<longrightarrow> p = tmpPath env f) \<and>
     (\<forall>p i. names fs p = Some (File i) \<longrightarrow> i < nextIno fs)"

definition cacheInv :: "env \<Rightarrow> world \<Rightarrow> bool" where
  "cacheInv env w \<longleftrightarrow> envOk env \<and> fsInv env (wfs w)"

section \<open>Paths of the cache\<close>

lemma plain_consts [simp]:
  "plainName ''shenanigans''" "plainName ''cache''" "plainName ''tmp''"
  by (simp_all add: plainName_def)

lemma plain_showNat [simp]: "plainName (showNat n)"
proof -
  have "c \<notin> set ''0123456789'' \<Longrightarrow> c \<notin> set (showNat n)" for c by (rule showNat_no_sep)
  then have "CHR ''/'' \<notin> set (showNat n)" "CHR ''.'' \<notin> set (showNat n)" by simp_all
  then show ?thesis by (auto simp: plainName_def)
qed

lemma plain_hexString: "d \<noteq> [] \<Longrightarrow> plainName (hexString d)"
proof -
  assume "d \<noteq> []"
  then have "hexString d \<noteq> []" by (cases d) (auto simp: hexString_def hex2_def)
  moreover have "CHR ''/'' \<notin> set (hexString d)" "CHR ''.'' \<notin> set (hexString d)"
    using hexString_chars [of d] by auto
  ultimately show ?thesis by (auto simp: plainName_def)
qed

lemma home_plain: "envOk env \<Longrightarrow> c \<in> set (parts (e_cacheHome env)) \<Longrightarrow> plainName c"
  using parts_rooted_plain by (auto simp: envOk_def)

lemma cacheDir_eq:
  "envOk env \<Longrightarrow> cacheDir env = absPath (parts (e_cacheHome env) @ [''shenanigans''])"
  by (simp add: cacheDir_def APPNAME_def pathJoin_plain envOk_def)

lemma parts_cacheDir:
  "envOk env \<Longrightarrow> parts (cacheDir env) = parts (e_cacheHome env) @ [''shenanigans'']"
  by (simp add: cacheDir_eq) (subst parts_absPath, auto dest: home_plain)

lemma rooted_cacheDir: "envOk env \<Longrightarrow> rooted (cacheDir env)"
  by (simp add: cacheDir_eq)

lemma destFile_eq:
  "envOk env \<Longrightarrow> plainName s \<Longrightarrow> pathJoin [cacheDir env, ''cache'', s] = cachePath env s"
  by (simp add: pathJoin_plain rooted_cacheDir parts_cacheDir cachePath_def)

lemma tmpDir_eq:
  "envOk env \<Longrightarrow> tmpDir env = absPath (parts (e_cacheHome env) @ [''shenanigans'', ''tmp'', showNat (e_pid env)])"
  by (simp add: tmpDir_def pathJoin_plain rooted_cacheDir parts_cacheDir)

lemma parts_tmpDir:
  "envOk env \<Longrightarrow> parts (tmpDir env) = parts (e_cacheHome env) @ [''shenanigans'', ''tmp'', showNat (e_pid env)]"
  by (simp add: tmpDir_eq) (subst parts_absPath, auto dest: home_plain)

lemma dlFile_eq: "envOk env \<Longrightarrow> plainName f \<Longrightarrow> pathJoin [tmpDir env, f] = tmpPath env f"
proof -
  assume a: "envOk env" "plainName f"
  then have "rooted (tmpDir env)" by (simp add: tmpDir_eq)
  with a show ?thesis by (simp add: pathJoin_plain parts_tmpDir tmpPath_def)
qed

lemma parts_paths:
  "envOk env \<Longrightarrow> plainName s \<Longrightarrow> parts (cachePath env s) = parts (e_cacheHome env) @ [''shenanigans'', ''cache'', s]"
  "envOk env \<Longrightarrow> plainName s \<Longrightarrow>
     parts (tmpPath env s) = parts (e_cacheHome env) @ [''shenanigans'', ''tmp'', showNat (e_pid env), s]"
  by (auto simp: cachePath_def tmpPath_def dest: home_plain intro!: parts_absPath)

lemma clean_paths:
  "envOk env \<Longrightarrow> plainName s \<Longrightarrow> pathClean (cachePath env s) = cachePath env s"
  "envOk env \<Longrightarrow> plainName s \<Longrightarrow> pathClean (tmpPath env s) = tmpPath env s"
  by (auto simp: cachePath_def tmpPath_def dest: home_plain intro!: clean_absPath)

lemma pathDir_paths:
  assumes "envOk env" "plainName s"
  shows "pathDir (cachePath env s) = pathJoin [cacheDir env, ''cache'']" "pathDir (tmpPath env s) = tmpDir env"
proof -
  have h: "\<forall>c\<in>set (parts (e_cacheHome env)). plainName c" using assms(1) by (auto dest: home_plain)
  show "pathDir (cachePath env s) = pathJoin [cacheDir env, ''cache'']"
    using pathDir_absPath [of "parts (e_cacheHome env) @ [''shenanigans'', ''cache'']" s] h assms
    by (simp add: cachePath_def pathJoin_plain rooted_cacheDir parts_cacheDir)
  show "pathDir (tmpPath env s) = tmpDir env"
    using pathDir_absPath [of "parts (e_cacheHome env) @ [''shenanigans'', ''tmp'', showNat (e_pid env)]" s] h assms
    by (simp add: tmpPath_def tmpDir_eq)
qed

lemma cachePath_inj:
  "envOk env \<Longrightarrow> plainName s \<Longrightarrow> plainName s' \<Longrightarrow> cachePath env s = cachePath env s' \<Longrightarrow> s = s'"
  by (metis append_same_eq last_ConsL last_ConsR list.distinct(1) list.inject parts_paths(1) same_append_eq)

lemma tmpPath_inj:
  "envOk env \<Longrightarrow> plainName s \<Longrightarrow> plainName s' \<Longrightarrow> tmpPath env s = tmpPath env s' \<Longrightarrow> s = s'"
  by (metis list.inject parts_paths(2) same_append_eq)

lemma cache_not_tmp: "envOk env \<Longrightarrow> plainName s \<Longrightarrow> plainName f \<Longrightarrow> cachePath env s \<noteq> tmpPath env f"
proof
  assume a: "envOk env" "plainName s" "plainName f" and "cachePath env s = tmpPath env f"
  then have "length (parts (cachePath env s)) = length (parts (tmpPath env f))" by simp
  with a show False by (simp add: parts_paths)
qed

lemma lookup_paths:
  "envOk env \<Longrightarrow> plainName s \<Longrightarrow> lookupPath fs (cachePath env s) = names fs (cachePath env s)"
  "envOk env \<Longrightarrow> plainName s \<Longrightarrow> lookupPath fs (tmpPath env s) = names fs (tmpPath env s)"
  by (simp_all add: lookupPath_def parts_paths clean_paths)

section \<open>The invariant over file-system changes\<close>

lemma fsInv_mkChain: "fsInv env fs \<Longrightarrow> fsInv env (fst (mkChain ps fs))"
  unfolding fsInv_def mkChain_other by (blast dest: mkChain_new)

text \<open>\<open>owned\<close>: the inode is the one of this download and of no other name.\<close>

definition owned :: "env \<Rightarrow> string \<Rightarrow> nat \<Rightarrow> fsys \<Rightarrow> bool" where
  "owned env f i fs \<longleftrightarrow> names fs (tmpPath env f) = Some (File i)"

lemma fsInv_setContent:
  assumes "envOk env" "fsInv env fs" "plainName f" "owned env f i fs"
  shows "fsInv env (setContent i d fs) \<and> owned env f i (setContent i d fs)"
proof -
  have "j \<noteq> i" if "plainName s" "names fs (cachePath env s) = Some (File j)" for s j
    using assms that cache_not_tmp [OF assms(1) that(1) assms(3)] by (metis fsInv_def owned_def)
  with assms show ?thesis by (fastforce simp: fsInv_def owned_def setContent_def)
qed

lemma fsInv_create:
  assumes "envOk env" "fsInv env fs" "plainName f"
    and "openTrunc (tmpPath env f) m fs = Inr (i, fs')"
  shows "fsInv env fs' \<and> owned env f i fs' \<and> content fs' i = ''''"
proof (cases "names fs (tmpPath env f)")
  case None
  then have fs': "fs' = newInode (tmpPath env f) m fs" "i = nextIno fs"
    using assms by (auto simp: openTrunc_def lookup_paths split: if_splits)
  have other: "cachePath env s \<noteq> tmpPath env f" if "plainName s" for s
    using cache_not_tmp assms that by blast
  have fresh: "names fs p \<noteq> Some (File (nextIno fs))" for p
    using assms(2) by (auto simp: fsInv_def)
  have "fsInv env fs'"
    using assms(1-3) other fresh unfolding fsInv_def fs' newInode_def bindName_def
    by (simp add: clean_paths) (metis less_SucI less_irrefl)
  then show ?thesis using assms fs' by (simp add: owned_def newInode_def bindName_def clean_paths)
next
  case (Some e)
  then have "owned env f i fs" "fs' = setContent i '''' fs"
    using assms by (auto simp: openTrunc_def lookup_paths owned_def split: entry.splits)
  with fsInv_setContent [OF assms(1,2,3)] show ?thesis by (simp add: setContent_def)
qed

lemma fsInv_remove:
  assumes "envOk env" "fsInv env fs" "plainName f"
  shows "fsInv env (bindName (tmpPath env f) None fs)"
  using assms cache_not_tmp [of env _ f] by (auto simp: fsInv_def bindName_def clean_paths)

lemma fsInv_rename:
  assumes "envOk env" "fsInv env fs" "plainName f" "plainName s"
    and tmp: "names fs (tmpPath env f) = Some (File i)"
    and sum: "hexString (e_sha256 env (content fs i)) = s"
  shows "fsInv env (bindName (cachePath env s) (Some (File i)) (bindName (tmpPath env f) None fs))"
    (is "fsInv env ?fs")
proof -
  have N: "names ?fs = (names fs)(tmpPath env f := None, cachePath env s := Some (File i))"
    and other: "content ?fs = content fs" "nextIno ?fs = nextIno fs"
    using assms by (simp_all add: bindName_def clean_paths)
  have n: "cachePath env s' \<noteq> tmpPath env f'" if "plainName s'" "plainName f'" for s' f'
    using assms that cache_not_tmp by blast
  have "hexString (e_sha256 env (content fs j)) = s'"
    if "plainName s'" "names ?fs (cachePath env s') = Some (File j)" for s' j
  proof (cases "cachePath env s' = cachePath env s")
    case True
    then have "s' = s" using assms(1,4) that(1) cachePath_inj by blast
    with that(2) sum show ?thesis by (simp add: N)
  next
    case False
    with that assms(2) n [OF that(1) assms(3)] show ?thesis by (simp add: N fsInv_def)
  qed
  moreover have "p = tmpPath env f'"
    if "plainName f'" "names ?fs (tmpPath env f') = Some (File j)" "names ?fs p = Some (File j)" for f' j p
  proof -
    have f': "names fs (tmpPath env f') = Some (File j)" "tmpPath env f' \<noteq> tmpPath env f"
      using that(2) n [OF assms(4) that(1)] by (auto simp: N split: if_splits)
    have "p \<noteq> cachePath env s"
      using that(3) f' tmp assms(2,3) unfolding fsInv_def by (auto simp: N)
    with that(3) have "names fs p = Some (File j)" by (auto simp: N split: if_splits)
    with f' that(1) assms(2) show ?thesis unfolding fsInv_def by blast
  qed
  moreover have "j < nextIno fs" if "names ?fs p = Some (File j)" for p j
    using that tmp assms(2) unfolding fsInv_def N by (auto split: if_splits)
  ultimately show ?thesis unfolding fsInv_def other by blast
qed

section \<open>CacheInput keeps the invariant\<close>

lemma wp_sha256Sum:
  assumes "\<And>i t. wfs t = wfs s \<Longrightarrow> lookupPath (wfs s) p = Some (File i) \<Longrightarrow>
      Q (hexString (e_sha256 env (content (wfs s) i))) t"
    and "\<And>t. wfs t = wfs s \<Longrightarrow> E t"
  shows "wp (sha256Sum env p) Q E s"
  unfolding sha256Sum_def
  using assms by (auto intro!: wp_bind wp_osOpen wp_ioReadAll wp_return)

lemma storeInput_inv:
  assumes "envOk env" "plainName u" "fsInv env (wfs s)" "owned env u i (wfs s)"
    and "destFile = pathJoin [cacheDir env, ''cache'', cf_Sha256Sum input]"
    and "dlSum = hexString (e_sha256 env (content (wfs s) i))"
  shows "wp (storeInput env input (tmpPath env u) destFile dlSum) (\<lambda>_. cacheInv env) (cacheInv env) s"
proof -
  have rename: "wp (osRename env (tmpPath env u) destFile) (\<lambda>_. cacheInv env) (cacheInv env) t"
    if t: "wfs t = wfs s" and sum: "dlSum = cf_Sha256Sum input" for t
  proof -
    have plain: "plainName (cf_Sha256Sum input)"
      using sum assms(1,6) plain_hexString by (metis envOk_def)
    then have d: "destFile = cachePath env (cf_Sha256Sum input)" using assms(1,5) by (simp add: destFile_eq)
    show ?thesis
      using t sum assms(1-4,6) plain unfolding d
      by (intro wp_osRename) (auto simp: cacheInv_def lookup_paths owned_def intro: fsInv_rename)
  qed
  have keep: "wfs t = wfs s \<Longrightarrow> cacheInv env t" for t using assms(1,3) by (simp add: cacheInv_def)
  have removed: "wp (osRemove env (tmpPath env u)) (\<lambda>_. cacheInv env) (cacheInv env) s"
    using assms(1-3) keep by (intro wp_osRemove) (auto simp: cacheInv_def intro: fsInv_remove)
  have gone: "cacheInv env t \<Longrightarrow> wp (bindG (answer (\<lambda>_. ()) ev) (\<lambda>_. exitG n)) (\<lambda>_. cacheInv env) (cacheInv env) t"
    for t ev n by (intro wp_bind wp_answer wp_exit) (simp add: cacheInv_def)
  show ?thesis
    unfolding storeInput_def
    apply (intro wp_if wp_bind wp_try)
     apply (rule wp_osStat)
      apply (simp add: wp_return keep)
     apply (auto simp: keep intro!: wp_return wp_bind wp_try wp_weaken [OF rename])
    apply (rule wp_weaken [OF removed])
     apply (auto intro: gone)
    done
qed

lemma downloadInput_inv:
  assumes "cacheInv env s" "plainName u"
    and "destFile = pathJoin [cacheDir env, ''cache'', cf_Sha256Sum input]"
  shows "wp (downloadInput env input u destFile) (\<lambda>_. cacheInv env) (cacheInv env) s"
proof -
  have e: "envOk env" and inv: "fsInv env (wfs s)" using assms(1) by (auto simp: cacheInv_def)
  let ?own = "\<lambda>i t. fsInv env (wfs t) \<and> owned env u i (wfs t)"
  have dl: "pathJoin [tmpDir env, u] = tmpPath env u" using e assms(2) by (rule dlFile_eq)
  have fin: "fsInv env (wfs t) \<Longrightarrow> cacheInv env t" for t using e by (simp add: cacheInv_def)
  have sum: "wp (bindG (sha256Sum env (tmpPath env u)) (storeInput env input (tmpPath env u) destFile))
      (\<lambda>_. cacheInv env) (cacheInv env) t" if "?own i t" for i t
    using that e assms(2,3) fin
    by (intro wp_bind wp_sha256Sum storeInput_inv) (auto simp: lookup_paths owned_def)
  have copy: "wp (ioCopy env i body) (\<lambda>_. ?own i) (cacheInv env) t" if "?own i t" for i t body
    using that e assms(2) fin fsInv_setContent by (intro wp_ioCopy) auto
  have body: "wp (case resp of NilResponse err \<Rightarrow> panicG p | ClosedResponse err \<Rightarrow> failG err
      | Response body \<Rightarrow> bindG (ioCopy env i body) (\<lambda>_.
          bindG (sha256Sum env (tmpPath env u)) (storeInput env input (tmpPath env u) destFile)))
      (\<lambda>_. cacheInv env) (cacheInv env) t" if "?own i t" for resp p i t
    using that fin
    by (cases resp) (auto intro!: wp_panic wp_fail wp_bind wp_weaken [OF copy] sum)
  have own: "?own i t'" if "openTrunc (tmpPath env u) m (fst (mkChain ps (wfs s))) = Inr (i, wfs t')" for m ps i t'
    using fsInv_create [OF e fsInv_mkChain [OF inv] assms(2) that] by simp
  show ?thesis
    unfolding downloadInput_def Let_def dl httpGet_def
    by (intro wp_bind wp_osMkdirAll wp_osCreate wp_answer)
      (auto intro!: body simp: fin fsInv_mkChain [OF inv] dest: own)
qed

lemma cacheInput_inv: "cacheInv env s \<Longrightarrow> wp (cacheInput env input) (\<lambda>_. cacheInv env) (cacheInv env) s"
proof -
  assume inv: "cacheInv env s"
  have keep: "wfs t = wfs s \<Longrightarrow> cacheInv env t" for t using inv by (simp add: cacheInv_def)
  have u: "plainName (e_uuid env h)" for h using inv by (simp add: cacheInv_def envOk_def)
  show ?thesis
    unfolding cacheInput_def Let_def
    by (intro wp_bind wp_answer wp_try wp_osStat)
      (auto simp: keep intro!: wp_return wp_panic downloadInput_inv u split: goerr.split)
qed

section \<open>The interface to the universe\<close>

text \<open>
  A download cache: fetching keeps an invariant, whatever the outcome. The client fetches a
  list of inputs and stops at the first that fails.
\<close>

locale download_cache =
  fixes fetch :: "'i \<Rightarrow> unit io" and inv :: "world \<Rightarrow> bool"
  assumes fetch_inv: "inv s \<Longrightarrow> wp (fetch x) (\<lambda>_. inv) inv s"
begin

lemma fetch_all_wp: "inv s \<Longrightarrow> wp (forG xs (\<lambda>x _. fetch x) ()) (\<lambda>_. inv) inv s"
  by (rule wp_for [where I = "\<lambda>_ _. inv"]) (auto intro: fetch_inv)

lemma fetch_all_inv: "inv s \<Longrightarrow> inv (snd (forG xs (\<lambda>x _. fetch x) () s))"
  by (rule wp_any [OF fetch_all_wp])

end

interpretation dlcache: download_cache "cacheInput env" "cacheInv env" for env
  by unfold_locales (rule cacheInput_inv)

section \<open>Frames\<close>

lemma storeInput_deploy [deploy_frame]: "within sameDeploy (storeInput env input dl dest ck)"
  unfolding storeInput_def by (intro deploy_frame)

lemma downloadInput_deploy [deploy_frame]: "within sameDeploy (downloadInput env input u dest)"
  unfolding downloadInput_def Let_def httpGet_def sha256Sum_def
  by (intro deploy_frame) (auto intro!: deploy_frame split: http_result.split)

lemma cacheInput_deploy [deploy_frame]: "within sameDeploy (cacheInput env input)"
  unfolding cacheInput_def Let_def
  by (intro deploy_frame) (auto intro!: deploy_frame split: sum.split goerr.split)

lemma storeInput_grows [grow_frame]: "within grows (storeInput env input dl dest ck)"
  unfolding storeInput_def by (intro grow_frame)

lemma downloadInput_grows [grow_frame]: "within grows (downloadInput env input u dest)"
  unfolding downloadInput_def Let_def httpGet_def sha256Sum_def
  by (intro grow_frame) (auto intro!: grow_frame split: http_result.split)

lemma cacheInput_grows [grow_frame]: "within grows (cacheInput env input)"
  unfolding cacheInput_def Let_def
  by (intro grow_frame) (auto intro!: grow_frame split: sum.split goerr.split)

lemmas cacheInput_nodes [nodes_frame] = cacheInput_deploy [THEN sameDeploy_nodes]

section \<open>Where the names can appear\<close>

lemma dirChain_abs:
  assumes "q \<in> set (dirChain (absPath cs))" "\<forall>c\<in>set cs. plainName c"
  obtains ds where "q = absPath ds" "prefix ds cs"
proof -
  have "set (tl (prefixes cs)) \<subseteq> set (prefixes cs)" by (cases "prefixes cs") auto
  moreover obtain ds where "ds \<in> set (tl (prefixes cs))" "q = absPath ds"
    using assms by (auto simp: dirChain_def parts_absPath) (auto simp: absPath_def)
  ultimately show ?thesis using that by (metis in_set_prefixes subsetD)
qed

lemma outside_tmp_chain:
  assumes "envOk env" "plainName s"
  shows "cachePath env s \<notin> set (dirChain (tmpDir env))"
    and "tmpPath env s \<notin> set (dirChain (tmpDir env))"
proof -
  let ?t = "parts (e_cacheHome env) @ [''shenanigans'', ''tmp'', showNat (e_pid env)]"
  have plain: "\<forall>c\<in>set ?t. plainName c" using assms(1) by (auto dest: home_plain)
  have out: "q \<notin> set (dirChain (tmpDir env))" if "q = absPath cs" "\<forall>c\<in>set cs. plainName c" "\<not> prefix cs ?t" for q cs
  proof
    assume "q \<in> set (dirChain (tmpDir env))"
    then obtain ds where "q = absPath ds" "prefix ds ?t"
      using plain unfolding tmpDir_eq [OF assms(1)] by (rule dirChain_abs [of q ?t])
    moreover from this(2) have "\<forall>c\<in>set ds. plainName c" using plain set_mono_prefix by blast
    ultimately have "cs = ds" using that(1,2) absPath_inj by simp
    with that(3) \<open>prefix ds ?t\<close> show False by simp
  qed
  show "cachePath env s \<notin> set (dirChain (tmpDir env))"
    by (rule out [OF cachePath_def]) (use assms in \<open>auto dest: home_plain\<close>)
  show "tmpPath env s \<notin> set (dirChain (tmpDir env))"
    by (rule out [OF tmpPath_def]) (use assms in \<open>auto dest: home_plain\<close>)
qed

lemma openTrunc_owned:
  assumes "envOk env" "plainName u" "plainName s" "openTrunc (tmpPath env u) m fs = Inr (i, fs')"
  shows "owned env u i fs'" "content fs' i = ''''"
    "names fs' (cachePath env s) = names fs (cachePath env s)"
  using assms cache_not_tmp [OF assms(1,3,2)]
  by (auto simp: openTrunc_def owned_def lookup_paths newInode_def bindName_def setContent_def clean_paths
      split: option.splits entry.splits if_splits)

lemma cacheInput_mismatch_wp:
  assumes "envOk env" and "plainName (cf_Sha256Sum input)"
    and "names (wfs s) (cachePath env (cf_Sha256Sum input)) = None"
    and "\<forall>h body. e_http env h (cf_Uri input) = Response body \<longrightarrow>
           hexString (e_sha256 env body) \<noteq> cf_Sha256Sum input"
  shows "wp (cacheInput env input) (\<lambda>_ _. False)
    (\<lambda>t. names (wfs t) (cachePath env (cf_Sha256Sum input)) = None) s"
proof -
  let ?c = "cachePath env (cf_Sha256Sum input)"
  let ?E = "\<lambda>t. names (wfs t) ?c = None"
  have dest: "pathJoin [cacheDir env, ''cache'', cf_Sha256Sum input] = ?c"
    using assms(1,2) by (rule destFile_eq)
  have store: "wp (storeInput env input (tmpPath env u) ?c dlSum) (\<lambda>_ _. False) ?E t"
    if "plainName u" "dlSum \<noteq> cf_Sha256Sum input" "?E t" for u dlSum t
    using that cache_not_tmp [OF assms(1,2) that(1)] assms(1) unfolding storeInput_def
    by (auto intro!: wp_bind wp_try wp_osRemove wp_answer wp_exit simp: bindName_def clean_paths)
  have sum: "wp (sha256Sum env (tmpPath env u))
      (\<lambda>a. wp (storeInput env input (tmpPath env u) ?c a) (\<lambda>_ _. False) ?E) ?E t"
    if "plainName u" "owned env u i (wfs t)" "hexString (e_sha256 env (content (wfs t) i)) \<noteq> cf_Sha256Sum input" "?E t"
    for u i t
    using that assms(1) by (intro wp_sha256Sum store) (auto simp: lookup_paths owned_def)
  have dl: "wp (downloadInput env input u ?c) (\<lambda>_ _. False) ?E t" if u: "plainName u" and "?E t" for u t
  proof -
    have mk: "names (fst (mkChain (take n (dirChain (tmpDir env))) (wfs t))) ?c = None"
      "names (fst (mkChain (dirChain (tmpDir env)) (wfs t))) ?c = None" for n
      using \<open>?E t\<close> outside_tmp_chain(1) [OF assms(1,2)] by (metis in_set_takeD mkChain_outside)+
    have body: "wp (case resp of NilResponse err \<Rightarrow> panicG p | ClosedResponse err \<Rightarrow> failG err
        | Response body \<Rightarrow> bindG (ioCopy env i body) (\<lambda>_.
            bindG (sha256Sum env (tmpPath env u)) (storeInput env input (tmpPath env u) ?c)))
        (\<lambda>_ _. False) ?E t'"
      if "\<exists>h. resp = e_http env h (cf_Uri input)" "owned env u i (wfs t')" "content (wfs t') i = ''''" "?E t'"
      for resp p i t'
      using that assms(4)
      by (cases resp) (auto intro!: wp_panic wp_fail wp_bind wp_ioCopy sum u simp: setContent_def owned_def)
    show ?thesis
      unfolding downloadInput_def Let_def dlFile_eq [OF assms(1) u] httpGet_def
      by (intro wp_bind wp_osMkdirAll wp_osCreate wp_answer)
        (auto simp: mk intro!: body dest: openTrunc_owned [OF assms(1) u assms(2)])
  qed
  have u: "plainName (e_uuid env h)" for h using assms(1) by (simp add: envOk_def)
  show ?thesis
    unfolding cacheInput_def Let_def dest
    by (intro wp_bind wp_answer wp_try wp_osStat)
      (use assms in \<open>auto simp: lookup_paths intro!: wp_panic dl u split: goerr.split\<close>)
qed

text \<open>Concrete inputs for the witnesses.\<close>

definition sampleInput :: "string \<Rightarrow> CachedFile" where
  "sampleInput ck = \<lparr>cf_Uri = ''u'', cf_Sha256Sum = ck,
     cf_Remote = \<lparr>rf_Dest = ''/d'', rf_Mode = ''0644'', rf_Owner = ''root'', rf_Group = ''root''\<rparr>\<rparr>"

definition cacheOnly :: world where
  "cacheOnly = emptyWorld\<lparr>wfs := (wfs emptyWorld)\<lparr>names := [''/h/.cache/shenanigans/cache'' \<mapsto> Dir]\<rparr>\<rparr>"

section \<open>Properties\<close>

text \<open>
  C15: fetching any list of inputs, with any faults and any downloads, keeps the cache sound:
  afterwards every file in the cache directory still has its name as the sha256 sum of its
  content, whether the run succeeded, failed, panicked or exited.
\<close>

theorem cacheInput_integrity:
  assumes "cacheInv env s"
  shows "cacheInv env (snd (forG inputs (\<lambda>input _. cacheInput env input) () s))"
  by (rule dlcache.fetch_all_inv [OF assms])

lemma envOk_calm: "envOk calmEnv" "envOk (calmEnv\<lparr>e_http := f\<rparr>)" "envOk (calmEnv\<lparr>e_fault := g\<rparr>)"
  by (simp_all add: envOk_def calmEnv_def plainName_def)

lemma cacheInput_integrity_witness:
  "cacheInv calmEnv (snd (forG [sampleInput ''00'']
     (\<lambda>input _. cacheInput calmEnv input) () emptyWorld))"
  by (rule cacheInput_integrity) (simp add: cacheInv_def envOk_calm fsInv_def emptyWorld_def)

text \<open>
  C18: when something is already stored under the input's sum, and looking at it does not
  fail, nothing is downloaded: the call succeeds with the file system untouched and the only
  requests are a fresh uuid and the look at the cached file.
\<close>

theorem cacheInput_hit:
  assumes "lookupPath (wfs s) dest \<noteq> None"
    and "dest = pathJoin [cacheDir env, ''cache'', cf_Sha256Sum input]"
    and "e_fault env (hist s @ [EvUuid]) (EvStat dest) = None"
  shows "cacheInput env input s = (Ok (), s\<lparr>hist := hist s @ [EvUuid, EvStat dest]\<rparr>)"
  using assms
  by (auto simp: cacheInput_def osStat_def bindG_def tryG_def go_defs Let_def split: option.splits entry.splits)

definition oneCached :: world where
  "oneCached = cacheOnly\<lparr>wfs := (wfs cacheOnly)\<lparr>names := (names (wfs cacheOnly))(cachePath calmEnv ''abc'' \<mapsto> File 0),
     content := (\<lambda>_. ''data''), nextIno := 1\<rparr>\<rparr>"

theorem cacheInput_hit_witness:
  "cacheInput calmEnv (sampleInput ''abc'') oneCached =
     (Ok (), oneCached\<lparr>hist := [EvUuid, EvStat ''/h/.cache/shenanigans/cache/abc'']\<rparr>)"
proof -
  have l: "lookupPath (wfs oneCached) ''/h/.cache/shenanigans/cache/abc'' \<noteq> None" by code_simp
  have d: "''/h/.cache/shenanigans/cache/abc'' = pathJoin [cacheDir calmEnv, ''cache'', cf_Sha256Sum (sampleInput ''abc'')]"
    by code_simp
  have f: "e_fault calmEnv (hist oneCached @ [EvUuid]) (EvStat ''/h/.cache/shenanigans/cache/abc'') = None"
    by (simp add: calmEnv_def)
  have "hist oneCached = []" by (simp add: oneCached_def cacheOnly_def emptyWorld_def)
  with cacheInput_hit [OF l d f] show ?thesis by simp
qed

text \<open>
  C16: a download whose sum is not the expected one is never accepted: the call does not
  return normally, and nothing is stored under the expected sum.
\<close>

theorem cacheInput_mismatch:
  assumes "envOk env" and "plainName (cf_Sha256Sum input)"
    and "names (wfs s) (cachePath env (cf_Sha256Sum input)) = None"
    and "\<forall>h body. e_http env h (cf_Uri input) = Response body \<longrightarrow>
           hexString (e_sha256 env body) \<noteq> cf_Sha256Sum input"
    and "cacheInput env input s = (r, t)"
  shows "r \<noteq> Ok () \<and> names (wfs t) (cachePath env (cf_Sha256Sum input)) = None"
  using cacheInput_mismatch_wp [OF assms(1-4)] assms(5) by (auto simp: wp_def split: outcome.splits)

lemma cacheInput_mismatch_witness:
  "fst (cacheInput calmEnv (sampleInput ''abc'') emptyWorld) \<noteq> Ok ()"
proof -
  have "plainName (cf_Sha256Sum (sampleInput ''abc''))" by code_simp
  moreover have "names (wfs emptyWorld) (cachePath calmEnv (cf_Sha256Sum (sampleInput ''abc''))) = None"
    by (simp add: emptyWorld_def)
  moreover have "hexString (e_sha256 calmEnv ''u'') \<noteq> ''abc''" by code_simp
  then have "\<forall>h body. e_http calmEnv h (cf_Uri (sampleInput ''abc'')) = Response body \<longrightarrow>
      hexString (e_sha256 calmEnv body) \<noteq> cf_Sha256Sum (sampleInput ''abc'')"
    by (simp add: calmEnv_def sampleInput_def)
  ultimately show ?thesis
    by (rule cacheInput_mismatch [OF envOk_calm(1) _ _ _ surjective_pairing, THEN conjunct1])
qed

text \<open>Without faults a download of the right content ends in the cache.\<close>

lemma downloadInput_stores:
  assumes "envOk env" and "\<forall>h ev. e_fault env h ev = None"
    and "\<forall>h. e_http env h (cf_Uri input) = Response body"
    and "hexString (e_sha256 env body) = cf_Sha256Sum input"
    and "isDir (wfs s) (pathJoin [cacheDir env, ''cache''])"
    and "snd (mkChain (dirChain (tmpDir env)) (wfs s))"
    and "names (wfs s) (cachePath env (cf_Sha256Sum input)) = None"
    and "\<forall>f. plainName f \<longrightarrow> names (wfs s) (tmpPath env f) = None"
    and u: "plainName u" and plain: "plainName (cf_Sha256Sum input)"
  shows "\<exists>t i. downloadInput env input u (cachePath env (cf_Sha256Sum input)) s = (Ok (), t) \<and>
    names (wfs t) (cachePath env (cf_Sha256Sum input)) = Some (File i) \<and> content (wfs t) i = body \<and>
    (\<forall>f. plainName f \<longrightarrow> names (wfs t) (tmpPath env f) = None)"
proof -
  let ?c = "cachePath env (cf_Sha256Sum input)"
  let ?fs = "fst (mkChain (dirChain (tmpDir env)) (wfs s))"
  have new: "names ?fs ?c = None" "plainName f \<Longrightarrow> names ?fs (tmpPath env f) = None" for f
    using outside_tmp_chain [OF assms(1)] plain assms(7,8) by (auto simp: mkChain_outside)
  have ne: "?c \<noteq> tmpPath env f" if "plainName f" for f using cache_not_tmp [OF assms(1) plain that] .
  have dirs: "isDir ?fs (pathDir (tmpPath env u))" "isDir ?fs (pathDir ?c)"
    using assms(5,6) u plain by (simp_all add: pathDir_paths [OF assms(1)] isDir_mkChain mkdirAll_isDir)
  have ok: "request env ev t = (Ok (), t\<lparr>hist := hist t @ [ev]\<rparr>)" for ev t
    using assms(2) by (simp add: request_def)
  note io = bindG_def tryG_def returnG_def getW_def modifyFs_def modifyW_def answer_def ok
  obtain s2 where s2: "osMkdirAll env (tmpDir env) s = (Ok (), s2)" "wfs s2 = ?fs"
    using assms(6) by (simp add: osMkdirAll_def io)
  obtain i s3 where s3: "osCreate env (tmpPath env u) s2 = (Ok i, s3)"
    "wfs s3 = newInode (tmpPath env u) (perm 6 6 6) ?fs" "i = nextIno ?fs"
    using new(2) [OF u] dirs(1)
    by (simp add: osCreate_def openTrunc_def lookup_paths(2) [OF assms(1) u] s2(2) io)
  let ?s4 = "s3\<lparr>hist := hist s3 @ [EvHttpGet (cf_Uri input)]\<rparr>"
  obtain s5 where s5: "ioCopy env i body ?s4 = (Ok (), s5)" "wfs s5 = setContent i body (wfs s3)"
    by (simp add: ioCopy_def io s3(2,3) newInode_def setContent_def)
  have tmp5: "names (wfs s5) (tmpPath env u) = Some (File i)" "content (wfs s5) i = body"
    by (simp_all add: s5(2) s3(2,3) setContent_def newInode_def bindName_def clean_paths(2) [OF assms(1) u])
  obtain s6 where s6: "sha256Sum env (tmpPath env u) s5 = (Ok (cf_Sha256Sum input), s6)" "wfs s6 = wfs s5"
    using tmp5 assms(4)
    by (simp add: sha256Sum_def osOpen_def ioReadAll_def lookup_paths(2) [OF assms(1) u] io)
  have c6: "names (wfs s6) ?c = None" "isDir (wfs s6) (pathDir ?c)"
    using new(1) new(2) [OF u] dirs(2) ne [OF u]
    by (auto simp: s6(2) s5(2) s3(2) setContent_def newInode_def bindName_def clean_paths(2) [OF assms(1) u]
        isDir_def lookupPath_def split: if_splits)
  obtain t where t: "storeInput env input (tmpPath env u) ?c (cf_Sha256Sum input) s6 = (Ok (), t)"
    "wfs t = bindName ?c (Some (File i)) (bindName (tmpPath env u) None (wfs s6))"
    using c6 tmp5(1) s6(2)
    by (simp add: storeInput_def osStat_def osRename_def failG_def lookup_paths [OF assms(1) plain]
        lookup_paths(2) [OF assms(1) u] io)
  have "downloadInput env input u ?c s = (Ok (), t)"
    by (simp add: downloadInput_def dlFile_eq [OF assms(1) u] Let_def bindG_def s2(1) s3(1)
        httpGet_def answer_def assms(3) s5(1) s6(1) t(1))
  moreover have "names (wfs t) (tmpPath env f) = None" if "plainName f" for f
    using new(2) [OF that] ne [OF that]
    by (auto simp: t(2) s6(2) s5(2) s3(2) setContent_def newInode_def bindName_def clean_paths [OF assms(1)] u plain)
  ultimately show ?thesis
    using tmp5(2) s6(2) by (auto simp: t(2) bindName_def clean_paths(1) [OF assms(1) plain])
qed

text \<open>
  C17: when nothing fails, the server answers with the expected content and the cache
  directory exists, the call succeeds and the content is stored under its sum, with no
  temporary file left behind.
\<close>

theorem cacheInput_success:
  assumes "envOk env" and "\<forall>h ev. e_fault env h ev = None"
    and "\<forall>h. e_http env h (cf_Uri input) = Response body"
    and "hexString (e_sha256 env body) = cf_Sha256Sum input"
    and "isDir (wfs s) (pathJoin [cacheDir env, ''cache''])"
    and "snd (mkChain (dirChain (tmpDir env)) (wfs s))"
    and "names (wfs s) (cachePath env (cf_Sha256Sum input)) = None"
    and "\<forall>f. plainName f \<longrightarrow> names (wfs s) (tmpPath env f) = None"
  shows "\<exists>t i. cacheInput env input s = (Ok (), t) \<and>
    names (wfs t) (cachePath env (cf_Sha256Sum input)) = Some (File i) \<and> content (wfs t) i = body \<and>
    (\<forall>f. plainName f \<longrightarrow> names (wfs t) (tmpPath env f) = None)"
proof -
  let ?c = "cachePath env (cf_Sha256Sum input)" and ?s1 = "s\<lparr>hist := hist s @ [EvUuid, EvStat (cachePath env (cf_Sha256Sum input))]\<rparr>"
  have u: "plainName (e_uuid env (hist s))" and plain: "plainName (cf_Sha256Sum input)"
    using assms(1) plain_hexString [of "e_sha256 env body"] unfolding assms(4) by (auto simp: envOk_def)
  have dest: "pathJoin [cacheDir env, ''cache'', cf_Sha256Sum input] = ?c"
    using assms(1) plain by (rule destFile_eq)
  have "cacheInput env input s = downloadInput env input (e_uuid env (hist s)) ?c ?s1"
    using assms(2,7)
    by (simp add: cacheInput_def dest osStat_def failG_def lookup_paths(1) [OF assms(1) plain] Let_def bindG_def tryG_def
        returnG_def getW_def answer_def request_def)
  with downloadInput_stores [of env input body ?s1, OF assms(1-4) _ _ _ _ u plain] assms(5-8) show ?thesis by simp
qed

lemma cacheInput_success_witness:
  "\<exists>t i. cacheInput calmEnv (sampleInput (hexString (e_sha256 calmEnv ''u''))) cacheOnly = (Ok (), t) \<and>
     names (wfs t) (cachePath calmEnv (hexString (e_sha256 calmEnv ''u''))) = Some (File i) \<and>
     content (wfs t) i = ''u''"
proof -
  let ?in = "sampleInput (hexString (e_sha256 calmEnv ''u''))"
  have len: "length (parts p) = 4" if "p = ''/h/.cache/shenanigans/cache''" for p
    unfolding that by code_simp
  have h: "parts (e_cacheHome calmEnv) = [''h'', ''.cache'']" by code_simp
  have plain: "plainName (cf_Sha256Sum ?in)" by code_simp
  have "\<forall>h ev. e_fault calmEnv h ev = None" "\<forall>h. e_http calmEnv h (cf_Uri ?in) = Response ''u''"
    "hexString (e_sha256 calmEnv ''u'') = cf_Sha256Sum ?in"
    by (simp_all add: calmEnv_def sampleInput_def)
  moreover have "isDir (wfs cacheOnly) (pathJoin [cacheDir calmEnv, ''cache''])" by code_simp
  moreover have "snd (mkChain (dirChain (tmpDir calmEnv)) (wfs cacheOnly))" by code_simp
  moreover have "names (wfs cacheOnly) (cachePath calmEnv (cf_Sha256Sum ?in)) = None"
    using len parts_paths(1) [OF envOk_calm(1) plain] by (auto simp: cacheOnly_def emptyWorld_def h)
  moreover have "\<forall>f. plainName f \<longrightarrow> names (wfs cacheOnly) (tmpPath calmEnv f) = None"
  proof (intro allI impI)
    fix f assume "plainName f"
    then have "length (parts (tmpPath calmEnv f)) = 6" by (simp add: parts_paths(2) [OF envOk_calm(1)] h)
    then have "tmpPath calmEnv f \<noteq> ''/h/.cache/shenanigans/cache''" using len by fastforce
    then show "names (wfs cacheOnly) (tmpPath calmEnv f) = None" by (simp add: cacheOnly_def emptyWorld_def)
  qed
  ultimately have "\<exists>t i. cacheInput calmEnv ?in cacheOnly = (Ok (), t) \<and>
    names (wfs t) (cachePath calmEnv (cf_Sha256Sum ?in)) = Some (File i) \<and> content (wfs t) i = ''u'' \<and>
    (\<forall>f. plainName f \<longrightarrow> names (wfs t) (tmpPath calmEnv f) = None)"
    by (rule cacheInput_success [OF envOk_calm(1)])
  then show ?thesis by (auto simp: sampleInput_def)
qed

text \<open>
  C19: a network failure is never reported as an error: whenever the file was requested and the
  answer was an error without a response, the process panics.
\<close>

theorem cacheInput_network_error_panics:
  assumes "\<forall>h. \<exists>e. e_http env h (cf_Uri input) = NilResponse e"
    and "cacheInput env input s = (r, t)"
    and "EvHttpGet (cf_Uri input) \<in> set (drop (length (hist s)) (hist t))"
  shows "\<exists>p. r = Panic p"
proof -
  obtain f where "e_http env h (cf_Uri input) = NilResponse (f h)" for h
    using assms(1) choice [of "\<lambda>h e. e_http env h (cf_Uri input) = NilResponse e"] by auto
  with assms(2,3) show ?thesis
    by (auto simp: cacheInput_def downloadInput_def httpGet_def osStat_def osCreate_def osMkdirAll_def
        bindG_def tryG_def go_defs Let_def
        split: option.splits entry.splits sum.splits goerr.splits if_splits)
qed

lemma cacheInput_network_error_panics_witness:
  "\<exists>p. fst (cacheInput (calmEnv\<lparr>e_http := \<lambda>_ _. NilResponse (Fail ''refused'')\<rparr>) (sampleInput ''abc'') emptyWorld) = Panic p"
proof -
  let ?env = "calmEnv\<lparr>e_http := \<lambda>_ _. NilResponse (Fail ''refused'')\<rparr>"
  have "EvHttpGet (cf_Uri (sampleInput ''abc''))
      \<in> set (drop (length (hist emptyWorld)) (hist (snd (cacheInput ?env (sampleInput ''abc'') emptyWorld))))"
    by code_simp
  moreover have "\<forall>h. \<exists>e. e_http ?env h (cf_Uri (sampleInput ''abc'')) = NilResponse e" by simp
  ultimately show ?thesis by (metis cacheInput_network_error_panics surjective_pairing)
qed

text \<open>
  A failing rename is not noticed: there is a run in which the call succeeds although
  nothing is stored under the sum.
\<close>

theorem cacheInput_rename_unnoticed:
  "\<exists>env s input. envOk env \<and> fst (cacheInput env input s) = Ok () \<and>
     lookupPath (wfs (snd (cacheInput env input s)))
       (pathJoin [cacheDir env, ''cache'', cf_Sha256Sum input]) = None"
proof (intro exI conjI)
  let ?env = "calmEnv\<lparr>e_fault := \<lambda>_ ev. (case ev of EvRename _ _ \<Rightarrow> Some (Fail ''cross-device link'') | _ \<Rightarrow> None)\<rparr>"
  let ?in = "sampleInput (hexString (e_sha256 calmEnv ''u''))"
  let ?dest = "pathJoin [cacheDir ?env, ''cache'', cf_Sha256Sum ?in]"
  have "case cacheInput ?env ?in cacheOnly of (r, t) \<Rightarrow> r = Ok () \<and> lookupPath (wfs t) ?dest = None" by code_simp
  then show "fst (cacheInput ?env ?in cacheOnly) = Ok ()"
    and "lookupPath (wfs (snd (cacheInput ?env ?in cacheOnly))) ?dest = None" by (simp_all add: case_prod_unfold)
  show "envOk ?env" by (rule envOk_calm)
qed

end
