(* ===== verification/Filecache_Cleanup.thy ===== *)
theory Filecache_Cleanup
  imports Filecache
begin

text \<open>
  \<open>CleanupCache\<close> of \<open>src/pkg/filecache/filecache.go\<close>, which the signal handler of the program
  calls: it removes the directory of this process below \<open>tmp\<close>. The lemmas show what it can and
  cannot touch.
\<close>

definition cleanupCache :: "env \<Rightarrow> unit io" where
  "cleanupCache env = osRemoveAll env (tmpDir env)"

section \<open>Names below a directory\<close>

lemma splitOn_absPath:
  "cs \<noteq> [] \<Longrightarrow> \<forall>c\<in>set cs. plainName c \<Longrightarrow> splitOn CHR ''/'' (absPath cs) = [] # cs"
  by (simp add: absPath_def render_def splitOn_joinWith_plain)

lemma under_absPath:
  assumes "cs \<noteq> []" and "\<forall>c\<in>set cs. plainName c" and "ds \<noteq> []" and "\<forall>c\<in>set ds. plainName c"
  shows "under (absPath cs) (absPath ds) \<longleftrightarrow> prefix cs ds"
proof
  assume "under (absPath cs) (absPath ds)"
  then consider "absPath ds = absPath cs" | rest where "absPath ds = absPath cs @ CHR ''/'' # rest"
    by (auto simp: under_def clean_absPath [OF assms(2)] prefix_def)
  then show "prefix cs ds"
  proof cases
    case 1
    then show ?thesis using absPath_inj [OF assms(4,2)] by simp
  next
    case 2
    then have "[] # ds = ([] # cs) @ splitOn CHR ''/'' rest"
      by (metis splitOn_absPath assms splitOn_append)
    then show ?thesis by (simp add: prefix_def)
  qed
next
  assume "prefix cs ds"
  then obtain es where ds: "ds = cs @ es" by (auto simp: prefix_def)
  show "under (absPath cs) (absPath ds)"
  proof (cases "es = []")
    case False
    then have "absPath ds = absPath cs @ CHR ''/'' # joinWith ''/'' es"
      using assms(1) by (simp add: ds absPath_def render_def joinWith_append)
    then show ?thesis by (simp add: under_def clean_absPath [OF assms(2)] prefix_def)
  qed (simp add: ds under_def clean_absPath [OF assms(2)])
qed

lemma under_tmpDir:
  assumes "envOk env" and "plainName n"
  shows "\<not> under (tmpDir env) (cachePath env n)" and "under (tmpDir env) (tmpPath env n)"
proof -
  let ?t = "parts (e_cacheHome env) @ [''shenanigans'', ''tmp'', showNat (e_pid env)]"
  have t: "?t \<noteq> []" "\<forall>c\<in>set ?t. plainName c" using assms(1) by (auto dest: home_plain)
  have c: "\<forall>c\<in>set (parts (e_cacheHome env) @ [''shenanigans'', ''cache'', n]). plainName c"
    and d: "\<forall>c\<in>set (parts (e_cacheHome env) @ [''shenanigans'', ''tmp'', showNat (e_pid env), n]). plainName c"
    using assms by (auto dest: home_plain)
  show "\<not> under (tmpDir env) (cachePath env n)"
    unfolding tmpDir_eq [OF assms(1)] cachePath_def by (subst under_absPath [OF t _ c]) simp_all
  show "under (tmpDir env) (tmpPath env n)"
    unfolding tmpDir_eq [OF assms(1)] tmpPath_def by (subst under_absPath [OF t _ d]) simp_all
qed

lemma removeAll_names:
  assumes "osRemoveAll env p s = (r, t)"
  shows "\<not> under p n \<Longrightarrow> names (wfs t) n = names (wfs s) n"
    and "r = Ok () \<Longrightarrow> under p n \<Longrightarrow> names (wfs t) n = None"
    and "content (wfs t) = content (wfs s)"
  using assms by (auto simp: osRemoveAll_def bindG_def tryG_def go_defs dropNames_def split: option.splits)

section \<open>Properties\<close>

text \<open>
  C28: cleaning up removes every download of this process and leaves the finished files of the
  cache alone, also when the removal stops half-way.
\<close>

theorem cleanupCache_scope:
  assumes "envOk env" and "cleanupCache env s = (r, t)" and "plainName n"
  shows "names (wfs t) (cachePath env n) = names (wfs s) (cachePath env n) \<and>
    content (wfs t) = content (wfs s) \<and> (r = Ok () \<longrightarrow> names (wfs t) (tmpPath env n) = None)"
  using removeAll_names [OF assms(2) [unfolded cleanupCache_def]] under_tmpDir [OF assms(1,3)] by blast

definition halfLoaded :: world where
  "halfLoaded = emptyWorld\<lparr>wfs := (wfs emptyWorld)\<lparr>names := [tmpPath calmEnv ''u-1'' \<mapsto> File 0]\<rparr>\<rparr>"

theorem cleanupCache_scope_witness:
  "\<exists>t. cleanupCache calmEnv halfLoaded = (Ok (), t) \<and> names (wfs t) (tmpPath calmEnv ''u-1'') = None"
proof -
  obtain t where t: "cleanupCache calmEnv halfLoaded = (Ok (), t)"
    by (simp add: cleanupCache_def osRemoveAll_def bindG_def tryG_def go_defs calmEnv_def)
  moreover have "plainName ''u-1''" by (simp add: plainName_def)
  ultimately show ?thesis using cleanupCache_scope [OF envOk_calm(1) t] by blast
qed

end
