(* ===== verification/Filecache_Signals.thy ===== *)
theory Filecache_Signals
  imports Filecache_Cleanup
begin

text \<open>
  The signal handlers of \<open>src/pkg/filecache/filecache.go\<close> and \<open>src/pkg/universe/universe.go\<close>, which
  run beside the downloads. Every call of \<open>TmpDir\<close> starts a goroutine that waits for a signal and
  removes the directory if it is empty; the universe starts one that calls \<open>CleanupCache\<close>. None of
  them ends the process. Which handlers run between two calls of the downloading code is the
  schedule \<open>sig\<close>, a function of what has happened so far; the functions below are those of
  \<open>Filecache\<close> with such a point after every call; the calls themselves are not interrupted. A
  schedule may run any handler any number of times, which includes every number of signals and of
  calls of \<open>TmpDir\<close>.

  Two results: no schedule spoils the cache, because nothing a handler does changes a content or
  adds a name; and a schedule can lose a download although every call succeeds.
\<close>

section \<open>Handlers\<close>

datatype handler = CleanupHandler | TmpDirHandler

text \<open>\<open>os.Remove\<close> of a directory: whether it is empty is for the environment to say.\<close>

definition osRemoveDir :: "env \<Rightarrow> string \<Rightarrow> unit io" where
  "osRemoveDir env d =
     bindG (request env (EvRemove d)) (\<lambda>_.
     bindG getW (\<lambda>w.
     if lookupPath (wfs w) d = None then failG NotExist
     else modifyFs (dropNames (\<lambda>n. n = pathClean d))))"

definition runHandler :: "env \<Rightarrow> handler \<Rightarrow> unit io" where
  "runHandler env h = (case h of CleanupHandler \<Rightarrow> cleanupCache env | TmpDirHandler \<Rightarrow> osRemoveDir env (tmpDir env))"

text \<open>The handlers of this moment; nobody looks at what they return.\<close>

definition signals :: "env \<Rightarrow> (event list \<Rightarrow> handler list) \<Rightarrow> unit io" where
  "signals env sig = bindG getW (\<lambda>w. forG (sig (hist w)) (\<lambda>h _. bindG (tryG (runHandler env h)) (\<lambda>_. returnG ())) ())"

definition bindS :: "env \<Rightarrow> (event list \<Rightarrow> handler list) \<Rightarrow> 'a io \<Rightarrow> ('a \<Rightarrow> 'b io) \<Rightarrow> 'b io" where
  "bindS env sig m k = bindG m (\<lambda>a. bindG (signals env sig) (\<lambda>_. k a))"

section \<open>Downloading with signals\<close>

definition sha256SumS :: "env \<Rightarrow> (event list \<Rightarrow> handler list) \<Rightarrow> string \<Rightarrow> string io" where
  "sha256SumS env sig path =
     bindS env sig (osOpen env path) (\<lambda>f.
     bindS env sig (ioReadAll env f) (\<lambda>data.
     returnG (hexString (e_sha256 env data))))"

definition storeInputS ::
  "env \<Rightarrow> (event list \<Rightarrow> handler list) \<Rightarrow> CachedFile \<Rightarrow> string \<Rightarrow> string \<Rightarrow> string \<Rightarrow> unit io" where
  "storeInputS env sig input dlFile destFile dlSum =
     (if dlSum = cf_Sha256Sum input then
        bindS env sig (tryG (osStat env destFile)) (\<lambda>err.
        if err = Inl NotExist then
          bindS env sig (tryG (osRename env dlFile destFile)) (\<lambda>_. returnG ())
        else returnG ())
      else
        bindS env sig (tryG (osRemove env dlFile)) (\<lambda>_.
        bindS env sig (answer (\<lambda>_. ()) (EvFatal (cf_Uri input))) (\<lambda>_.
        exitG 1)))"

definition downloadInputS ::
  "env \<Rightarrow> (event list \<Rightarrow> handler list) \<Rightarrow> CachedFile \<Rightarrow> string \<Rightarrow> string \<Rightarrow> unit io" where
  "downloadInputS env sig input dlUuid destFile =
     bindS env sig (osMkdirAll env (tmpDir env)) (\<lambda>_.
     let dlFile = pathJoin [tmpDir env, dlUuid] in
     bindS env sig (osCreate env dlFile) (\<lambda>out.
     bindS env sig (httpGet env (cf_Uri input)) (\<lambda>resp.
     (case resp of
        NilResponse err \<Rightarrow> panicG ''nil pointer dereference''
      | ClosedResponse err \<Rightarrow> failG err
      | Response body \<Rightarrow>
          bindS env sig (ioCopy env out body) (\<lambda>_.
          bindG (sha256SumS env sig dlFile) (\<lambda>dlSum.
          storeInputS env sig input dlFile destFile dlSum))))))"

definition cacheInputS :: "env \<Rightarrow> (event list \<Rightarrow> handler list) \<Rightarrow> CachedFile \<Rightarrow> unit io" where
  "cacheInputS env sig input =
     bindS env sig (answer (e_uuid env) EvUuid) (\<lambda>dlUuid.
     let destFile = pathJoin [cacheDir env, ''cache'', cf_Sha256Sum input] in
     bindS env sig (tryG (osStat env destFile)) (\<lambda>r.
     (case r of
        Inl NotExist \<Rightarrow> downloadInputS env sig input dlUuid destFile
      | Inl (Fail _) \<Rightarrow> panicG ''nil pointer dereference''
      | Inr sz \<Rightarrow> (if sz \<noteq> 0 then returnG () else returnG ()))))"

text \<open>Without signals this is \<open>CacheInput\<close>.\<close>

lemma bindS_quiet [simp]: "bindS env (\<lambda>_. []) m k = bindG m k"
  by (simp add: bindS_def signals_def bindG_def getW_def returnG_def fun_eq_iff split: outcome.split prod.split)

lemma cacheInputS_quiet: "cacheInputS env (\<lambda>_. []) input = cacheInput env input"
proof -
  have store: "storeInputS env (\<lambda>_. []) = storeInput env"
    by (intro ext) (simp add: storeInputS_def storeInput_def cong: if_cong)
  show ?thesis
    by (simp add: cacheInputS_def cacheInput_def downloadInputS_def downloadInput_def sha256SumS_def sha256Sum_def store)
qed

section \<open>Handlers only remove names\<close>

lemma dropNames_False [simp]: "dropNames (\<lambda>_. False) fs = fs"
  by (simp add: dropNames_def)

lemma dropNames_twice: "dropNames P (dropNames R fs) = dropNames (\<lambda>n. P n \<or> R n) fs"
  by (rule fsys.equality) (auto simp: dropNames_def)

lemma names_drop: "names (dropNames P fs) n = (if P n then None else names fs n)"
  by (simp add: dropNames_def)

definition thinned :: "world \<Rightarrow> world \<Rightarrow> bool" where
  "thinned s t \<longleftrightarrow> (\<exists>P. wfs t = dropNames P (wfs s))"

interpretation thin: step_rel thinned
  by unfold_locales (auto simp: thinned_def dropNames_twice intro: exI [of _ "\<lambda>_. False"])

lemma thinned_same: "wfs t = wfs s \<Longrightarrow> thinned s t"
  by (auto simp: thinned_def intro: exI [of _ "\<lambda>_. False"])

lemma thinned_requests: "within thinned (request env ev)" "within thinned getW" "within thinned (modifyFs (dropNames P))"
  by (auto simp: within_def request_def getW_def modifyFs_def modifyW_def thinned_def intro: exI [of _ "\<lambda>_. False"])

lemma thinned_handler: "within thinned (runHandler env h)"
  unfolding runHandler_def cleanupCache_def osRemoveAll_def osRemoveDir_def
  by (cases h) (auto intro!: thin.within_intros thinned_requests split: sum.split)

lemma thinned_signals: "within thinned (signals env sig)"
  unfolding signals_def by (intro thin.within_intros thinned_requests thinned_handler)

lemma bindS_assoc: "bindG (bindS env sig m f) k = bindS env sig m (\<lambda>a. bindG (f a) k)"
  by (simp add: bindS_def bindG_assoc)

lemma wp_bindS:
  assumes "wp m (\<lambda>a t. \<forall>t'. thinned t t' \<longrightarrow> wp (k a) Q E t' \<and> E t') E s"
  shows "wp (bindS env sig m k) Q E s"
  unfolding bindS_def
  by (rule wp_bind, rule wp_weaken [OF assms], rule wp_bind, rule wp_within [OF thinned_signals]) auto

lemma runHandler_returns: "wp (tryG (runHandler env h)) (\<lambda>_ t. thinned s t) (\<lambda>_. False) s"
  using withinD [OF thinned_handler, of env h s]
  by (cases "runHandler env h s") (auto simp: runHandler_def cleanupCache_def osRemoveAll_def osRemoveDir_def wp_def bindG_def tryG_def go_defs
      split: handler.splits option.splits if_splits outcome.splits)

text \<open>The handlers of one moment never stop the caller.\<close>

lemma signals_return: "wp (signals env sig) (\<lambda>_ t. thinned s t) (\<lambda>_. False) s"
proof -
  have "wp (forG hs (\<lambda>h _. bindG (tryG (runHandler env h)) (\<lambda>_. returnG ())) ()) (\<lambda>_ t. thinned s t) (\<lambda>_. False) s" for hs
  proof (rule wp_for [where I = "\<lambda>_ _ t. thinned s t"])
    fix h a t assume "thinned s t"
    then show "wp (bindG (tryG (runHandler env h)) (\<lambda>_. returnG ())) (\<lambda>_ t. thinned s t) (\<lambda>_. False) t"
      by (intro wp_bind wp_weaken [OF runHandler_returns] wp_return) (auto intro: thin.trans_R)
  qed (simp add: thin.refl_R)
  then show ?thesis unfolding signals_def by (auto simp: wp_def bindG_def getW_def)
qed

text \<open>When the clean-up is one of them and the system lets it, the downloads of this process are gone.\<close>

lemma signals_clean:
  assumes "envOk env" and ok: "\<forall>h ev. e_fault env h ev = None" and "plainName u" and c: "CleanupHandler \<in> set (sig (hist s))"
  shows "wp (signals env sig) (\<lambda>_ t. thinned s t \<and> names (wfs t) (tmpPath env u) = None) (\<lambda>_. False) s"
proof -
  let ?I = "\<lambda>done t. thinned s t \<and> (CleanupHandler \<in> set done \<longrightarrow> names (wfs t) (tmpPath env u) = None)"
  have clean: "wp (tryG (runHandler env CleanupHandler)) (\<lambda>_ v. names (wfs v) (tmpPath env u) = None) (\<lambda>_. False) t" for t
    using ok under_tmpDir(2) [OF assms(1,3)]
    by (simp add: runHandler_def cleanupCache_def osRemoveAll_def wp_def bindG_def tryG_def go_defs dropNames_def)
  have "wp (forG (sig (hist s)) (\<lambda>h _. bindG (tryG (runHandler env h)) (\<lambda>_. returnG ())) ())
      (\<lambda>_ t. thinned s t \<and> names (wfs t) (tmpPath env u) = None) (\<lambda>_. False) s"
  proof (rule wp_for [where I = "\<lambda>done _. ?I done"])
    fix "done" h a t assume t: "?I done t"
    have "wp (tryG (runHandler env h)) (\<lambda>_. ?I (done @ [h])) (\<lambda>_. False) t"
    proof (cases h)
      case CleanupHandler
      show ?thesis
        using wp_conj [OF runHandler_returns [of env h t] clean [of t, folded CleanupHandler]]
        by (rule wp_weaken) (use t in \<open>auto intro: thin.trans_R\<close>)
    next
      case TmpDirHandler
      show ?thesis
        by (rule wp_weaken [OF runHandler_returns]) (use t TmpDirHandler in \<open>auto simp: thinned_def names_drop dropNames_twice\<close>)
    qed
    then show "wp (bindG (tryG (runHandler env h)) (\<lambda>_. returnG ())) (\<lambda>_. ?I (done @ [h])) (\<lambda>_. False) t"
      by (rule wp_bind [OF wp_weaken]) (auto intro: wp_return)
  qed (use c in \<open>auto intro: thin.refl_R\<close>)
  then show ?thesis unfolding signals_def by (auto simp: wp_def bindG_def getW_def)
qed

section \<open>The invariant under signals\<close>

text \<open>
  The inode of the download has no name but the temporary one, and that one may be gone.
\<close>

definition pending :: "env \<Rightarrow> string \<Rightarrow> nat \<Rightarrow> fsys \<Rightarrow> bool" where
  "pending env u i fs \<longleftrightarrow> fsInv env fs \<and> names fs (tmpPath env u) \<in> {None, Some (File i)} \<and>
     (\<forall>p. names fs p = Some (File i) \<longrightarrow> p = tmpPath env u)"

lemma fsInv_drop: "fsInv env fs \<Longrightarrow> fsInv env (dropNames P fs)"
  unfolding fsInv_def dropNames_def by (auto split: if_splits)

lemma pending_drop: "pending env u i fs \<Longrightarrow> pending env u i (dropNames P fs)"
  by (auto simp: pending_def names_drop fsInv_drop split: if_splits)

lemma cacheInv_thinned: "cacheInv env s \<Longrightarrow> thinned s t \<Longrightarrow> cacheInv env t"
  by (auto simp: cacheInv_def thinned_def fsInv_drop)

lemma pending_thinned:
  "pending env u i (wfs s) \<Longrightarrow> thinned s t \<Longrightarrow> pending env u i (wfs t) \<and> content (wfs t) = content (wfs s)"
  by (auto simp: thinned_def pending_drop) (simp add: dropNames_def)

lemma pending_owned: "fsInv env fs \<Longrightarrow> plainName u \<Longrightarrow> owned env u i fs \<Longrightarrow> pending env u i fs"
  unfolding pending_def fsInv_def owned_def by blast

lemma pending_write:
  assumes "envOk env" and "plainName u" and "pending env u i fs"
  shows "pending env u i (setContent i d fs)"
proof -
  have "j \<noteq> i" if "plainName s" "names fs (cachePath env s) = Some (File j)" for s j
    using assms(3) that cache_not_tmp [OF assms(1) that(1) assms(2)] by (auto simp: pending_def)
  with assms(3) show ?thesis by (fastforce simp: pending_def fsInv_def setContent_def)
qed

text \<open>A step that ends with the invariant, seen by the handlers.\<close>

lemma wp_bindS_inv:
  assumes "wp m (\<lambda>a t. cacheInv env t \<and> R a (wfs t)) (cacheInv env) s"
    and "\<And>a t. cacheInv env t \<Longrightarrow> R a (wfs t) \<Longrightarrow> wp (k a) (\<lambda>_. cacheInv env) (cacheInv env) t"
    and "\<And>a fs P. R a fs \<Longrightarrow> R a (dropNames P fs)"
  shows "wp (bindS env sig m k) (\<lambda>_. cacheInv env) (cacheInv env) s"
proof (rule wp_bindS, rule wp_weaken [OF assms(1)])
  fix a t assume t: "cacheInv env t \<and> R a (wfs t)"
  show "\<forall>t'. thinned t t' \<longrightarrow> wp (k a) (\<lambda>_. cacheInv env) (cacheInv env) t' \<and> cacheInv env t'"
  proof (intro allI impI)
    fix t' assume t': "thinned t t'"
    then have "R a (wfs t')" using t assms(3) by (auto simp: thinned_def)
    with t t' show "wp (k a) (\<lambda>_. cacheInv env) (cacheInv env) t' \<and> cacheInv env t'"
      by (auto intro: assms(2) cacheInv_thinned)
  qed
qed

lemma storeInputS_inv:
  assumes inv: "cacheInv env s" and u: "plainName u" and p: "pending env u i (wfs s)"
    and d: "destFile = pathJoin [cacheDir env, ''cache'', cf_Sha256Sum input]"
    and sum: "dlSum = hexString (e_sha256 env (content (wfs s) i))"
  shows "wp (storeInputS env sig input (tmpPath env u) destFile dlSum) (\<lambda>_. cacheInv env) (cacheInv env) s"
proof -
  let ?I = "\<lambda>fs. pending env u i fs \<and> dlSum = hexString (e_sha256 env (content fs i))"
  have e: "envOk env" using inv by (simp add: cacheInv_def)
  have drop: "?I (dropNames P fs)" if "?I fs" for P fs
    using that pending_drop by (simp add: dropNames_def)
  have same: "cacheInv env t \<and> ?I (wfs t)" if "wfs t = wfs v" "cacheInv env v" "?I (wfs v)" for t v
    using that by (simp add: cacheInv_def)
  have rename: "wp (osRename env (tmpPath env u) destFile) (\<lambda>_. cacheInv env) (cacheInv env) v"
    if "cacheInv env v" "?I (wfs v)" "dlSum = cf_Sha256Sum input" for v
  proof -
    have plain: "plainName (cf_Sha256Sum input)"
      using that(2,3) e plain_hexString by (metis envOk_def)
    then have dest: "destFile = cachePath env (cf_Sha256Sum input)" using e d by (simp add: destFile_eq)
    show ?thesis
      unfolding dest
    proof (rule wp_osRename)
      fix j and t :: world
      assume "lookupPath (wfs v) (tmpPath env u) = Some (File j)"
        and t: "wfs t = bindName (cachePath env (cf_Sha256Sum input)) (Some (File j)) (bindName (tmpPath env u) None (wfs v))"
      then have j: "names (wfs v) (tmpPath env u) = Some (File j)" by (simp add: lookup_paths(2) [OF e u])
      moreover from j that(2) have "j = i" unfolding pending_def by auto
      moreover have "fsInv env (wfs v)" using that(1) by (simp add: cacheInv_def)
      ultimately show "cacheInv env t"
        using fsInv_rename [OF e _ u plain j] that(2,3) by (simp add: cacheInv_def e t)
    next
      fix t :: world assume "wfs t = wfs v"
      with that(1) show "cacheInv env t" by (simp add: cacheInv_def)
    qed
  qed
  have remove: "wp (osRemove env (tmpPath env u)) (\<lambda>_. cacheInv env) (cacheInv env) s"
    by (rule wp_osRemove) (use inv u e in \<open>auto simp: cacheInv_def intro: fsInv_remove\<close>)
  show ?thesis
    unfolding storeInputS_def
  proof (intro wp_if)
    assume eq: "dlSum = cf_Sha256Sum input"
    show "wp (bindS env sig (tryG (osStat env destFile)) (\<lambda>err.
        if err = Inl NotExist then bindS env sig (tryG (osRename env (tmpPath env u) destFile)) (\<lambda>_. returnG ())
        else returnG ())) (\<lambda>_. cacheInv env) (cacheInv env) s"
    proof (rule wp_bindS_inv [where R = "\<lambda>_. ?I"])
      show "wp (tryG (osStat env destFile)) (\<lambda>_ t. cacheInv env t \<and> ?I (wfs t)) (cacheInv env) s"
        by (intro wp_try wp_osStat) (use same [OF _ inv] p sum in auto)
    next
      fix err v assume v: "cacheInv env v" "?I (wfs v)"
      show "wp (if err = Inl NotExist then bindS env sig (tryG (osRename env (tmpPath env u) destFile)) (\<lambda>_. returnG ())
          else returnG ()) (\<lambda>_. cacheInv env) (cacheInv env) v"
        by (intro wp_if wp_return v(1) wp_bindS_inv [where R = "\<lambda>_ _. True"] wp_try)
          (auto intro: wp_weaken [OF rename [OF v eq]])
    qed (use drop in blast)
  next
    have gone: "wp (bindS env sig (answer (\<lambda>_. ()) ev) (\<lambda>_. exitG n)) (\<lambda>_. cacheInv env) (cacheInv env) v"
      if "cacheInv env v" for v ev n
      by (rule wp_bindS_inv [where R = "\<lambda>_ _. True"], rule wp_answer, use that in \<open>simp add: cacheInv_def\<close>) (auto intro: wp_exit)
    show "wp (bindS env sig (tryG (osRemove env (tmpPath env u))) (\<lambda>_.
        bindS env sig (answer (\<lambda>_. ()) (EvFatal (cf_Uri input))) (\<lambda>_. exitG 1))) (\<lambda>_. cacheInv env) (cacheInv env) s"
      by (rule wp_bindS_inv [where R = "\<lambda>_ _. True"], rule wp_try, rule wp_weaken [OF remove]) (auto intro: gone)
  qed
qed

lemma sha256SumS_inv:
  assumes inv: "cacheInv env s" and u: "plainName u" and p: "pending env u i (wfs s)"
    and k: "\<And>sum t. cacheInv env t \<Longrightarrow> pending env u i (wfs t) \<Longrightarrow> sum = hexString (e_sha256 env (content (wfs t) i)) \<Longrightarrow>
      wp (k sum) (\<lambda>_. cacheInv env) (cacheInv env) t"
  shows "wp (bindG (sha256SumS env sig (tmpPath env u)) k) (\<lambda>_. cacheInv env) (cacheInv env) s"
proof -
  have e: "envOk env" using inv by (simp add: cacheInv_def)
  have i: "f = File i" if "lookupPath (wfs s) (tmpPath env u) = Some f" for f
    using that p by (auto simp: pending_def lookup_paths(2) [OF e u])
  show ?thesis
    unfolding sha256SumS_def bindS_assoc bindG_return
  proof (rule wp_bindS_inv [where R = "\<lambda>f fs. f = File i \<and> pending env u i fs"])
    show "wp (osOpen env (tmpPath env u)) (\<lambda>a t. cacheInv env t \<and> a = File i \<and> pending env u i (wfs t)) (cacheInv env) s"
      by (rule wp_osOpen) (use inv p i in \<open>auto simp: cacheInv_def\<close>)
  next
    fix f t assume t: "cacheInv env t" "f = File i \<and> pending env u i (wfs t)"
    show "wp (bindS env sig (ioReadAll env f) (\<lambda>data. k (hexString (e_sha256 env data)))) (\<lambda>_. cacheInv env) (cacheInv env) t"
      by (rule wp_bindS_inv [where R = "\<lambda>d fs. d = content fs i \<and> pending env u i fs"], rule wp_ioReadAll)
        (use t pending_drop in \<open>auto simp: cacheInv_def dropNames_def intro!: wp_bind wp_return k\<close>)
  qed (use pending_drop in blast)
qed

text \<open>From the copy on: the descriptor stays that of inode \<open>i\<close>, whatever has happened to its name.\<close>

lemma downloadInputS_inv:
  assumes inv: "cacheInv env s" and u: "plainName u"
    and d: "destFile = pathJoin [cacheDir env, ''cache'', cf_Sha256Sum input]"
  shows "wp (downloadInputS env sig input u destFile) (\<lambda>_. cacheInv env) (cacheInv env) s"
proof -
  have e: "envOk env" using inv by (simp add: cacheInv_def)
  let ?P = "\<lambda>i _ fs. pending env u i fs"
  have body: "wp (case resp of NilResponse err \<Rightarrow> panicG p | ClosedResponse err \<Rightarrow> failG err
      | Response b \<Rightarrow> bindS env sig (ioCopy env i b) (\<lambda>_.
          bindG (sha256SumS env sig (tmpPath env u)) (\<lambda>dlSum. storeInputS env sig input (tmpPath env u) destFile dlSum)))
      (\<lambda>_. cacheInv env) (cacheInv env) t"
    if "cacheInv env t" "pending env u i (wfs t)" for resp p i t
  proof (cases resp)
    case (Response b)
    show ?thesis
      unfolding Response http_result.simps
    proof (rule wp_bindS_inv [where R = "?P i"])
      show "wp (ioCopy env i b) (\<lambda>_ t. cacheInv env t \<and> pending env u i (wfs t)) (cacheInv env) t"
        by (rule wp_ioCopy) (use pending_write [OF e u that(2)] e in \<open>auto simp: cacheInv_def pending_def\<close>)
    qed (auto intro: sha256SumS_inv u storeInputS_inv d pending_drop)
  qed (use that(1) in \<open>auto intro: wp_panic wp_fail\<close>)
  have made: "cacheInv env t \<and> pending env u i (wfs t)"
    if "cacheInv env v" "openTrunc (tmpPath env u) m (wfs v) = Inr (i, wfs t)" for v t m i
    using fsInv_create [OF e _ u that(2)] that(1) pending_owned u by (auto simp: cacheInv_def)
  show ?thesis
    unfolding downloadInputS_def Let_def dlFile_eq [OF e u] httpGet_def
  proof (rule wp_bindS_inv [where R = "\<lambda>_ _. True"])
    show "wp (osMkdirAll env (tmpDir env)) (\<lambda>_ t. cacheInv env t \<and> True) (cacheInv env) s"
      by (rule wp_osMkdirAll) (use inv in \<open>auto simp: cacheInv_def fsInv_mkChain\<close>)
  next
    fix v assume v: "cacheInv env v"
    show "wp (bindS env sig (osCreate env (tmpPath env u)) (\<lambda>out.
        bindS env sig (answer (\<lambda>h. e_http env h (cf_Uri input)) (EvHttpGet (cf_Uri input))) (\<lambda>resp.
        case resp of NilResponse err \<Rightarrow> panicG ''nil pointer dereference'' | ClosedResponse err \<Rightarrow> failG err
        | Response b \<Rightarrow> bindS env sig (ioCopy env out b) (\<lambda>_.
            bindG (sha256SumS env sig (tmpPath env u)) (\<lambda>dlSum. storeInputS env sig input (tmpPath env u) destFile dlSum)))))
        (\<lambda>_. cacheInv env) (cacheInv env) v"
    proof (rule wp_bindS_inv [where R = "\<lambda>i. pending env u i"])
      show "wp (osCreate env (tmpPath env u)) (\<lambda>i t. cacheInv env t \<and> pending env u i (wfs t)) (cacheInv env) v"
        by (rule wp_osCreate) (use made [OF v] v in \<open>auto simp: cacheInv_def\<close>)
    next
      fix i t assume t: "cacheInv env t" "pending env u i (wfs t)"
      show "wp (bindS env sig (answer (\<lambda>h. e_http env h (cf_Uri input)) (EvHttpGet (cf_Uri input))) (\<lambda>resp.
        case resp of NilResponse err \<Rightarrow> panicG ''nil pointer dereference'' | ClosedResponse err \<Rightarrow> failG err
        | Response b \<Rightarrow> bindS env sig (ioCopy env i b) (\<lambda>_.
            bindG (sha256SumS env sig (tmpPath env u)) (\<lambda>dlSum. storeInputS env sig input (tmpPath env u) destFile dlSum))))
        (\<lambda>_. cacheInv env) (cacheInv env) t"
        by (rule wp_bindS_inv [where R = "?P i"], rule wp_answer) (use t in \<open>auto simp: cacheInv_def pending_drop intro: body\<close>)
    qed (rule pending_drop)
  qed simp_all
qed

lemma cacheInputS_inv: "cacheInv env s \<Longrightarrow> wp (cacheInputS env sig input) (\<lambda>_. cacheInv env) (cacheInv env) s"
proof -
  assume inv: "cacheInv env s"
  have u: "plainName (e_uuid env h)" for h using inv by (simp add: cacheInv_def envOk_def)
  have look: "wp (tryG (osStat env p)) (\<lambda>_ t. cacheInv env t \<and> True) (cacheInv env) t" if "cacheInv env t" for p t
    by (intro wp_try wp_osStat) (use that in \<open>auto simp: cacheInv_def\<close>)
  show ?thesis
    unfolding cacheInputS_def Let_def
    by (rule wp_bindS_inv [where R = "\<lambda>a _. plainName a"], rule wp_answer, use inv u in \<open>simp add: cacheInv_def\<close>)
      (auto intro!: wp_bindS_inv [where R = "\<lambda>_ _. True", OF look] wp_return wp_panic downloadInputS_inv split: sum.split goerr.split)
qed

interpretation sigcache: download_cache "cacheInputS env sig" "cacheInv env" for env sig
  by unfold_locales (rule cacheInputS_inv)

section \<open>Properties\<close>

text \<open>
  C29: signals cannot spoil the cache: whatever handlers run between the calls of the downloads
  of any list of inputs, with any faults, afterwards every file in the cache directory still has
  its name as the sha256 sum of its content.
\<close>

theorem signal_integrity:
  assumes "cacheInv env s"
  shows "cacheInv env (snd (forG inputs (\<lambda>input _. cacheInputS env sig input) () s))"
  by (rule sigcache.fetch_all_inv [OF assms])

lemma signal_integrity_witness:
  "cacheInv calmEnv (snd (forG [sampleInput ''00'']
     (\<lambda>input _. cacheInputS calmEnv (\<lambda>h. if length h = 5 then [CleanupHandler, TmpDirHandler] else []) input) () emptyWorld))"
  by (rule signal_integrity) (simp add: cacheInv_def envOk_calm fsInv_def emptyWorld_def)


text \<open>
  C30: although nothing fails, a signal can lose a download without a trace: when the clean-up
  runs between the look for the finished file and the renaming, the call succeeds, nothing is
  stored, and the file that had the right sum is gone.
\<close>

theorem signal_loses_download:
  assumes "envOk env" and "\<forall>h ev. e_fault env h ev = None" and "plainName u" and "plainName (cf_Sha256Sum input)"
    and "dest = pathJoin [cacheDir env, ''cache'', cf_Sha256Sum input]"
    and "lookupPath (wfs s) dest = None"
    and "CleanupHandler \<in> set (sig (hist s @ [EvStat dest]))"
  shows "\<exists>t. storeInputS env sig input (pathJoin [tmpDir env, u]) dest (cf_Sha256Sum input) s = (Ok (), t) \<and>
    names (wfs t) (cachePath env (cf_Sha256Sum input)) = None \<and> names (wfs t) (tmpPath env u) = None"
proof -
  let ?c = "cachePath env (cf_Sha256Sum input)"
  let ?gone = "\<lambda>t. names (wfs t) ?c = None \<and> names (wfs t) (tmpPath env u) = None"
  have c: "dest = ?c" using assms(1,4,5) by (simp add: destFile_eq)
  have tmp: "pathJoin [tmpDir env, u] = tmpPath env u" using assms(1,3) by (rule dlFile_eq)
  have ok: "request env ev t = (Ok (), t\<lparr>hist := hist t @ [ev]\<rparr>)" for ev t
    using assms(2) by (simp add: request_def)
  note io = bindG_def tryG_def returnG_def getW_def modifyFs_def modifyW_def failG_def ok
  let ?s1 = "s\<lparr>hist := hist s @ [EvStat ?c]\<rparr>"
  have stat: "tryG (osStat env ?c) s = (Ok (Inl NotExist), ?s1)"
    using assms(6) by (simp add: c osStat_def io)
  have none: "names (wfs s) ?c = None" using assms(6) by (simp add: c lookup_paths(1) [OF assms(1,4)])
  have "wp (signals env sig) (\<lambda>_ t. ?gone t) (\<lambda>_. False) ?s1"
    by (rule wp_weaken [OF signals_clean [OF assms(1-3)]]) (use none assms(7) in \<open>auto simp: c thinned_def names_drop\<close>)
  then obtain s2 where s2: "signals env sig ?s1 = (Ok (), s2)" and gone: "?gone s2"
    by (auto simp: wp_def split: prod.splits outcome.splits)
  obtain e s3 where s3: "tryG (osRename env (tmpPath env u) ?c) s2 = (Ok (Inl e), s3)" "wfs s3 = wfs s2"
    using gone by (simp add: osRename_def lookup_paths(2) [OF assms(1,3)] io)
  have "wp (signals env sig) (\<lambda>_ t. ?gone t) (\<lambda>_. False) s3"
    by (rule wp_weaken [OF signals_return]) (use gone s3(2) in \<open>auto simp: thinned_def names_drop\<close>)
  then obtain t where "signals env sig s3 = (Ok (), t)" "?gone t"
    by (auto simp: wp_def split: prod.splits outcome.splits)
  then show ?thesis
    by (intro exI [of _ t]) (simp add: storeInputS_def bindS_def c tmp bindG_def stat s2 s3(1) returnG_def)
qed

lemma signal_loses_download_witness:
  "\<exists>t. storeInputS calmEnv (\<lambda>h. if length h = 1 then [CleanupHandler] else []) (sampleInput ''75'') (pathJoin [tmpDir calmEnv, ''u-1''])
     (pathJoin [cacheDir calmEnv, ''cache'', ''75'']) ''75'' halfLoaded = (Ok (), t) \<and> names (wfs t) (tmpPath calmEnv ''u-1'') = None"
proof -
  let ?sig = "\<lambda>h :: event list. if length h = 1 then [CleanupHandler] else []"
  have "plainName ''u-1''" "plainName (cf_Sha256Sum (sampleInput ''75''))" by code_simp+
  moreover have "lookupPath (wfs halfLoaded) (pathJoin [cacheDir calmEnv, ''cache'', cf_Sha256Sum (sampleInput ''75'')]) = None"
    by code_simp
  moreover have "CleanupHandler \<in> set (?sig (hist halfLoaded @ [EvStat d]))" for d by (simp add: halfLoaded_def emptyWorld_def)
  moreover have "\<forall>h ev. e_fault calmEnv h ev = None" by (simp add: calmEnv_def)
  ultimately have "\<exists>t. storeInputS calmEnv ?sig (sampleInput ''75'') (pathJoin [tmpDir calmEnv, ''u-1''])
     (pathJoin [cacheDir calmEnv, ''cache'', cf_Sha256Sum (sampleInput ''75'')]) (cf_Sha256Sum (sampleInput ''75'')) halfLoaded = (Ok (), t) \<and>
     names (wfs t) (cachePath calmEnv (cf_Sha256Sum (sampleInput ''75''))) = None \<and> names (wfs t) (tmpPath calmEnv ''u-1'') = None"
    by (intro signal_loses_download [OF envOk_calm(1)]) simp_all
  then show ?thesis by (auto simp: sampleInput_def)
qed

end
