(* ===== verification/Engine.thy ===== *)
theory Engine
  imports World
begin

text \<open>
  What the program asks of the Pulumi SDK: registering a resource and exporting a stack output.
  A registration can fail; when it succeeds the resource is appended to the world's list and
  its position is its identity from then on. \<open>DependsOn\<close>, the provider and every output value
  used in the arguments refer to resources by that identity. The locale \<open>registrar\<close> is the
  contract the provider code relies on; a deployment graph is well formed when every reference
  points to an earlier resource (\<open>chainOk\<close>).
\<close>

section \<open>Calls\<close>

definition newResource :: "env \<Rightarrow> resource \<Rightarrow> nat io" where
  "newResource env r =
     bindG (request env (EvRegister r)) (\<lambda>_.
     bindG getW (\<lambda>w.
     bindG (modifyW (\<lambda>w. w\<lparr>nodes := nodes w @ [r]\<rparr>)) (\<lambda>_.
     returnG (length (nodes w)))))"

definition ctxExport :: "string \<Rightarrow> outval \<Rightarrow> unit io" where
  "ctxExport name v = modifyW (\<lambda>w. w\<lparr>exports := exports w @ [(name, v)]\<rparr>)"

abbreviation str :: "string \<Rightarrow> arg" where
  "str s \<equiv> AStr [Lit s]"

abbreviation res :: "site \<Rightarrow> string \<Rightarrow> (string \<times> arg) list \<Rightarrow> nat list \<Rightarrow> resource" where
  "res st nm rargs deps \<equiv>
     \<lparr>r_site = st, r_name = nm, r_args = rargs, r_deps = deps, r_provider = None, r_opts = []\<rparr>"

text \<open>\<open>ctx.RegisterComponentResource(type, name, ..)\<close>\<close>

definition registerComponent :: "env \<Rightarrow> site \<Rightarrow> string \<Rightarrow> string \<Rightarrow> unit io" where
  "registerComponent env st ty nm =
     bindG (newResource env (res st nm [(''type'', str ty)] [])) (\<lambda>_. returnG ())"

section \<open>References and the graph\<close>

fun pieceRefs :: "piece \<Rightarrow> nat list" where
  "pieceRefs (Attr _ (Some i)) = [i]"
| "pieceRefs _ = []"

fun argRefs :: "arg \<Rightarrow> nat list" where
  "argRefs (AStr v) = concat (map pieceRefs v)"
| "argRefs (ANum _) = []"
| "argRefs (ABool _) = []"
| "argRefs (AList xs) = concat (map argRefs xs)"
| "argRefs (AObj fs) = concat (map (\<lambda>f. argRefs (snd f)) fs)"

definition refsOf :: "resource \<Rightarrow> nat list" where
  "refsOf r = r_deps r @ (case r_provider r of None \<Rightarrow> [] | Some p \<Rightarrow> [p]) @
     concat (map (\<lambda>f. argRefs (snd f)) (r_args r))"

definition chainOk :: "resource list \<Rightarrow> bool" where
  "chainOk ns \<longleftrightarrow> (\<forall>i<length ns. \<forall>d\<in>set (refsOf (ns ! i)). d < i)"

lemma chainOk_Nil [simp]: "chainOk []"
  by (simp add: chainOk_def)

lemma chainOk_snoc [simp]:
  "chainOk (ns @ [r]) \<longleftrightarrow> chainOk ns \<and> (\<forall>d\<in>set (refsOf r). d < length ns)"
  by (auto simp: chainOk_def nth_append less_Suc_eq)

section \<open>The contract\<close>

locale registrar =
  fixes create :: "resource \<Rightarrow> nat io"
  assumes create_Ok: "create r s = (Ok i, t) \<Longrightarrow> i = length (nodes s) \<and> nodes t = nodes s @ [r]"
    and create_fails: "create r s = (x, t) \<Longrightarrow> (\<forall>i. x \<noteq> Ok i) \<Longrightarrow> nodes t = nodes s"
    and create_fs: "within sameFs (create r)"
    and create_grows: "within grows (create r)"
begin

lemma wp_create:
  assumes "\<And>t. nodes t = nodes s @ [r] \<Longrightarrow> Q (length (nodes s)) t"
    and "\<And>t. nodes t = nodes s \<Longrightarrow> E t"
  shows "wp (create r) Q E s"
proof -
  obtain x t where "create r s = (x, t)" by fastforce
  then show ?thesis
    using assms create_Ok [of r s] create_fails [of r s] by (cases x) (auto simp: wp_def)
qed

text \<open>Creating one resource per element of a list and collecting the identities.\<close>

lemma wp_create_all:
  assumes "\<And>t. nodes t = nodes s @ map f xs \<Longrightarrow>
      Q (ids @ [length (nodes s)..<length (nodes s) + length xs]) t"
    and "\<And>t k. k \<le> length xs \<Longrightarrow> nodes t = nodes s @ map f (take k xs) \<Longrightarrow> E t"
  shows "wp (forG xs (\<lambda>x ids. bindG (create (f x)) (\<lambda>i. returnG (ids @ [i]))) ids) Q E s"
  using assms
proof (induction xs arbitrary: ids s)
  case Nil
  then show ?case by (auto intro!: wp_return)
next
  case (Cons x xs)
  show ?case
    unfolding forG.simps bindG_assoc bindG_return
  proof (intro wp_bind wp_create)
    fix t :: world assume t: "nodes t = nodes s @ [f x]"
    show "wp (forG xs (\<lambda>x ids. bindG (create (f x)) (\<lambda>i. returnG (ids @ [i]))) (ids @ [length (nodes s)])) Q E t"
    proof (rule Cons.IH)
      fix u :: world assume "nodes u = nodes t @ map f xs"
      with t show "Q ((ids @ [length (nodes s)]) @ [length (nodes t)..<length (nodes t) + length xs]) u"
        using Cons.prems(1) [of u] by (simp add: upt_conv_Cons del: upt_Suc)
    next
      fix u :: world and k assume "k \<le> length xs" "nodes u = nodes t @ map f (take k xs)"
      with t show "E u" using Cons.prems(2) [of "Suc k" u] by simp
    qed
  next
    fix t :: world assume "nodes t = nodes s"
    then show "E t" using Cons.prems(2) [of 0 t] by simp
  qed
qed

end

lemma newResource_run:
  "newResource env r s = (case e_fault env (hist s) (EvRegister r) of
     None \<Rightarrow> (Ok (length (nodes s)), s\<lparr>hist := hist s @ [EvRegister r], nodes := nodes s @ [r]\<rparr>)
   | Some e \<Rightarrow> (Err e, s\<lparr>hist := hist s @ [EvRegister r]\<rparr>))"
  by (simp add: newResource_def bindG_def go_defs split: option.split)

interpretation engine: registrar "newResource env" for env
  by unfold_locales
    (auto simp: newResource_run within_def sameFs_def grows_def split: option.splits)

declare engine.create_fs [fs_frame] engine.create_grows [grow_frame]

lemma within_ctxExport [nodes_frame, grow_frame, fs_frame]:
  "within sameNodes (ctxExport k v)" "within grows (ctxExport k v)" "within sameFs (ctxExport k v)"
  by (simp_all add: within_def ctxExport_def modifyW_def sameNodes_def grows_def sameFs_def)

lemma within_registerComponent [grow_frame, fs_frame]:
  "within grows (registerComponent env st ty nm)" "within sameFs (registerComponent env st ty nm)"
  unfolding registerComponent_def by (intro grow_frame fs_frame)+

lemma wp_ctxExport: "(\<And>t. nodes t = nodes s \<Longrightarrow> Q () t) \<Longrightarrow> wp (ctxExport k v) Q E s"
  by (simp add: wp_def ctxExport_def modifyW_def)

lemma wp_registerComponent:
  assumes "\<And>t. nodes t = nodes s @ [res st nm [(''type'', str ty)] []] \<Longrightarrow> Q () t"
    and "\<And>t. nodes t = nodes s \<Longrightarrow> E t"
  shows "wp (registerComponent env st ty nm) Q E s"
  unfolding registerComponent_def
  using assms by (intro wp_bind engine.wp_create wp_return) auto

end
