(* ===== verification/Ssh_Keys.thy ===== *)
theory Ssh_Keys
  imports Cache Engine
begin

text \<open>
  \<open>src/pkg/ssh/ssh.go\<close> and \<open>src/pkg/components/ssh/ssh.go\<close>: the key pair of a deployment.
  Key generation, DER, PEM and the authorized-keys form are functions of the Go libraries and
  parameters of the environment; a key is the opaque value \<open>e_keyGen\<close> gives. The component
  writes both files with mode 0600, exports their names and keeps both texts without the final
  newline.
\<close>

section \<open>Keys\<close>

definition newPrivateRsaKey :: "env \<Rightarrow> nat \<Rightarrow> string io" where
  "newPrivateRsaKey env bits =
     bindG getW (\<lambda>w.
     let privateKey = e_keyGen env (hist w) in
     bindG (request env (EvKeyGen bits)) (\<lambda>_.
     bindG (request env (EvKeyCheck privateKey)) (\<lambda>_.
     returnG privateKey)))"

definition encodePrivateKeyToPEM :: "env \<Rightarrow> string \<Rightarrow> string" where
  "encodePrivateKeyToPEM env privateKey =
     (let keyDer = e_der env privateKey in e_pem env ''RSA PRIVATE KEY'' keyDer)"

definition newPublicRsaKey :: "env \<Rightarrow> string \<Rightarrow> string io" where
  "newPublicRsaKey env privatekey =
     bindG (request env (EvPublicKey privatekey)) (\<lambda>_. returnG (e_publicKey env privatekey))"

definition writeSshkeyFile :: "env \<Rightarrow> string \<Rightarrow> string \<Rightarrow> unit io" where
  "writeSshkeyFile env keyBytes dest = osWriteFile env dest keyBytes (perm 6 0 0)"

section \<open>The component\<close>

record SshData =
  sd_PrvKey :: string
  sd_PubKey :: string
  sd_PrvKeyFile :: string
  sd_PubKeyFile :: string

definition setupSshCa :: "env \<Rightarrow> string \<Rightarrow> string \<Rightarrow> SshData io" where
  "setupSshCa env pub prv =
     bindG (newPrivateRsaKey env 2048) (\<lambda>key.
     let privateKeyData = encodePrivateKeyToPEM env key in
     bindG (ctxExport ''caPrv'' [Lit prv]) (\<lambda>_.
     bindG (writeSshkeyFile env privateKeyData prv) (\<lambda>_.
     bindG (newPublicRsaKey env key) (\<lambda>publicKeyData.
     bindG (writeSshkeyFile env publicKeyData pub) (\<lambda>_.
     bindG (ctxExport ''caPub'' [Lit pub]) (\<lambda>_.
     returnG \<lparr>sd_PrvKey = trimSuffix privateKeyData newline, sd_PubKey = trimSuffix publicKeyData newline,
              sd_PrvKeyFile = prv, sd_PubKeyFile = pub\<rparr>))))))"

definition newSsh :: "env \<Rightarrow> State \<Rightarrow> string \<Rightarrow> SshData io" where
  "newSsh env state name =
     (let prvKey = ''ssh/id_rsa''; pubKey = prvKey @ ''.pub'' in
      bindG (registerArtifact env state prvKey) (\<lambda>prvKeyFile.
      bindG (registerArtifact env state pubKey) (\<lambda>pubKeyFile.
      bindG (setupSshCa env pubKeyFile prvKeyFile) (\<lambda>sshKey.
      bindG (registerComponent env SSshComponent ''shenanigans:ssh:key'' name) (\<lambda>_.
      returnG sshKey)))))"

section \<open>Frames\<close>

lemmas ssh_defs = newPrivateRsaKey_def newPublicRsaKey_def writeSshkeyFile_def Let_def

lemma setupSshCa_frames [nodes_frame, grow_frame]:
  "within sameNodes (setupSshCa env pub prv)" "within grows (setupSshCa env pub prv)"
  unfolding setupSshCa_def ssh_defs by (intro nodes_frame grow_frame)+

lemma newSsh_grows [grow_frame]: "within grows (newSsh env state name)"
  unfolding newSsh_def Let_def by (intro grow_frame)

text \<open>The component registers exactly one resource, at the end.\<close>

lemma wp_newSsh:
  assumes "\<And>a t. nodes t = nodes s @ [res SSshComponent name [(''type'', str ''shenanigans:ssh:key'')] []] \<Longrightarrow> Q a t"
    and "\<And>t. nodes t = nodes s \<Longrightarrow> E t"
  shows "wp (newSsh env state name) Q E s"
  unfolding newSsh_def Let_def
  apply (rule wp_bind, rule astore.wp_reg)
   apply (rule wp_bind, rule astore.wp_reg)
    apply (rule wp_bind, rule wp_sameNodes [OF setupSshCa_frames(1)])
     apply (rule wp_bind, rule wp_registerComponent)
      apply (auto intro: wp_return assms)
  done

section \<open>What is written\<close>

lemma writeSshkeyFile_Ok:
  "writeSshkeyFile env d p s = (Ok u, t) \<Longrightarrow>
     \<exists>i. lookupPath (wfs t) p = Some (File i) \<and> content (wfs t) i = d \<and>
       (lookupPath (wfs s) p = None \<longrightarrow> mode (wfs t) i = perm 6 0 0) \<and>
       (\<forall>j. lookupPath (wfs s) p = Some (File j) \<longrightarrow> i = j \<and> mode (wfs t) = mode (wfs s))"
  unfolding writeSshkeyFile_def by (rule osWriteFile_Ok)

lemma setupSshCa_Ok:
  assumes "setupSshCa env pub prv s = (Ok k, t)"
  shows "\<exists>key s1 s2 s3 s4. wfs s1 = wfs s \<and>
    osWriteFile env prv (encodePrivateKeyToPEM env key) (perm 6 0 0) s1 = (Ok (), s2) \<and> wfs s3 = wfs s2 \<and>
    osWriteFile env pub (e_publicKey env key) (perm 6 0 0) s3 = (Ok (), s4) \<and> wfs t = wfs s4 \<and>
    k = \<lparr>sd_PrvKey = trimSuffix (encodePrivateKeyToPEM env key) newline,
         sd_PubKey = trimSuffix (e_publicKey env key) newline, sd_PrvKeyFile = prv, sd_PubKeyFile = pub\<rparr>"
proof -
  from assms obtain key a b c u v w where
    1: "newPrivateRsaKey env 2048 s = (Ok key, a)" and
    2: "ctxExport ''caPrv'' [Lit prv] a = (Ok (), b)" and
    3: "osWriteFile env prv (encodePrivateKeyToPEM env key) (perm 6 0 0) b = (Ok (), c)" and
    4: "newPublicRsaKey env key c = (Ok u, v)" and
    5: "osWriteFile env pub u (perm 6 0 0) v = (Ok (), w)" and
    6: "ctxExport ''caPub'' [Lit pub] w = (Ok (), t)" and
    7: "k = \<lparr>sd_PrvKey = trimSuffix (encodePrivateKeyToPEM env key) newline,
         sd_PubKey = trimSuffix u newline, sd_PrvKeyFile = prv, sd_PubKeyFile = pub\<rparr>"
    unfolding setupSshCa_def Let_def writeSshkeyFile_def
    by (elim bindG_OkE) (force simp: returnG_def)
  have "wfs b = wfs s"
    using 1 2 unfolding newPrivateRsaKey_def Let_def
    by (auto elim!: bindG_OkE simp: go_defs ctxExport_def split: option.splits)
  moreover have "u = e_publicKey env key" "wfs v = wfs c"
    using 4 unfolding newPublicRsaKey_def by (auto elim!: bindG_OkE simp: go_defs split: option.splits)
  moreover have "wfs t = wfs w" using 6 by (auto simp: ctxExport_def go_defs)
  ultimately show ?thesis using 3 5 7 by blast
qed

section \<open>Properties\<close>

text \<open>
  C20: on a fresh deployment (neither file exists, the names differ) a successful set-up leaves
  both key files with mode 0600: the private file holds the PEM text, the public file the
  authorized-keys line of the same key, and the data returned are those two texts without
  their final newline and the two file names.
\<close>

theorem setupSshCa_files:
  assumes "setupSshCa env pub prv s = (Ok k, t)"
    and "lookupPath (wfs s) prv = None" and "lookupPath (wfs s) pub = None"
    and "pathClean prv \<noteq> pathClean pub"
  shows "\<exists>key i j. lookupPath (wfs t) prv = Some (File i) \<and> lookupPath (wfs t) pub = Some (File j) \<and>
    i \<noteq> j \<and> mode (wfs t) i = perm 6 0 0 \<and> mode (wfs t) j = perm 6 0 0 \<and>
    content (wfs t) i = encodePrivateKeyToPEM env key \<and> content (wfs t) j = e_publicKey env key \<and>
    k = \<lparr>sd_PrvKey = trimSuffix (content (wfs t) i) newline, sd_PubKey = trimSuffix (content (wfs t) j) newline,
         sd_PrvKeyFile = prv, sd_PubKeyFile = pub\<rparr>"
proof -
  from setupSshCa_Ok [OF assms(1)] obtain key s1 s2 s3 s4 where
    s: "wfs s1 = wfs s" "wfs s3 = wfs s2" "wfs t = wfs s4"
    and w: "osWriteFile env prv (encodePrivateKeyToPEM env key) (perm 6 0 0) s1 = (Ok (), s2)"
      "osWriteFile env pub (e_publicKey env key) (perm 6 0 0) s3 = (Ok (), s4)"
    and k: "k = \<lparr>sd_PrvKey = trimSuffix (encodePrivateKeyToPEM env key) newline,
          sd_PubKey = trimSuffix (e_publicKey env key) newline, sd_PrvKeyFile = prv, sd_PubKeyFile = pub\<rparr>"
    by blast
  let ?n = "nextIno (wfs s)"
  have ne: "parts prv \<noteq> []" "parts pub \<noteq> []" using assms(2,3) by (auto simp: lookupPath_def)
  have w1: "wfs s2 = setContent ?n (encodePrivateKeyToPEM env key) (newInode prv (perm 6 0 0) (wfs s))"
    using osWriteFile_new [OF w(1)] assms(2) s(1) by simp
  have "lookupPath (wfs s3) pub = None" "nextIno (wfs s3) = Suc ?n"
    using assms(3,4) ne by (simp_all add: s(2) w1 lookupPath_def newInode_def bindName_def setContent_def)
  with osWriteFile_new [OF w(2)]
  have w2: "wfs t = setContent (Suc ?n) (e_publicKey env key) (newInode pub (perm 6 0 0) (wfs s2))"
    by (simp add: s(2,3))
  have "lookupPath (wfs t) prv = Some (File ?n)" "lookupPath (wfs t) pub = Some (File (Suc ?n))"
    using assms(4) ne by (simp_all add: w1 w2 lookupPath_def newInode_def bindName_def setContent_def)
  moreover have "mode (wfs t) ?n = perm 6 0 0" "mode (wfs t) (Suc ?n) = perm 6 0 0"
    "content (wfs t) ?n = encodePrivateKeyToPEM env key"
    "content (wfs t) (Suc ?n) = e_publicKey env key"
    by (simp_all add: w1 w2 newInode_def bindName_def setContent_def)
  ultimately show ?thesis using k by (metis n_not_Suc_n)
qed

definition keyDirs :: world where
  "keyDirs = emptyWorld\<lparr>wfs := (wfs emptyWorld)\<lparr>names := [''/k'' \<mapsto> Dir]\<rparr>\<rparr>"

theorem setupSshCa_files_witness:
  "\<exists>k t i j. setupSshCa calmEnv ''/k/id_rsa.pub'' ''/k/id_rsa'' keyDirs = (Ok k, t) \<and>
     lookupPath (wfs t) ''/k/id_rsa'' = Some (File i) \<and> lookupPath (wfs t) ''/k/id_rsa.pub'' = Some (File j) \<and> i \<noteq> j"
proof -
  let ?m = "setupSshCa calmEnv ''/k/id_rsa.pub'' ''/k/id_rsa''"
  have "fst (?m keyDirs) = Ok \<lparr>sd_PrvKey = ''RSA PRIVATE KEY key'', sd_PubKey = ''ssh-rsa key'',
      sd_PrvKeyFile = ''/k/id_rsa'', sd_PubKeyFile = ''/k/id_rsa.pub''\<rparr>" (is "_ = Ok ?k") by code_simp
  then have m: "?m keyDirs = (Ok ?k, snd (?m keyDirs))" by (metis prod.collapse)
  have "lookupPath (wfs keyDirs) ''/k/id_rsa'' = None" "lookupPath (wfs keyDirs) ''/k/id_rsa.pub'' = None"
    "pathClean ''/k/id_rsa'' \<noteq> pathClean ''/k/id_rsa.pub''" by code_simp+
  from setupSshCa_files [OF m this] m show ?thesis by blast
qed

text \<open>
  The mode 0600 only counts for a new file: a key written over a file that exists replaces
  its content and leaves every permission as it was, so a world-readable private key stays
  world-readable.
\<close>

theorem writeSshkeyFile_keeps_mode:
  assumes "writeSshkeyFile env d p s = (Ok (), t)" and "lookupPath (wfs s) p = Some (File i)"
  shows "lookupPath (wfs t) p = Some (File i) \<and> content (wfs t) i = d \<and> mode (wfs t) = mode (wfs s)"
  using writeSshkeyFile_Ok [OF assms(1)] assms(2) by auto

definition openKey :: world where
  "openKey = emptyWorld\<lparr>wfs := (wfs emptyWorld)\<lparr>names := [''/k'' \<mapsto> File 0], mode := (\<lambda>_. perm 6 4 4)\<rparr>\<rparr>"

theorem writeSshkeyFile_keeps_mode_witness:
  "mode (wfs (snd (writeSshkeyFile calmEnv ''secret'' ''/k'' openKey))) 0 = perm 6 4 4"
proof -
  let ?m = "writeSshkeyFile calmEnv ''secret'' ''/k''"
  have "fst (?m openKey) = Ok ()" by code_simp
  then have m: "?m openKey = (Ok (), snd (?m openKey))" by (metis prod.collapse)
  have "lookupPath (wfs openKey) ''/k'' = Some (File 0)" by code_simp
  from writeSshkeyFile_keeps_mode [OF m this] show ?thesis by (simp add: openKey_def)
qed

end
