(* ===== verification/Cloudinit.thy ===== *)
theory Cloudinit
  imports World
begin

text \<open>
  \<open>src/pkg/cloudinit/cloudinit.go\<close>: the documents a vm boots with. The records are the Go
  structs, and the \<open>yaml\<close> functions give each struct's fields under their tag names in
  declaration order. \<open>yaml.Marshal\<close> is the parameter \<open>e_yaml\<close>, and whether it
  fails is asked of the environment.
\<close>

section \<open>User data\<close>

record CloudInitUserConfig =
  cu_Name :: string
  cu_Password :: string
  cu_Usertype :: string

record CloudInitChPasswd =
  cp_Expire :: bool
  cp_Users :: "CloudInitUserConfig list"

record CloudInitFileData =
  cfd_Path :: string
  cfd_Owner :: string
  cfd_Permissions :: string
  cfd_Content :: string

record CloudInitUserOutput =
  co_All :: string

record CloudInitGrowPart =
  cg_Mode :: string
  cg_Devices :: "string list"
  cg_IgnoreGrowRootDisabled :: bool

record CloudInitUserData =
  cd_FinalMessage :: string
  cd_Hostname :: string
  cd_Fqdn :: string
  cd_SshPwauth :: bool
  cd_Output :: CloudInitUserOutput
  cd_Chpasswd :: CloudInitChPasswd
  cd_WriteFiles :: "CloudInitFileData list"
  cd_Runcmd :: "string list list"
  cd_GrowPart :: CloudInitGrowPart

definition yamlUserConfig :: "CloudInitUserConfig \<Rightarrow> ynode" where
  "yamlUserConfig u = YMap
     [(''name'', YStr (cu_Name u)), (''password'', YStr (cu_Password u)), (''type'', YStr (cu_Usertype u))]"

definition yamlChPasswd :: "CloudInitChPasswd \<Rightarrow> ynode" where
  "yamlChPasswd c = YMap
     [(''expire'', YBool (cp_Expire c)), (''users'', YList (map yamlUserConfig (cp_Users c)))]"

definition yamlFileData :: "CloudInitFileData \<Rightarrow> ynode" where
  "yamlFileData f = YMap
     [(''path'', YStr (cfd_Path f)), (''owner'', YStr (cfd_Owner f)),
      (''permissions'', YStr (cfd_Permissions f)), (''content'', YStr (cfd_Content f))]"

definition yamlGrowPart :: "CloudInitGrowPart \<Rightarrow> ynode" where
  "yamlGrowPart g = YMap
     [(''mode'', YStr (cg_Mode g)), (''devices'', YList (map YStr (cg_Devices g))),
      (''ignore_growroot_disabled'', YBool (cg_IgnoreGrowRootDisabled g))]"

definition yamlUserData :: "CloudInitUserData \<Rightarrow> ynode" where
  "yamlUserData d = YMap
     [(''final_message'', YStr (cd_FinalMessage d)), (''hostname'', YStr (cd_Hostname d)),
      (''fqdn'', YStr (cd_Fqdn d)), (''ssh_pwauth'', YBool (cd_SshPwauth d)),
      (''output'', YMap [(''all'', YStr (co_All (cd_Output d)))]),
      (''chpasswd'', yamlChPasswd (cd_Chpasswd d)),
      (''write_files'', YList (map yamlFileData (cd_WriteFiles d))),
      (''runcmd'', YList (map (\<lambda>c. YList (map YStr c)) (cd_Runcmd d))),
      (''growpart'', yamlGrowPart (cd_GrowPart d))]"

definition userDataFor :: "string \<Rightarrow> string \<Rightarrow> string \<Rightarrow> CloudInitUserData" where
  "userDataFor hostname authorized_key fqdn =
     \<lparr>cd_FinalMessage = ''fin'', cd_Hostname = hostname, cd_Fqdn = fqdn, cd_SshPwauth = True,
      cd_Output = \<lparr>co_All = ''| tee -a /var/log/cloud-init-output.log''\<rparr>,
      cd_Chpasswd = \<lparr>cp_Expire = False,
        cp_Users = [\<lparr>cu_Name = ''root'', cu_Password = ''changeme'', cu_Usertype = ''text''\<rparr>]\<rparr>,
      cd_WriteFiles =
        [\<lparr>cfd_Path = ''/root/.ssh/authorized_keys'', cfd_Owner = ''root:root'',
          cfd_Permissions = ''0400'', cfd_Content = authorized_key\<rparr>,
         \<lparr>cfd_Path = ''/etc/ssh/sshd_config.d/90-enable-root-login.conf'', cfd_Owner = ''root:root'',
          cfd_Permissions = ''0400'', cfd_Content = ''PermitRootLogin yes'' @ [CHR 0x0A]\<rparr>],
      cd_Runcmd =
        [[''systemctl'', ''daemon-reload''],
         [''systemctl'', ''restart'', ''--no-block'', ''sshd.service'']],
      cd_GrowPart = \<lparr>cg_Mode = ''auto'', cg_Devices = [''/''], cg_IgnoreGrowRootDisabled = True\<rparr>\<rparr>"

text \<open>\<open>UserData\<close>: the document with its first line, or the marshalling error.\<close>

definition userData :: "env \<Rightarrow> string \<Rightarrow> string \<Rightarrow> string \<Rightarrow> string io" where
  "userData env hostname authorized_key fqdn =
     bindG (request env EvYaml) (\<lambda>_.
     returnG (''#cloud-config'' @ [CHR 0x0A] @
       e_yaml env (yamlUserData (userDataFor hostname authorized_key fqdn))))"

section \<open>Network data\<close>

record CloudInitDhcp =
  dh_Dhcpv4 :: bool

record CloudInitEthernets =
  et_Eth0 :: CloudInitDhcp

record CloudInitNetwork =
  cn_Version :: int
  cn_Ethernets :: CloudInitEthernets

record CloudInitMetaData =
  md_Network :: CloudInitNetwork

definition yamlMetaData :: "CloudInitMetaData \<Rightarrow> ynode" where
  "yamlMetaData m =
     YMap [(''network'', YMap
       [(''version'', YInt (cn_Version (md_Network m))),
        (''ethernets'', YMap [(''eth0'', YMap
           [(''dhcp4'', YBool (dh_Dhcpv4 (et_Eth0 (cn_Ethernets (md_Network m)))))])])])]"

definition metaDataValue :: CloudInitMetaData where
  "metaDataValue =
     \<lparr>md_Network = \<lparr>cn_Version = 2, cn_Ethernets = \<lparr>et_Eth0 = \<lparr>dh_Dhcpv4 = True\<rparr>\<rparr>\<rparr>\<rparr>"

text \<open>\<open>MetaData\<close>: a marshalling error gives the nil slice, no error.\<close>

definition metaData :: "env \<Rightarrow> string io" where
  "metaData env =
     bindG (tryG (request env EvYaml)) (\<lambda>r.
     (case r of Inl _ \<Rightarrow> returnG '''' | Inr _ \<Rightarrow> returnG (e_yaml env (yamlMetaData metaDataValue))))"

section \<open>Frames\<close>

lemma cloudinit_frames [deploy_frame, grow_frame, fs_frame, nodes_frame]:
  "within sameDeploy (userData env h k f)" "within sameDeploy (metaData env)"
  "within grows (userData env h k f)" "within grows (metaData env)"
  "within sameFs (userData env h k f)" "within sameFs (metaData env)"
  "within sameNodes (userData env h k f)" "within sameNodes (metaData env)"
  unfolding userData_def metaData_def
  by (auto intro!: deploy_frame grow_frame fs_frame nodes_frame split: sum.split)

end
