(* ===== verification/Libvirt_Shared.thy ===== *)
theory Libvirt_Shared
  imports Network Cache Engine
begin

text \<open>
  \<open>src/pkg/providers/libvirt/libvirt.go\<close>, first part: the random names and what all units
  share: the provider, the network with its static DNS hosts, and the two storage pools.
\<close>

section \<open>Random names\<close>

definition randRunes :: string where
  "randRunes = ''abcdefghijklmnopqrstuvwxyzABCDEFGHIJKLMNOPQRSTUVWXYZ0123456789''"

text \<open>\<open>rand.Int(rand.Reader, big.NewInt(n))\<close>: an error, or the next number.\<close>

definition randInt :: "env \<Rightarrow> nat \<Rightarrow> nat io" where
  "randInt env n =
     bindG getW (\<lambda>w.
     bindG (request env (EvRand n)) (\<lambda>_.
     returnG (e_rand env (hist w))))"

definition randomString :: "env \<Rightarrow> nat \<Rightarrow> string io" where
  "randomString env len =
     forG [0..<len] (\<lambda>i b.
       bindG (randInt env (length randRunes)) (\<lambda>n.
       bindG (indexG randRunes n) (\<lambda>c.
       returnG (b[i := c])))) (replicate len (CHR 0x00))"

section \<open>Shared resources\<close>

text \<open>\<open>BaseVolume\<close> is never set; the zero value is \<open>None\<close>.\<close>

record LibvirtShared =
  ls_Provider :: nat
  ls_Network :: nat
  ls_CloudInitStoragePool :: nat
  ls_VmStoragePool :: nat
  ls_BaseVolume :: "nat option"

definition libvirtUri :: string where
  "libvirtUri = ''qemu+unix:///system''"

definition libvirtPooldir :: string where
  "libvirtPooldir = ''/var/lib/libvirt/shenanigans''"

definition dnsHost :: "Host \<Rightarrow> arg" where
  "dnsHost h = AObj [(''hostname'', str (h_Name h)), (''ip'', str (h_Ipv4 h))]"

definition dnsHosts :: "Host list \<Rightarrow> arg list io" where
  "dnsHosts hs =
     bindG (indexG hs 0) (\<lambda>h0.
     let hosts = [dnsHost h0] in
     if length hs = 2 then
       bindG (indexG hs 0) (\<lambda>h0.
       bindG (indexG hs 1) (\<lambda>h1.
       returnG [dnsHost h0, dnsHost h1]))
     else returnG hosts)"

definition networkResource :: "State \<Rightarrow> 'c Network \<Rightarrow> arg list \<Rightarrow> resource" where
  "networkResource state netconfig hosts =
     res SNetwork (st_suuid state)
       [(''name'', str (st_suuid state)),
        (''addresses'', AList [str ''10.200.200.1/24'']),
        (''autostart'', ABool True),
        (''mode'', str ''nat''),
        (''domain'', str (n_Domain netconfig)),
        (''dhcp'', AObj [(''enabled'', ABool True)]),
        (''dns'', AObj [(''enabled'', ABool True), (''localOnly'', ABool True), (''hosts'', AList hosts)])] []"

definition poolResource :: "site \<Rightarrow> State \<Rightarrow> string \<Rightarrow> resource" where
  "poolResource st state kind =
     res st (st_suuid state @ ''-'' @ kind)
       [(''type'', str ''dir''),
        (''path'', str (pathJoin [pathJoin [libvirtPooldir, st_suuid state], kind]))] []"

definition setupShared :: "env \<Rightarrow> State \<Rightarrow> 'c Network \<Rightarrow> LibvirtShared io" where
  "setupShared env state netconfig =
     bindG (newResource env (res SProvider ''provider'' [(''uri'', str libvirtUri)] [])) (\<lambda>provider.
     bindG (ctxExport ''provider'' [Lit ''libvirt'']) (\<lambda>_.
     bindG (ctxExport ''libvirt-uri'' [Lit libvirtUri]) (\<lambda>_.
     bindG (ctxExport ''libvirt-pooldir'' [Lit libvirtPooldir]) (\<lambda>_.
     bindG (dnsHosts (n_Hosts netconfig)) (\<lambda>hosts.
     bindG (newResource env (networkResource state netconfig hosts)) (\<lambda>network.
     bindG (newResource env (poolResource SCloudinitPool state ''cloudinit'')) (\<lambda>cipool.
     bindG (newResource env (poolResource SVmPool state ''vm'')) (\<lambda>vmpool.
     returnG \<lparr>ls_Provider = provider, ls_Network = network, ls_CloudInitStoragePool = cipool,
              ls_VmStoragePool = vmpool, ls_BaseVolume = None\<rparr>))))))))"

section \<open>Facts\<close>

lemma wp_dnsHosts:
  assumes "\<And>h0 rest. hs = h0 # rest \<Longrightarrow>
      Q (dnsHost h0 # (if length rest = 1 then [dnsHost (hd rest)] else [])) s"
    and "hs = [] \<Longrightarrow> E s"
  shows "wp (dnsHosts hs) Q E s"
proof (cases hs)
  case Nil
  then show ?thesis using assms(2) by (simp add: dnsHosts_def indexG_def wp_def bindG_def panicG_def)
next
  case (Cons h0 rest)
  then show ?thesis using assms(1) [OF Cons]
    by (cases rest) (auto simp: dnsHosts_def indexG_def wp_def bindG_def returnG_def)
qed

lemma argRefs_dnsHost [simp]: "argRefs (dnsHost h) = []"
  by (simp add: dnsHost_def)

lemma refsOf_shared [simp]:
  "refsOf (poolResource st state kind) = []"
  "refsOf (networkResource state netconfig hosts) = concat (map argRefs hosts)"
  by (simp_all add: poolResource_def networkResource_def refsOf_def)

lemma randomString_frames [deploy_frame, nodes_frame, grow_frame, fs_frame]:
  "within sameDeploy (randomString env n)" "within sameNodes (randomString env n)"
  "within grows (randomString env n)" "within sameFs (randomString env n)"
  unfolding randomString_def randInt_def
  by (auto intro!: deploy_frame nodes_frame grow_frame fs_frame)

end
