(* ===== verification/Libvirt_Vm.thy ===== *)
theory Libvirt_Vm
  imports Libvirt_Shared Ssh_Keys Cloudinit Filecache Unit_Config Go_Slices
begin

text \<open>
  \<open>src/pkg/providers/libvirt/libvirt.go\<close>, the body of \<open>Unit\<close>'s loops: what is registered for
  one vm configuration (the base image) and for each of its vms (disk, cloud-init, domain,
  remote checks, packages, logs, input files), and the slices and maps of the function that
  the later steps read. The local variables of \<open>Unit\<close> that survive an iteration are the record
  \<open>ustate\<close>; slices are values (lists) but for \<open>vmDepends\<close>, whose array is shared with another
  slice later on: it is a slice of a store (\<open>Go_Slices\<close>). An output only known at deployment is a piece
  \<open>Attr\<close> of the resource it comes from.
\<close>

section \<open>State of one unit\<close>

text \<open>The zero value of \<open>unitDepends\<close> has no domain and a nil resource.\<close>

record unitDepends =
  ud_Host :: string
  ud_Domain :: "nat option"
  ud_Resource :: "nat option"

record ustate =
  us_vmDomains :: "nat list"
  us_vmDepends :: "nat list"
  us_fileDepends :: "nat list"
  us_pkgInstalls :: "nat list"
  us_prime :: unitDepends
  us_unitMap :: "string \<Rightarrow> unitDepends list"

definition startState :: ustate where
  "startState =
     \<lparr>us_vmDomains = [], us_vmDepends = [], us_fileDepends = [], us_pkgInstalls = [],
      us_prime = \<lparr>ud_Host = '''', ud_Domain = None, ud_Resource = None\<rparr>, us_unitMap = (\<lambda>_. [])\<rparr>"

section \<open>Shared pieces\<close>

definition remoteRemoteFile :: string where
  "remoteRemoteFile = ''/usr/local/sbin/remote''"

definition ip4Of :: "nat option \<Rightarrow> piece" where
  "ip4Of d = Attr IPv4Of d"

text \<open>\<open>remote.ConnectionArgs\<close>: root at the address, with the private key.\<close>

definition connectionArgs :: "nat option \<Rightarrow> SshData \<Rightarrow> string \<times> arg" where
  "connectionArgs d key =
     (''connection'', AObj [(''host'', AStr [ip4Of d]), (''user'', str ''root''),
        (''privateKey'', str (sd_PrvKey key))])"

definition remoteCommand ::
  "site \<Rightarrow> string \<Rightarrow> nat option \<Rightarrow> SshData \<Rightarrow> outval \<Rightarrow> nat list \<Rightarrow> resource" where
  "remoteCommand st nm d key create deps =
     res st nm [connectionArgs d key, (''create'', AStr create)] deps"

definition remoteCopyFile ::
  "site \<Rightarrow> string \<Rightarrow> nat option \<Rightarrow> SshData \<Rightarrow> string \<Rightarrow> string \<Rightarrow> nat list \<Rightarrow> resource" where
  "remoteCopyFile st nm d key lcl rmt deps =
     res st nm [connectionArgs d key, (''localPath'', str lcl), (''remotePath'', str rmt)] deps"

definition localCommand :: "site \<Rightarrow> string \<Rightarrow> outval \<Rightarrow> nat list \<Rightarrow> resource" where
  "localCommand st nm create deps = res st nm [(''create'', AStr create)] deps"

section \<open>The base image of a configuration\<close>

definition baseVolumeResource :: "LibvirtShared \<Rightarrow> string \<Rightarrow> string \<Rightarrow> resource" where
  "baseVolumeResource shared baseName instLink =
     (res SBaseVolume baseName
       [(''name'', str baseName),
        (''pool'', AStr [Attr NameOf (Some (ls_VmStoragePool shared))]),
        (''source'', str (''file://'' @ instLink))] [])\<lparr>r_provider := Some (ls_Provider shared)\<rparr>"

definition configSetup :: "env \<Rightarrow> State \<Rightarrow> Unit \<Rightarrow> Config \<Rightarrow> LibvirtShared \<Rightarrow> nat io" where
  "configSetup env state unit config shared =
     bindG (ctxExport (''dbg:'' @ u_Name unit @ '':'' @ c_Name config) [Lit (u_Name unit)]) (\<lambda>_.
     bindG (ctxExport (''dbg:'' @ u_Name unit @ '':'' @ c_Name config @ '':state'')
              [Lit (formatState state)]) (\<lambda>_.
     let cacheSource = pathJoin [st_cachedir state, c_Qcow2 config] in
     bindG (registerArtifact env state (u_Name unit @ ''/'' @ c_Name config @ ''.qcow2'')) (\<lambda>instLink.
     bindG (osLink env cacheSource instLink) (\<lambda>_.
     let baseName = ''baseimage-'' @ u_Name unit @ ''-'' @ c_Name config in
     newResource env (baseVolumeResource shared baseName instLink)))))"

section \<open>One vm: disk, cloud-init and domain\<close>

definition diskResource :: "LibvirtShared \<Rightarrow> nat \<Rightarrow> Config \<Rightarrow> string \<Rightarrow> resource" where
  "diskResource shared baseVolume config hostName =
     (res SDisk (hostName @ ''-disk'' @ showInt 1)
       [(''pool'', AStr [Attr NameOf (Some (ls_VmStoragePool shared))]),
        (''baseVolumeName'', AStr [Attr NameOf (Some baseVolume)]),
        (''baseVolumePool'', AStr [Attr NameOf (Some (ls_VmStoragePool shared))]),
        (''size'', ANum (c_Disksize config))] [])\<lparr>r_provider := Some (ls_Provider shared)\<rparr>"

definition cloudInitResource :: "LibvirtShared \<Rightarrow> string \<Rightarrow> string \<Rightarrow> string \<Rightarrow> resource" where
  "cloudInitResource shared hostName meta user =
     (res SCloudinit (hostName @ ''-cloudinit'')
       [(''networkConfig'', str meta), (''userData'', str user),
        (''pool'', AStr [Attr NameOf (Some (ls_CloudInitStoragePool shared))])] [])
       \<lparr>r_provider := Some (ls_Provider shared)\<rparr>"

definition domainResource :: "LibvirtShared \<Rightarrow> Config \<Rightarrow> string \<Rightarrow> nat \<Rightarrow> nat \<Rightarrow> resource" where
  "domainResource shared config hostName disk1 cloudInit =
     (res SDomain hostName
       [(''memory'', ANum (goDiv (c_Memory config) MIB)),
        (''vcpu'', ANum (c_Cpu config)),
        (''cloudinit'', AStr [Attr IdOf (Some cloudInit)]),
        (''disks'', AList [AObj [(''volumeId'', AStr [Attr IdOf (Some disk1)])]]),
        (''networkInterfaces'', AList [AObj
           [(''hostname'', str hostName),
            (''networkName'', AStr [Attr NameOf (Some (ls_Network shared))]),
            (''waitForLease'', ABool True)]]),
        (''consoles'', AList [AObj
           [(''type'', str ''pty''), (''targetPort'', str ''0''), (''targetType'', str ''serial'')]])] [])
       \<lparr>r_provider := Some (ls_Provider shared),
        r_opts := [(''replaceOnChanges'', AList [str ''*'']), (''deleteBeforeReplace'', ABool True)]\<rparr>"

text \<open>
  The error of \<open>cloudinit.UserData\<close> is overwritten, so the user data is then empty. The error
  of \<open>NewDomain\<close> is not looked at before \<open>*domain\<close> is read: a nil dereference.
\<close>

definition vmDomain ::
  "env \<Rightarrow> State \<Rightarrow> Unit \<Rightarrow> Config \<Rightarrow> LibvirtShared \<Rightarrow> SshData \<Rightarrow> 'c Network \<Rightarrow> nat \<Rightarrow> nat \<Rightarrow>
     (string \<times> nat) io" where
  "vmDomain env state unit config shared key netconfig baseVolume idx =
     bindG (answer (e_petname env) EvPetname) (\<lambda>hostName.
     bindG (ctxExport (u_Name unit @ ''-'' @ c_Name config @ '':vm'' @ showNat idx) [Lit hostName]) (\<lambda>_.
     bindG (newResource env (diskResource shared baseVolume config hostName)) (\<lambda>disk1.
     bindG (registerArtifact env state (hostName @ ''/cloudinit/userdata'')) (\<lambda>userDataFile.
     bindG (registerArtifact env state (hostName @ ''/cloudinit/metadata'')) (\<lambda>metaDataFile.
     bindG (tryG (userData env hostName (sd_PubKey key) (n_Domain netconfig))) (\<lambda>r.
     let user = (case r of Inl _ \<Rightarrow> '''' | Inr d \<Rightarrow> d) in
     bindG (osWriteFile env userDataFile user (perm 6 0 0)) (\<lambda>_.
     bindG (metaData env) (\<lambda>meta.
     bindG (osWriteFile env metaDataFile meta (perm 6 0 0)) (\<lambda>_.
     bindG (newResource env (cloudInitResource shared hostName meta user)) (\<lambda>cloudInit.
     bindG (tryG (newResource env (domainResource shared config hostName disk1 cloudInit))) (\<lambda>d.
     (case d of
        Inl _ \<Rightarrow> panicG ''nil pointer dereference''
      | Inr domain \<Rightarrow> returnG (hostName, domain)))))))))))))"

section \<open>One vm: remote checks\<close>

text \<open>
  Waits for ssh, copies the program over and runs it once; also registers the motd command,
  which later stands for the vm. Returns the check and the motd command.
\<close>

definition vmRemote :: "env \<Rightarrow> State \<Rightarrow> SshData \<Rightarrow> string \<Rightarrow> nat \<Rightarrow> (nat \<times> nat) io" where
  "vmRemote env state key hostName domain =
     bindG (newResource env (remoteCommand SSshCheck (hostName @ '' sshkey?'') (Some domain) key
              [Lit ''uptime''] [domain])) (\<lambda>ensureSshKey.
     bindG (registerArtifact env state ''bin/remote'') (\<lambda>remoteFile.
     bindG (newResource env (remoteCopyFile SCopyRemote (hostName @ '' copy remote'') (Some domain) key
              remoteFile remoteRemoteFile [ensureSshKey])) (\<lambda>copyRemote.
     bindG (newResource env (remoteCommand SInitCheck (hostName @ '' remote?'') (Some domain) key
              [Lit (''chmod 755 '' @ remoteRemoteFile @ '' && '' @ remoteRemoteFile @ '' initcheck'')]
              [ensureSshKey, copyRemote])) (\<lambda>remoteOk.
     bindG (newResource env (remoteCommand SMotd (hostName @ '' /etc/motd'') (Some domain) key
              [Lit ''install -m644 /dev/null /etc/motd''] [ensureSshKey])) (\<lambda>vmSetup.
     returnG (remoteOk, vmSetup))))))"

section \<open>One vm: packages\<close>

definition vmOnline ::
  "env \<Rightarrow> Unit \<Rightarrow> SshData \<Rightarrow> string \<Rightarrow> nat \<Rightarrow> ustate \<Rightarrow> ustate io" where
  "vmOnline env unit key hostName domain us =
     (if u_Online unit then
        bindG (newResource env (remoteCommand SZypper (u_Name unit @ '':'' @ hostName @ '' zypper -n in open-iscsi'')
                 (Some domain) key [Lit ''zypper -n in open-iscsi''] (us_vmDepends us))) (\<lambda>zypper.
        bindG (newResource env (remoteCommand SIscsi (u_Name unit @ '':'' @ hostName @ '' systemctl enable iscsid'')
                 (Some domain) key [Lit ''systemctl enable iscsid --now''] [zypper])) (\<lambda>enableIscsi.
        returnG (us\<lparr>us_pkgInstalls := us_pkgInstalls us @ [zypper, enableIscsi]\<rparr>)))
      else returnG us)"

section \<open>One vm: the component and its logs\<close>

text \<open>The two quote characters, for the shell commands.\<close>

definition sq :: string where "sq = [CHR 0x27]"
definition dq :: string where "dq = [CHR 0x22]"

definition sshRoot :: "SshData \<Rightarrow> string" where
  "sshRoot key =
     ''ssh -q -o UserKnownHostsFile=/dev/null -o StrictHostKeyChecking=no -o IdentityFile='' @
     sd_PrvKeyFile key @ '' root@''"

definition ciLogFiles :: "string list" where
  "ciLogFiles = [''cloud-init.log'', ''cloud-init-output.log'']"

definition vmLogs :: "env \<Rightarrow> State \<Rightarrow> SshData \<Rightarrow> string \<Rightarrow> nat \<Rightarrow> nat list \<Rightarrow> unit io" where
  "vmLogs env state key hostName domain vmDepends =
     bindG (registerComponent env SVmComponent ''shenanigans:libvirt:vm'' hostName) (\<lambda>_.
     forG ciLogFiles (\<lambda>log _.
       let remoteLog = pathJoin [''/var/log'', log] in
       bindG (registerArtifact env state (hostName @ ''/cloudinit/'' @ log)) (\<lambda>localLog.
       bindG (newResource env (localCommand SLogCopy (hostName @ '' copy '' @ log)
                [Lit (sshRoot key), ip4Of (Some domain),
                 Lit ('' '' @ sq @ ''cat '' @ remoteLog @ sq @ '' > '' @ localLog)] vmDepends)) (\<lambda>_.
       returnG ()))) ())"

section \<open>One vm: input files\<close>

definition installText :: "RemoteFile \<Rightarrow> string \<Rightarrow> string" where
  "installText rf uniqTmpFile =
     ''install -dm755 '' @ pathDir (rf_Dest rf) @ '' && mv '' @ uniqTmpFile @ '' '' @ rf_Dest rf @
     '' && chown '' @ rf_Owner rf @ '':'' @ rf_Group rf @ '' '' @ rf_Dest rf @
     '' && chmod '' @ rf_Mode rf @ '' '' @ rf_Dest rf"

definition vmInput :: "env \<Rightarrow> State \<Rightarrow> SshData \<Rightarrow> nat \<Rightarrow> CachedFile \<Rightarrow> nat list \<Rightarrow> nat list io" where
  "vmInput env state key domain f fileDepends =
     (let remoteFile = rf_Dest (cf_Remote f) in
      if remoteFile \<noteq> '''' then
        bindG (randomString env 8) (\<lambda>uniq.
        let cacheFile = pathJoin [st_cachedir state, cf_Sha256Sum f];
            uniqTmpFile = pathJoin [''/tmp'', uniq] in
        bindG (newResource env (remoteCopyFile SCopyInput (''local:'' @ remoteFile @ ''->'' @ uniqTmpFile)
                 (Some domain) key cacheFile uniqTmpFile [])) (\<lambda>copyInput.
        bindG (newResource env (remoteCommand SInstallFile (''install '' @ uniqTmpFile @ ''->'' @ remoteFile)
                 (Some domain) key [Lit (installText (cf_Remote f) uniqTmpFile)] [copyInput])) (\<lambda>installFile.
        returnG (fileDepends @ [installFile]))))
      else returnG fileDepends)"

definition vmInputs ::
  "env \<Rightarrow> State \<Rightarrow> SshData \<Rightarrow> nat \<Rightarrow> CachedFile list \<Rightarrow> nat list \<Rightarrow> nat list io" where
  "vmInputs env state key domain inputs fileDepends =
     forG inputs (\<lambda>f fileDepends. vmInput env state key domain f fileDepends) fileDepends"

section \<open>One vm: what later steps depend on\<close>

text \<open>
  The first vm of a configuration called \<open>default\<close> becomes the prime one; every other vm is
  filed under the name of its configuration.
\<close>

definition vmBook :: "Config \<Rightarrow> nat \<Rightarrow> string \<Rightarrow> nat \<Rightarrow> nat \<Rightarrow> ustate \<Rightarrow> ustate" where
  "vmBook config idx hostName domain vmSetup us =
     (let this = \<lparr>ud_Host = hostName, ud_Domain = Some domain, ud_Resource = Some vmSetup\<rparr> in
      if c_Name config = ''default'' \<and> idx = 0 then us\<lparr>us_prime := this\<rparr>
      else us\<lparr>us_unitMap := (us_unitMap us)(c_Name config := us_unitMap us (c_Name config) @ [this])\<rparr>)"

section \<open>One vm, and all vms of a unit\<close>

text \<open>
  The variables of the loops: the record, the arrays behind slices, and the slice \<open>vmDepends\<close>.
  What is appended to \<open>vmDepends\<close> goes to its array, and \<open>us_vmDepends\<close> is read back from there.
\<close>

type_synonym unitVars = "ustate \<times> nat store \<times> slice"

definition setupVm ::
  "env \<Rightarrow> State \<Rightarrow> Unit \<Rightarrow> Config \<Rightarrow> LibvirtShared \<Rightarrow> SshData \<Rightarrow> CachedFile list \<Rightarrow> 'c Network \<Rightarrow>
     nat \<Rightarrow> nat \<Rightarrow> unitVars \<Rightarrow> unitVars io" where
  "setupVm env state unit config shared key inputs netconfig baseVolume idx = (\<lambda>(us, h, vmDepends).
     bindG (vmDomain env state unit config shared key netconfig baseVolume idx) (\<lambda>(hostName, domain).
     let us = us\<lparr>us_vmDomains := us_vmDomains us @ [domain]\<rparr> in
     bindG (vmRemote env state key hostName domain) (\<lambda>(remoteOk, vmSetup).
     let (h, vmDepends) = appendS (e_grow env) h vmDepends [remoteOk]; us = us\<lparr>us_vmDepends := cells h vmDepends\<rparr> in
     bindG (vmOnline env unit key hostName domain us) (\<lambda>us.
     bindG (vmLogs env state key hostName domain (us_vmDepends us)) (\<lambda>_.
     bindG (vmInputs env state key domain inputs (us_fileDepends us)) (\<lambda>fileDepends.
     let us = us\<lparr>us_fileDepends := fileDepends\<rparr>;
         (h, vmDepends) = appendS (e_grow env) h vmDepends [vmSetup];
         (h, vmDepends) = appendS (e_grow env) h vmDepends fileDepends;
         us = us\<lparr>us_vmDepends := cells h vmDepends\<rparr> in
     returnG (vmBook config idx hostName domain vmSetup us, h, vmDepends)))))))"

definition setupConfig ::
  "env \<Rightarrow> State \<Rightarrow> Unit \<Rightarrow> LibvirtShared \<Rightarrow> SshData \<Rightarrow> CachedFile list \<Rightarrow> 'c Network \<Rightarrow>
     Config \<Rightarrow> unitVars \<Rightarrow> unitVars io" where
  "setupConfig env state unit shared key inputs netconfig config vars =
     bindG (configSetup env state unit config shared) (\<lambda>baseVolume.
     forG [0..<nat (c_Count config)] (\<lambda>idx vars.
       setupVm env state unit config shared key inputs netconfig baseVolume idx vars) vars)"

definition setupVms ::
  "env \<Rightarrow> State \<Rightarrow> Unit \<Rightarrow> LibvirtShared \<Rightarrow> SshData \<Rightarrow> CachedFile list \<Rightarrow> 'c Network \<Rightarrow> unitVars io" where
  "setupVms env state unit shared key inputs netconfig =
     forG (u_Config unit) (\<lambda>config vars.
       setupConfig env state unit shared key inputs netconfig config vars) (startState, emptyStore, nilS)"

section \<open>References\<close>

lemma refsOf_commands [simp]:
  "set (refsOf (remoteCommand st nm d key create deps)) =
     set deps \<union> set_option d \<union> set (concat (map pieceRefs create))"
  "set (refsOf (remoteCopyFile st nm d key lcl rmt deps)) = set deps \<union> set_option d"
  "set (refsOf (localCommand st nm create deps)) = set deps \<union> set (concat (map pieceRefs create))"
  by (cases d; auto simp: remoteCommand_def remoteCopyFile_def localCommand_def connectionArgs_def
      refsOf_def ip4Of_def)+

lemma pieceRefs_ip4Of [simp]: "set (pieceRefs (ip4Of d)) = set_option d"
  by (cases d) (simp_all add: ip4Of_def)

lemma refsOf_volumes [simp]:
  "set (refsOf (baseVolumeResource shared b l)) = {ls_Provider shared, ls_VmStoragePool shared}"
  "set (refsOf (diskResource shared v config h)) = {ls_Provider shared, ls_VmStoragePool shared, v}"
  "set (refsOf (cloudInitResource shared h m u)) = {ls_Provider shared, ls_CloudInitStoragePool shared}"
  "set (refsOf (domainResource shared config h d c)) = {ls_Provider shared, ls_Network shared, d, c}"
  by (auto simp: baseVolumeResource_def diskResource_def cloudInitResource_def domainResource_def refsOf_def)

end
