(* ===== verification/Libvirt_Unit.thy ===== *)
theory Libvirt_Unit
  imports Libvirt_Vm
begin

text \<open>
  \<open>src/pkg/providers/libvirt/libvirt.go\<close>, the rest of \<open>Unit\<close>: the ssh configuration of the
  unit's vms, the Kubernetes installation of a unit of kind \<open>k8s\<close> and the helmfiles of an online
  unit. \<open>libvirtUnit\<close> is the whole function.
\<close>

section \<open>The ssh configuration\<close>

text \<open>The entry of vm number \<open>idx\<close>; host name and address come from its domain.\<close>

definition sshConfigEntry :: "SshData \<Rightarrow> nat \<Rightarrow> nat \<Rightarrow> outval" where
  "sshConfigEntry key idx vm =
     [Lit ''Host '', Attr HostnameOf (Some vm), Lit ('' vm'' @ showNat idx @ newline @ ''  Hostname ''),
      ip4Of (Some vm),
      Lit (newline @ ''  IdentityFile '' @ sd_PrvKeyFile key @ newline @ ''  User root'' @ newline @
           ''  UserKnownHostsFile /dev/null'' @ newline @ ''  StrictHostKeyChecking no'' @ newline @
           ''  LogLevel QUIET'' @ newline)]"

definition sshConfigContent :: "SshData \<Rightarrow> nat list \<Rightarrow> outval" where
  "sshConfigContent key vmDomains =
     foldl (\<lambda>c (idx, vm). c @ sshConfigEntry key idx vm) [Lit ''''] (enumerate 0 vmDomains)"

text \<open>The error of this registration is dropped.\<close>

definition unitSshConfig :: "env \<Rightarrow> State \<Rightarrow> Unit \<Rightarrow> SshData \<Rightarrow> ustate \<Rightarrow> unit io" where
  "unitSshConfig env state unit key us =
     (let sshName = u_Name unit @ '':ssh-config'' in
      bindG (registerArtifact env state (u_Name unit @ ''/ssh/config'')) (\<lambda>sshConfigFile.
      bindG (tryG (newResource env (localCommand SSshConfig sshName
               ([Lit (''echo '' @ sq)] @ sshConfigContent key (us_vmDomains us) @
                [Lit (sq @ '' > '' @ sshConfigFile)]) (us_vmDepends us)))) (\<lambda>_.
      ctxExport sshName [Lit sshConfigFile])))"

section \<open>Kubernetes\<close>

definition remoteKubeconfig :: string where
  "remoteKubeconfig = ''/etc/rancher/rke2/rke2.yaml''"

text \<open>Copies the kubeconfig of the prime node with the loopback address replaced.\<close>

definition copyKubeconfig :: "SshData \<Rightarrow> nat option \<Rightarrow> outval \<Rightarrow> string \<Rightarrow> outval" where
  "copyKubeconfig key primeDomain addr localKubeconfig =
     [Lit (sshRoot key), ip4Of primeDomain,
      Lit ('' '' @ sq @ ''cat '' @ remoteKubeconfig @ '' | sed -e '' @ dq @ ''s/127.0.0.1/'')] @ addr @
     [Lit (''/'' @ dq @ sq @ '' > '' @ localKubeconfig @ '' && chmod 600 '' @ localKubeconfig)]"

definition vipText :: "Host \<Rightarrow> string" where
  "vipText h = h_Ipv4 h @ '':'' @ h_Fqdn h"

definition primeInstall :: "Unit \<Rightarrow> SshData \<Rightarrow> unitDepends \<Rightarrow> Host \<Rightarrow> nat list \<Rightarrow> resource" where
  "primeInstall unit key prime h0 deps =
     remoteCommand SK8sPrime (u_Name unit @ '':'' @ ud_Host prime @ '' k8s prime'') (ud_Domain prime) key
       [Lit (''/usr/local/sbin/remote k8s --prime --vip '' @ vipText h0)] deps"

definition adminInstall :: "Unit \<Rightarrow> SshData \<Rightarrow> unitDepends \<Rightarrow> Host \<Rightarrow> nat list \<Rightarrow> unitDepends \<Rightarrow> resource" where
  "adminInstall unit key prime h0 deps vm =
     remoteCommand SK8sAdmin (u_Name unit @ '':'' @ ud_Host vm @ '' k8s admin --vip '' @ vipText h0)
       (ud_Domain vm) key
       [Lit ''/usr/local/sbin/remote k8s --upstream '', ip4Of (ud_Domain prime),
        Lit ('' --vip '' @ vipText h0)] deps"

definition workerInstall :: "Unit \<Rightarrow> SshData \<Rightarrow> unitDepends \<Rightarrow> nat list \<Rightarrow> unitDepends \<Rightarrow> resource" where
  "workerInstall unit key prime deps vm =
     remoteCommand SK8sWorker (u_Name unit @ '':'' @ ud_Host vm @ '' k8s worker'') (ud_Domain vm) key
       [Lit ''/usr/local/sbin/remote k8s --worker --upstream '', ip4Of (ud_Domain prime)] deps"

definition kubeArtifact :: "Unit \<Rightarrow> string" where
  "kubeArtifact unit = ''/'' @ u_Name unit @ ''/kube/config''"

text \<open>
  \<open>k8sDepends := vmDepends\<close> makes a second slice of the same array. The control-plane loop reads
  the first network host in every iteration.
\<close>

definition unitK8s ::
  "env \<Rightarrow> State \<Rightarrow> Unit \<Rightarrow> SshData \<Rightarrow> 'c Network \<Rightarrow> ustate \<Rightarrow> nat store \<Rightarrow> slice \<Rightarrow>
     (nat store \<times> slice \<times> slice) io" where
  "unitK8s env state unit key netconfig us h vmDepends =
     (let k8sDepends = vmDepends; prime = us_prime us in
      if u_Kind unit = ''k8s'' then
        bindG (indexG (n_Hosts netconfig) 0) (\<lambda>h0.
        bindG (newResource env (primeInstall unit key prime h0 (cells h k8sDepends))) (\<lambda>k8sInstall.
        let (h, k8sDepends) = appendS (e_grow env) h k8sDepends [k8sInstall]; kubeName = u_Name unit @ '':kube-config'' in
        bindG (registerArtifact env state (kubeArtifact unit)) (\<lambda>localKubeconfig.
        bindG (newResource env (localCommand SKubeConfig (u_Name unit @ '' copy kubeconfig'')
                 (copyKubeconfig key (ud_Domain prime) [ip4Of (ud_Domain prime)] localKubeconfig)
                 (cells h k8sDepends))) (\<lambda>_.
        bindG (ctxExport kubeName [Lit localKubeconfig]) (\<lambda>_.
        bindG (forG (us_unitMap us ''default'') (\<lambda>vm ids.
                 bindG (newResource env (adminInstall unit key prime h0 (cells h k8sDepends) vm)) (\<lambda>anadmin.
                 returnG (ids @ [anadmin]))) []) (\<lambda>defaultInstalls.
        bindG (forG (us_unitMap us ''agent'') (\<lambda>vm ids.
                 bindG (newResource env (workerInstall unit key prime (cells h k8sDepends) vm)) (\<lambda>aworker.
                 returnG (ids @ [aworker]))) []) (\<lambda>workerInstalls.
        let (h, vmDepends) = appendS (e_grow env) h vmDepends (cells h k8sDepends);
            (h, vmDepends) = appendS (e_grow env) h vmDepends defaultInstalls;
            (h, vmDepends) = appendS (e_grow env) h vmDepends workerInstalls in
        returnG (h, vmDepends, k8sDepends))))))))
      else returnG (h, vmDepends, k8sDepends))"

section \<open>Helmfiles\<close>

definition hackResource :: "site \<Rightarrow> string \<Rightarrow> string \<Rightarrow> Unit \<Rightarrow> SshData \<Rightarrow> unitDepends \<Rightarrow> nat list \<Rightarrow> resource" where
  "hackResource st what cmd unit key prime deps =
     remoteCommand st (u_Name unit @ '' '' @ what @ '' service vip hack'') (ud_Domain prime) key
       [Lit (''/usr/local/sbin/remote '' @ cmd)] deps"

definition helmfileResource :: "Unit \<Rightarrow> string \<Rightarrow> string \<Rightarrow> nat list \<Rightarrow> resource" where
  "helmfileResource unit hf localKubeconfig deps =
     localCommand SHelmfile (u_Name unit @ '' helmfile apply '' @ hf)
       [Lit (''cd helmfiles/'' @ hf @ '' && env KUBECONFIG='' @ localKubeconfig @ '' helmfile apply'')] deps"

text \<open>
  One helmfile. The kubeconfig registered in the \<open>kube-vip\<close> case is a variable of that case
  only, so \<open>localKubeconfig\<close> keeps its value for the helmfiles that follow.
\<close>

definition unitHelmfile ::
  "env \<Rightarrow> State \<Rightarrow> Unit \<Rightarrow> SshData \<Rightarrow> 'c Network \<Rightarrow> unitDepends \<Rightarrow> slice \<Rightarrow> string \<Rightarrow> string \<Rightarrow>
     nat store \<times> slice \<Rightarrow> (nat store \<times> slice) io" where
  "unitHelmfile env state unit key netconfig prime k8sDepends localKubeconfig hf = (\<lambda>(h, vmDepends).
     bindG (if hf = ''ai'' then
              bindG (newResource env (hackResource SAiHack ''open-webui'' ''aihack'' unit key prime (cells h vmDepends)))
                (\<lambda>i. returnG [i])
            else if hf = ''nexus'' then
              bindG (newResource env (hackResource SNexusHack ''nexus'' ''nexushack'' unit key prime (cells h vmDepends)))
                (\<lambda>i. returnG [i])
            else returnG []) (\<lambda>hack.
     bindG (newResource env (helmfileResource unit hf localKubeconfig (cells h vmDepends))) (\<lambda>helmfileApply.
     let (h, vmDepends) = appendS (e_grow env) h vmDepends [helmfileApply] in
     if hf = ''kube-vip'' then
       bindG (registerArtifact env state (''/'' @ u_Name unit @ ''/kube-vip/config'')) (\<lambda>localKubeconfig.
       bindG (indexG (n_Hosts netconfig) 0) (\<lambda>h0.
       bindG (newResource env (localCommand SKubeVipConfig (u_Name unit @ '' kube-vip kubeconfig'')
                (copyKubeconfig key (ud_Domain prime) [Lit (h_Ipv4 h0)] localKubeconfig) (cells h k8sDepends)))
         (\<lambda>kubeVipFile. returnG (appendS (e_grow env) h vmDepends [kubeVipFile]))))
     else returnG (appendS (e_grow env) h vmDepends hack))))"

definition unitOnline ::
  "env \<Rightarrow> State \<Rightarrow> Unit \<Rightarrow> SshData \<Rightarrow> 'c Network \<Rightarrow> ustate \<Rightarrow> slice \<Rightarrow> nat store \<times> slice \<Rightarrow>
     (nat store \<times> slice) io" where
  "unitOnline env state unit key netconfig us k8sDepends = (\<lambda>(h, vmDepends).
     if u_Online unit then
       let (h, vmDepends) = appendS (e_grow env) h vmDepends (us_pkgInstalls us) in
       bindG (registerArtifact env state (kubeArtifact unit)) (\<lambda>localKubeconfig.
       if u_Name unit = ''upstream'' \<and> e_getenv env ''NOHELMFILE'' = '''' then
         forG (u_Helmfiles unit)
           (\<lambda>hf hv. unitHelmfile env state unit key netconfig (us_prime us) k8sDepends localKubeconfig hf hv)
           (h, vmDepends)
       else returnG (h, vmDepends))
     else returnG (h, vmDepends))"

section \<open>The whole function\<close>

definition libvirtUnit ::
  "env \<Rightarrow> State \<Rightarrow> Unit \<Rightarrow> LibvirtShared \<Rightarrow> SshData \<Rightarrow> CachedFile list \<Rightarrow> 'c Network \<Rightarrow>
     unit io" where
  "libvirtUnit env state unit shared key inputs netconfig =
     bindG (setupVms env state unit shared key inputs netconfig) (\<lambda>(us, h, vmDepends).
     bindG (unitSshConfig env state unit key us) (\<lambda>_.
     bindG (unitK8s env state unit key netconfig us h vmDepends) (\<lambda>(h, vmDepends, k8sDepends).
     bindG (unitOnline env state unit key netconfig us k8sDepends (h, vmDepends)) (\<lambda>_.
     returnG ()))))"

section \<open>Call sites\<close>

lemma site_simps [simp]:
  "r_site (remoteCommand st nm od key create deps) = st"
  "r_site (remoteCopyFile st nm od key lcl rmt deps) = st"
  "r_site (localCommand st nm create deps) = st"
  "r_site (baseVolumeResource shared b l) = SBaseVolume"
  "r_site (diskResource shared v config h) = SDisk"
  "r_site (cloudInitResource shared h m u) = SCloudinit"
  "r_site (domainResource shared config h d c) = SDomain"
  "r_site (primeInstall unit key p h0 ds) = SK8sPrime"
  "r_site (adminInstall unit key p h0 ds vm) = SK8sAdmin"
  "r_site (workerInstall unit key p ds vm) = SK8sWorker"
  "r_site (hackResource st w cmd unit key p ds) = st"
  "r_site (helmfileResource unit hf kc ds) = SHelmfile"
  by (simp_all add: remoteCommand_def remoteCopyFile_def localCommand_def baseVolumeResource_def
      diskResource_def cloudInitResource_def domainResource_def primeInstall_def adminInstall_def
      workerInstall_def hackResource_def helmfileResource_def)

section \<open>References of the rest\<close>

lemma refs_sshConfig: "set (concat (map pieceRefs (sshConfigContent key vms))) = set vms"
proof -
  have "set (concat (map pieceRefs (foldl (\<lambda>c (idx, vm). c @ sshConfigEntry key idx vm) c (enumerate n vms)))) =
      set (concat (map pieceRefs c)) \<union> set vms" for n c
    by (induction vms arbitrary: n c) (auto simp: sshConfigEntry_def ip4Of_def)
  then show ?thesis by (simp add: sshConfigContent_def)
qed

lemma refs_copyKubeconfig:
  "set (concat (map pieceRefs (copyKubeconfig key d addr f))) = set_option d \<union> set (concat (map pieceRefs addr))"
  by (simp add: copyKubeconfig_def)

lemma refs_installs [simp]:
  "set (refsOf (primeInstall unit key p h ds)) = set ds \<union> set_option (ud_Domain p)"
  "set (refsOf (adminInstall unit key p h ds vm)) = set ds \<union> set_option (ud_Domain vm) \<union> set_option (ud_Domain p)"
  "set (refsOf (workerInstall unit key p ds vm)) = set ds \<union> set_option (ud_Domain vm) \<union> set_option (ud_Domain p)"
  "set (refsOf (hackResource st w c unit key p ds)) = set ds \<union> set_option (ud_Domain p)"
  "set (refsOf (helmfileResource unit hf l ds)) = set ds"
  by (auto simp: primeInstall_def adminInstall_def workerInstall_def hackResource_def helmfileResource_def)

end
