(* ===== verification/Libvirt_Values.thy ===== *)
theory Libvirt_Values
  imports Libvirt_Unit
begin

text \<open>
  \<open>Unit\<close> of \<open>src/pkg/providers/libvirt/libvirt.go\<close> once more, as a specification in which slices
  are lists: \<open>libvirtUnitV\<close> appends to values, and the one effect that the shared array of
  \<open>vmDepends\<close> and \<open>k8sDepends\<close> can have is its argument \<open>lost\<close>. The result is that \<open>libvirtUnit\<close>,
  over a store of arrays, is this function on every runtime, with \<open>lost\<close> computed from the number of
  vms and of files. The laws of the unit are proved of the specification.
\<close>

section \<open>The unit over lists\<close>

definition vmBookV :: "Config \<Rightarrow> nat \<Rightarrow> string \<Rightarrow> nat \<Rightarrow> nat \<Rightarrow> ustate \<Rightarrow> ustate" where
  "vmBookV config idx hostName domain vmSetup us =
     vmBook config idx hostName domain vmSetup (us\<lparr>us_vmDepends := us_vmDepends us @ [vmSetup] @ us_fileDepends us\<rparr>)"

definition setupVmV ::
  "env \<Rightarrow> State \<Rightarrow> Unit \<Rightarrow> Config \<Rightarrow> LibvirtShared \<Rightarrow> SshData \<Rightarrow> CachedFile list \<Rightarrow> 'c Network \<Rightarrow>
     nat \<Rightarrow> nat \<Rightarrow> ustate \<Rightarrow> ustate io" where
  "setupVmV env state unit config shared key inputs netconfig baseVolume idx us =
     bindG (vmDomain env state unit config shared key netconfig baseVolume idx) (\<lambda>(hostName, domain).
     let us = us\<lparr>us_vmDomains := us_vmDomains us @ [domain]\<rparr> in
     bindG (vmRemote env state key hostName domain) (\<lambda>(remoteOk, vmSetup).
     let us = us\<lparr>us_vmDepends := us_vmDepends us @ [remoteOk]\<rparr> in
     bindG (vmOnline env unit key hostName domain us) (\<lambda>us.
     bindG (vmLogs env state key hostName domain (us_vmDepends us)) (\<lambda>_.
     bindG (vmInputs env state key domain inputs (us_fileDepends us)) (\<lambda>fileDepends.
     let us = us\<lparr>us_fileDepends := fileDepends\<rparr> in
     returnG (vmBookV config idx hostName domain vmSetup us))))))"

definition setupConfigV ::
  "env \<Rightarrow> State \<Rightarrow> Unit \<Rightarrow> LibvirtShared \<Rightarrow> SshData \<Rightarrow> CachedFile list \<Rightarrow> 'c Network \<Rightarrow>
     Config \<Rightarrow> ustate \<Rightarrow> ustate io" where
  "setupConfigV env state unit shared key inputs netconfig config us =
     bindG (configSetup env state unit config shared) (\<lambda>baseVolume.
     forG [0..<nat (c_Count config)] (\<lambda>idx us.
       setupVmV env state unit config shared key inputs netconfig baseVolume idx us) us)"

definition setupVmsV ::
  "env \<Rightarrow> State \<Rightarrow> Unit \<Rightarrow> LibvirtShared \<Rightarrow> SshData \<Rightarrow> CachedFile list \<Rightarrow> 'c Network \<Rightarrow> ustate io" where
  "setupVmsV env state unit shared key inputs netconfig =
     forG (u_Config unit) (\<lambda>config us.
       setupConfigV env state unit shared key inputs netconfig config us) startState"

text \<open>
  Returns the updated state and \<open>k8sDepends\<close> as the helmfiles see it: \<open>lost\<close> says that its last
  entry was written over.
\<close>

definition unitK8sV ::
  "bool \<Rightarrow> env \<Rightarrow> State \<Rightarrow> Unit \<Rightarrow> SshData \<Rightarrow> 'c Network \<Rightarrow> ustate \<Rightarrow> (ustate \<times> nat list) io" where
  "unitK8sV lost env state unit key netconfig us =
     (let k8sDepends = us_vmDepends us; prime = us_prime us in
      if u_Kind unit = ''k8s'' then
        bindG (indexG (n_Hosts netconfig) 0) (\<lambda>h0.
        bindG (newResource env (primeInstall unit key prime h0 k8sDepends)) (\<lambda>k8sInstall.
        let k8sDepends = k8sDepends @ [k8sInstall]; kubeName = u_Name unit @ '':kube-config'' in
        bindG (registerArtifact env state (kubeArtifact unit)) (\<lambda>localKubeconfig.
        bindG (newResource env (localCommand SKubeConfig (u_Name unit @ '' copy kubeconfig'')
                 (copyKubeconfig key (ud_Domain prime) [ip4Of (ud_Domain prime)] localKubeconfig)
                 k8sDepends)) (\<lambda>_.
        bindG (ctxExport kubeName [Lit localKubeconfig]) (\<lambda>_.
        bindG (forG (us_unitMap us ''default'') (\<lambda>vm ids.
                 bindG (newResource env (adminInstall unit key prime h0 k8sDepends vm)) (\<lambda>anadmin.
                 returnG (ids @ [anadmin]))) []) (\<lambda>defaultInstalls.
        bindG (forG (us_unitMap us ''agent'') (\<lambda>vm ids.
                 bindG (newResource env (workerInstall unit key prime k8sDepends vm)) (\<lambda>aworker.
                 returnG (ids @ [aworker]))) []) (\<lambda>workerInstalls.
        returnG (us\<lparr>us_vmDepends := us_vmDepends us @ k8sDepends @ defaultInstalls @ workerInstalls\<rparr>,
                 us_vmDepends us @ [if lost \<and> us_vmDepends us \<noteq> [] then hd (us_vmDepends us) else k8sInstall]))))))))
      else returnG (us, k8sDepends))"

definition unitHelmfileV ::
  "env \<Rightarrow> State \<Rightarrow> Unit \<Rightarrow> SshData \<Rightarrow> 'c Network \<Rightarrow> nat list \<Rightarrow> string \<Rightarrow> string \<Rightarrow> ustate \<Rightarrow> ustate io" where
  "unitHelmfileV env state unit key netconfig k8sDepends localKubeconfig hf us =
     (let prime = us_prime us in
      bindG (if hf = ''ai'' then
               bindG (newResource env (hackResource SAiHack ''open-webui'' ''aihack'' unit key prime (us_vmDepends us)))
                 (\<lambda>i. returnG [i])
             else if hf = ''nexus'' then
               bindG (newResource env (hackResource SNexusHack ''nexus'' ''nexushack'' unit key prime (us_vmDepends us)))
                 (\<lambda>i. returnG [i])
             else returnG []) (\<lambda>hack.
      bindG (newResource env (helmfileResource unit hf localKubeconfig (us_vmDepends us))) (\<lambda>helmfileApply.
      let us = us\<lparr>us_vmDepends := us_vmDepends us @ [helmfileApply]\<rparr> in
      if hf = ''kube-vip'' then
        bindG (registerArtifact env state (''/'' @ u_Name unit @ ''/kube-vip/config'')) (\<lambda>localKubeconfig.
        bindG (indexG (n_Hosts netconfig) 0) (\<lambda>h0.
        bindG (newResource env (localCommand SKubeVipConfig (u_Name unit @ '' kube-vip kubeconfig'')
                 (copyKubeconfig key (ud_Domain prime) [Lit (h_Ipv4 h0)] localKubeconfig) k8sDepends)) (\<lambda>kubeVipFile.
        returnG (us\<lparr>us_vmDepends := us_vmDepends us @ [kubeVipFile]\<rparr>))))
      else returnG (us\<lparr>us_vmDepends := us_vmDepends us @ hack\<rparr>))))"

definition unitOnlineV ::
  "env \<Rightarrow> State \<Rightarrow> Unit \<Rightarrow> SshData \<Rightarrow> 'c Network \<Rightarrow> nat list \<Rightarrow> ustate \<Rightarrow> ustate io" where
  "unitOnlineV env state unit key netconfig k8sDepends us =
     (if u_Online unit then
        let us = us\<lparr>us_vmDepends := us_vmDepends us @ us_pkgInstalls us\<rparr> in
        bindG (registerArtifact env state (kubeArtifact unit)) (\<lambda>localKubeconfig.
        if u_Name unit = ''upstream'' \<and> e_getenv env ''NOHELMFILE'' = '''' then
          forG (u_Helmfiles unit)
            (\<lambda>hf us. unitHelmfileV env state unit key netconfig k8sDepends localKubeconfig hf us) us
        else returnG us)
      else returnG us)"

definition libvirtUnitV ::
  "bool \<Rightarrow> env \<Rightarrow> State \<Rightarrow> Unit \<Rightarrow> LibvirtShared \<Rightarrow> SshData \<Rightarrow> CachedFile list \<Rightarrow> 'c Network \<Rightarrow> unit io" where
  "libvirtUnitV lost env state unit shared key inputs netconfig =
     bindG (setupVmsV env state unit shared key inputs netconfig) (\<lambda>us.
     bindG (unitSshConfig env state unit key us) (\<lambda>_.
     bindG (unitK8sV lost env state unit key netconfig us) (\<lambda>(us, k8sDepends).
     bindG (unitOnlineV env state unit key netconfig k8sDepends us) (\<lambda>_.
     returnG ()))))"

section \<open>The two slices\<close>

text \<open>Whether there is room behind \<open>vmDepends\<close> for a second copy of it and the installation.\<close>

definition roomFor :: "nat \<times> nat \<Rightarrow> bool" where
  "roomFor = (\<lambda>(len, cap). 0 < len \<and> 2 * len + 1 \<le> cap)"

abbreviation roomy :: "nat store \<Rightarrow> slice \<Rightarrow> bool" where
  "roomy h v \<equiv> roomFor (extent h v)"

lemmas roomy_def = roomFor_def extent_def

text \<open>The appends of the function: the installation, then everything to \<open>vmDepends\<close>.\<close>

lemma two_slices:
  assumes v: "validS h v"
    and 1: "appendS grow h v [i] = (h1, k)"
    and 2: "appendS grow h1 v (cells h1 k) = (h2, v2)"
    and 3: "appendS grow h2 v2 ds = (h3, v3)"
    and 4: "appendS grow h3 v3 ws = (h4, v4)"
  shows "cells h1 k = cells h v @ [i]"
    and "validS h4 v4 \<and> cells h4 v4 = cells h v @ (cells h v @ [i]) @ ds @ ws"
    and "cells h4 k = cells h v @ [if roomy h v then hd (cells h v) else i]"
    and "validS h4 k \<and> sl_len k \<le> sl_len v4"
proof -
  let ?n = "sl_len v"
  note len = cells_length [OF v]
  have k: "validS h1 k" "cells h1 k = cells h v @ [i]" using slices.app_ok [OF v 1] by simp_all
  show "cells h1 k = cells h v @ [i]" by (rule k)
  have v1: "validS h1 v" "cells h1 v = cells h v" using append_frame [OF v v 1] by simp_all
  have v2: "validS h2 v2" "cells h2 v2 = cells h v @ (cells h v @ [i])"
    using slices.app_ok [OF v1(1) 2] by (simp_all add: v1(2) k(2))
  have v3: "validS h3 v3" "cells h3 v3 = cells h2 v2 @ ds" using slices.app_ok [OF v2(1) 3] by simp_all
  show "validS h4 v4 \<and> cells h4 v4 = cells h v @ (cells h v @ [i]) @ ds @ ws"
    using slices.app_ok [OF v3(1) 4] by (simp add: v3(2) v2(2))
  have lk: "sl_len k = Suc ?n" using append_place(1) [OF 1] by simp
  have lv: "sl_len v2 = 2 * ?n + 1" using append_place(1) [OF 2] by (simp add: k(2) len)
  have lv3: "sl_len v2 \<le> sl_len v3" using append_place(1) [OF 3] by simp
  have later: "validS h4 k \<and> cells h4 k = cells h2 k" if "validS h2 k"
    using append_frame [OF v2(1) that 3] append_frame [OF v3(1) _ 4, of k] lk lv lv3 by auto
  have at: "validS h2 k \<and> cells h2 k = cells h v @ [if roomy h v then hd (cells h v) else i]"
  proof (cases "2 * ?n + 1 \<le> capacity h v")
    case True
    then have same: "sl_array k = sl_array v" and cap: "capacity h1 k = capacity h v"
      using append_place(2) [OF 1] by simp_all
    then have "capacity h1 v = capacity h v" by (simp add: capacity_def)
    then have "validS h2 k \<and> cells h2 k = take (Suc ?n) (cells h v @ cells h v @ [i])"
      using append_seen [OF v1(1) k(1) 2 same] True by (simp add: lk k(2) len v1(2))
    then show ?thesis using True len [symmetric] by (cases "cells h v") (simp_all add: roomy_def Suc_diff_le)
  next
    case False
    then have room: "\<not> roomy h v" by (simp add: roomy_def)
    have "sl_array k \<noteq> sl_array v \<or> capacity h1 v < sl_len v + length (cells h1 k)"
    proof (cases "Suc ?n \<le> capacity h v")
      case True
      with append_place(2) [OF 1] False show ?thesis by (auto simp: k(2) len capacity_def)
    next
      case False
      with append_place(3) [OF 1] v show ?thesis by (simp add: validS_def)
    qed
    then have "validS h2 k \<and> cells h2 k = cells h1 k"
      using append_frame [OF v1(1) k(1) 2] by blast
    with room show ?thesis by (simp add: k(2))
  qed
  with later show "cells h4 k = cells h v @ [if roomy h v then hd (cells h v) else i]" by simp
  from at later show "validS h4 k \<and> sl_len k \<le> sl_len v4"
    using append_place(1) [OF 4] lk lv lv3 by simp
qed

section \<open>The function over slices and over values\<close>

definition slicesOf :: "ustate \<Rightarrow> nat store \<times> slice \<times> slice \<Rightarrow> ustate \<times> nat list \<Rightarrow> bool" where
  "slicesOf us = (\<lambda>(h', v', k') (us', ks).
     validS h' v' \<and> validS h' k' \<and> sl_len k' \<le> sl_len v' \<and> us' = us\<lparr>us_vmDepends := cells h' v'\<rparr> \<and>
     cells h' k' = ks)"

lemma roomy_cells: "validS h v \<Longrightarrow> roomy h v \<Longrightarrow> cells h v \<noteq> []"
  by (auto simp: roomy_def dest: cells_length)

lemma unitK8s_alike:
  assumes "validS h v" and "us_vmDepends us = cells h v"
  shows "alike (slicesOf us) (unitK8s env state unit key netconfig us h v)
    (unitK8sV (roomy h v) env state unit key netconfig us)"
proof (cases "u_Kind unit = ''k8s''")
  case False
  with assms show ?thesis
    by (auto simp: unitK8s_def unitK8sV_def Let_def slicesOf_def intro!: alike_return)
next
  case True
  show ?thesis
    unfolding unitK8s_def unitK8sV_def Let_def if_P [OF True] assms(2)
    apply (rule alike_steps)+
    subgoal for h0 i
      apply (cases "appendS (e_grow env) h v [i]")
      subgoal premises first for h1 k
      proof -
        have k: "cells h1 k = cells h v @ [i]" using slices.app_ok [OF assms(1) first] by simp
        show ?thesis
          unfolding first prod.case k
          apply (rule alike_steps)+
          subgoal for f c u ds ws
          proof -
            obtain h2 v2 where 2: "appendS (e_grow env) h1 v (cells h v @ [i]) = (h2, v2)" by fastforce
            obtain h3 v3 where 3: "appendS (e_grow env) h2 v2 ds = (h3, v3)" by fastforce
            obtain h4 v4 where 4: "appendS (e_grow env) h3 v3 ws = (h4, v4)" by fastforce
            from two_slices [OF assms(1) first 2 [folded k] 3 4] True
            show ?thesis unfolding 2 3 4 prod.case
              by (intro alike_return) (use roomy_cells [OF assms(1)] in \<open>auto simp: slicesOf_def\<close>)
          qed
          done
      qed
      done
    done
qed

section \<open>How many vms and files there are\<close>

definition vmCount :: "Unit \<Rightarrow> nat" where
  "vmCount unit = sum_list (map (\<lambda>config. nat (c_Count config)) (u_Config unit))"

definition fileCount :: "CachedFile list \<Rightarrow> nat" where
  "fileCount inputs = length (filter (\<lambda>f. rf_Dest (cf_Remote f) \<noteq> '''') inputs)"

text \<open>
  Length and capacity of \<open>vmDepends\<close> after so many vms, with so many files for each: a vm appends
  its check, its motd command and all files of all vms so far.
\<close>

primrec dependsExtent :: "(nat \<Rightarrow> nat \<Rightarrow> nat) \<Rightarrow> nat \<Rightarrow> nat \<Rightarrow> nat \<times> nat" where
  "dependsExtent grow files 0 = (0, 0)"
| "dependsExtent grow files (Suc vms) = foldl (grown grow) (dependsExtent grow files vms) [1, 1, files * Suc vms]"

definition slicesClash :: "env \<Rightarrow> Unit \<Rightarrow> CachedFile list \<Rightarrow> bool" where
  "slicesClash env unit inputs \<longleftrightarrow> roomFor (dependsExtent (e_grow env) (fileCount inputs) (vmCount unit))"

lemma wp_vmInputs_count:
  "wp (vmInputs env state key d inputs fs) (\<lambda>fs' _. length fs' = length fs + fileCount inputs) (\<lambda>_. True) s"
proof -
  have count: "fileCount inputs = (\<Sum>f\<leftarrow>inputs. if rf_Dest (cf_Remote f) \<noteq> '''' then 1 else 0)"
    by (induction inputs) (simp_all add: fileCount_def)
  have step: "wp (vmInput env state key d f fs) (\<lambda>fs' _. length fs' = length fs +
      (if rf_Dest (cf_Remote f) \<noteq> '''' then 1 else 0)) (\<lambda>_. True) t" for f fs and t :: world
    unfolding vmInput_def Let_def by (intro wp_if wp_bind wp_anyway wp_return) simp_all
  show ?thesis unfolding vmInputs_def count by (rule wp_count_for) (rule step)
qed

lemma vmOnline_keeps:
  "wp (vmOnline env unit key h d us) (\<lambda>us' _. us_vmDomains us' = us_vmDomains us \<and> us_vmDepends us' = us_vmDepends us \<and>
     us_fileDepends us' = us_fileDepends us) (\<lambda>_. True) s"
  unfolding vmOnline_def by (intro wp_if wp_bind wp_anyway wp_return) simp_all

lemma vmBook_keeps [simp]:
  "us_vmDomains (vmBook config idx h d m us) = us_vmDomains us"
  "us_vmDepends (vmBook config idx h d m us) = us_vmDepends us"
  "us_fileDepends (vmBook config idx h d m us) = us_fileDepends us"
  by (simp_all add: vmBook_def Let_def)

lemma wp_setupVmV_domains:
  "wp (setupVmV env state unit config shared key inputs netconfig b idx us)
     (\<lambda>us' _. length (us_vmDomains us') = length (us_vmDomains us) + 1) (\<lambda>_. True) s"
  unfolding setupVmV_def Let_def
  apply (rule wp_bind, rule wp_anyway, clarsimp simp only: split_paired_all prod.case)
  apply (rule wp_bind, rule wp_anyway, clarsimp simp only: split_paired_all prod.case)
  apply (rule wp_bind, rule wp_weaken [OF vmOnline_keeps])
   apply (rule wp_bind, rule wp_anyway)
   apply (rule wp_bind, rule wp_anyway)
   apply (rule wp_return)
   apply (simp_all add: vmBookV_def)
  done

lemma wp_setupVmsV_domains:
  "wp (setupVmsV env state unit shared key inputs netconfig) (\<lambda>us _. length (us_vmDomains us) = vmCount unit) (\<lambda>_. True) s"
proof -
  have config: "wp (setupConfigV env state unit shared key inputs netconfig config us)
      (\<lambda>us' _. length (us_vmDomains us') = length (us_vmDomains us) + nat (c_Count config)) (\<lambda>_. True) t"
    for config us and t :: world
  proof -
    have "wp (forG [0..<nat (c_Count config)] (\<lambda>idx us. setupVmV env state unit config shared key inputs netconfig b idx us) us)
        (\<lambda>us' _. length (us_vmDomains us') = length (us_vmDomains us) + (\<Sum>idx\<leftarrow>[0..<nat (c_Count config)]. 1)) (\<lambda>_. True) u"
      for b and u :: world
      by (rule wp_count_for [where sz = "\<lambda>us. length (us_vmDomains us)"]) (rule wp_setupVmV_domains)
    then show ?thesis
      unfolding setupConfigV_def by (intro wp_bind [OF wp_anyway]) (simp add: sum_list_triv)
  qed
  have "wp (setupVmsV env state unit shared key inputs netconfig) (\<lambda>us _. length (us_vmDomains us) =
      length (us_vmDomains startState) + (\<Sum>config\<leftarrow>u_Config unit. nat (c_Count config))) (\<lambda>_. True) s"
    unfolding setupVmsV_def by (rule wp_count_for [where sz = "\<lambda>us. length (us_vmDomains us)"]) (rule config)
  then show ?thesis by (simp add: vmCount_def startState_def)
qed

section \<open>The vms over slices and over lists\<close>

definition tracked :: "env \<Rightarrow> CachedFile list \<Rightarrow> unitVars \<Rightarrow> ustate \<Rightarrow> bool" where
  "tracked env inputs = (\<lambda>(us, h, v) us'. us = us' \<and> validS h v \<and> cells h v = us_vmDepends us \<and>
     length (us_fileDepends us) = fileCount inputs * length (us_vmDomains us) \<and>
     extent h v = dependsExtent (e_grow env) (fileCount inputs) (length (us_vmDomains us)))"

lemma setupVm_alike:
  assumes "tracked env inputs vars us"
  shows "alike (tracked env inputs)
    (setupVm env state unit config shared key inputs netconfig baseVolume idx vars)
    (setupVmV env state unit config shared key inputs netconfig baseVolume idx us)"
proof -
  obtain h v where vars: "vars = (us, h, v)" and v: "validS h v" "cells h v = us_vmDepends us"
    and files: "length (us_fileDepends us) = fileCount inputs * length (us_vmDomains us)"
    and ext: "extent h v = dependsExtent (e_grow env) (fileCount inputs) (length (us_vmDomains us))"
    using assms by (cases vars) (auto simp: tracked_def)
  show ?thesis
    unfolding setupVm_def setupVmV_def vars prod.case Let_def
    apply (rule alike_steps)
    subgoal for p
      apply (cases p, simp only: prod.case)
      apply (rule alike_steps)
      subgoal for host domain q
        apply (cases q, simp only: prod.case)
        subgoal for remoteOk vmSetup
        proof -
          let ?us = "us\<lparr>us_vmDomains := us_vmDomains us @ [domain], us_vmDepends := us_vmDepends us @ [remoteOk]\<rparr>"
          obtain h1 v1 where 1: "appendS (e_grow env) h v [remoteOk] = (h1, v1)" by fastforce
          have v1: "validS h1 v1" and c1: "cells h1 v1 = us_vmDepends us @ [remoteOk]"
            using slices.app_ok [OF v(1) 1] by (simp_all add: v(2))
          have book: "alike (tracked env inputs)
              (case appendS (e_grow env) h1 v1 [vmSetup] of (h2, v2) \<Rightarrow> (case appendS (e_grow env) h2 v2 fd of (h3, v3) \<Rightarrow>
                 returnG (vmBook config idx host domain vmSetup (a\<lparr>us_fileDepends := fd, us_vmDepends := cells h3 v3\<rparr>), h3, v3)))
              (returnG (vmBookV config idx host domain vmSetup (a\<lparr>us_fileDepends := fd\<rparr>)))"
            if a: "us_vmDomains a = us_vmDomains us @ [domain]" "us_vmDepends a = cells h1 v1"
              "us_fileDepends a = us_fileDepends us"
              and fd: "length fd = length (us_fileDepends a) + fileCount inputs" for a fd
          proof -
            obtain h2 v2 where 2: "appendS (e_grow env) h1 v1 [vmSetup] = (h2, v2)" by fastforce
            obtain h3 v3 where 3: "appendS (e_grow env) h2 v2 fd = (h3, v3)" by fastforce
            from slices.app_ok [OF v1 2] slices.app_ok [OF _ 3]
            have "validS h3 v3" "cells h3 v3 = us_vmDepends a @ [vmSetup] @ fd" by (simp_all add: a)
            moreover have "extent h3 v3 = dependsExtent (e_grow env) (fileCount inputs) (Suc (length (us_vmDomains us)))"
              by (simp add: append_extent [OF 3] append_extent [OF 2] append_extent [OF 1] ext fd a(3) files algebra_simps)
            ultimately show ?thesis unfolding 2 3 prod.case
              by (intro alike_return) (simp add: tracked_def vmBookV_def a fd files algebra_simps)
          qed
          have e: "us_vmDepends (us\<lparr>us_vmDomains := x\<rparr>) = us_vmDepends us" for x by simp
          show ?thesis
            unfolding 1 prod.case c1 e
            apply (rule alike_steps_wp [OF vmOnline_keeps], elim conjE, simp only:)
            apply (rule alike_steps)
            apply (rule alike_steps_wp [OF wp_vmInputs_count], simp only:)
            apply (rule book)
               apply (simp_all add: c1)
            done
        qed
        done
      done
    done
qed

lemma setupVms_alike:
  "alike (tracked env inputs) (setupVms env state unit shared key inputs netconfig)
     (setupVmsV env state unit shared key inputs netconfig)"
  unfolding setupVms_def setupVmsV_def setupConfig_def setupConfigV_def
  by (intro alike_for alike_steps setupVm_alike) (simp_all add: tracked_def startState_def)

text \<open>What follows from it for the specification: with a clash there is something to lose.\<close>

lemma wp_setupVmsV_extent:
  "wp (setupVmsV env state unit shared key inputs netconfig)
     (\<lambda>us _. slicesClash env unit inputs \<longrightarrow> us_vmDepends us \<noteq> []) (\<lambda>_. True) s"
  using wp_conj [OF wp_alike [OF setupVms_alike] wp_setupVmsV_domains]
  by (rule wp_weaken) (auto simp: tracked_def slicesClash_def extent_def roomFor_def dest: cells_length)

section \<open>Helmfiles over slices and over lists\<close>

text \<open>\<open>k8sDepends\<close> is not touched any more: it is no longer than \<open>vmDepends\<close>.\<close>

definition stays :: "slice \<Rightarrow> nat list \<Rightarrow> ustate \<Rightarrow> nat store \<times> slice \<Rightarrow> ustate \<Rightarrow> bool" where
  "stays k ks us = (\<lambda>(h, v) us'. validS h v \<and> validS h k \<and> sl_len k \<le> sl_len v \<and> cells h k = ks \<and>
     us' = us\<lparr>us_vmDepends := cells h v\<rparr>)"

lemma stays_append:
  assumes "stays k ks us (h, v) us'" and "appendS grow h v xs = (h', v')"
  shows "stays k ks us (h', v') (us'\<lparr>us_vmDepends := us_vmDepends us' @ xs\<rparr>)"
  using assms slices.app_ok [of h v grow xs h' v'] append_frame [of h v k grow xs h' v'] append_place(1) [of grow h v xs h' v']
  by (auto simp: stays_def)

lemma unitHelmfile_alike:
  assumes "stays k ks us hv us'"
  shows "alike (stays k ks us)
    (unitHelmfile env state unit key netconfig (us_prime us) k localKubeconfig hf hv)
    (unitHelmfileV env state unit key netconfig ks localKubeconfig hf us')"
proof -
  obtain h v where hv: "hv = (h, v)" and s: "stays k ks us (h, v) us'" using assms by (cases hv) auto
  from s have c: "us_vmDepends us' = cells h v" "cells h k = ks" "us_prime us' = us_prime us" by (auto simp: stays_def)
  show ?thesis
    unfolding unitHelmfile_def unitHelmfileV_def hv prod.case Let_def c(1,3)
    apply (rule alike_steps)+
    subgoal for hack helmfileApply
    proof -
      obtain h1 v1 where 1: "appendS (e_grow env) h v [helmfileApply] = (h1, v1)" by fastforce
      have s1: "stays k ks us (h1, v1) (us'\<lparr>us_vmDepends := cells h v @ [helmfileApply]\<rparr>)"
        using stays_append [OF s 1] by (simp add: c)
      then have k1: "cells h1 k = ks" by (simp add: stays_def)
      have more: "stays k ks us (appendS (e_grow env) h1 v1 xs) (us'\<lparr>us_vmDepends := (cells h v @ [helmfileApply]) @ xs\<rparr>)" for xs
        using stays_append [OF s1, of "e_grow env" xs] by (cases "appendS (e_grow env) h1 v1 xs") simp
      show ?thesis
        unfolding 1 prod.case k1
        by (intro alike_if alike_steps alike_return) (use more in simp_all)
    qed
    done
qed

lemma unitOnline_alike:
  assumes "stays k ks us (h, v) us'"
  shows "alike (stays k ks us) (unitOnline env state unit key netconfig us k (h, v))
    (unitOnlineV env state unit key netconfig ks us')"
proof -
  obtain h1 v1 where 1: "appendS (e_grow env) h v (us_pkgInstalls us) = (h1, v1)" by fastforce
  from assms have p: "us_pkgInstalls us' = us_pkgInstalls us" by (simp add: stays_def)
  show ?thesis
    unfolding unitOnline_def unitOnlineV_def prod.case Let_def 1 p
    by (intro alike_if alike_steps alike_for unitHelmfile_alike alike_return stays_append [OF assms 1] assms)
qed

lemma libvirtUnit_values:
  "libvirtUnit env state unit shared key inputs netconfig =
    libvirtUnitV (slicesClash env unit inputs) env state unit shared key inputs netconfig"
proof (rule alike_eq)
  show "alike (=) (libvirtUnit env state unit shared key inputs netconfig)
      (libvirtUnitV (slicesClash env unit inputs) env state unit shared key inputs netconfig)"
    unfolding libvirtUnit_def libvirtUnitV_def
  proof (rule alike_bind_wp [OF setupVms_alike wp_setupVmsV_domains])
    fix vars us assume "tracked env inputs vars us" and n: "length (us_vmDomains us) = vmCount unit"
    then obtain h v where vars: "vars = (us, h, v)" and v: "validS h v" "us_vmDepends us = cells h v"
      and clash: "roomy h v \<longleftrightarrow> slicesClash env unit inputs"
      by (cases vars) (auto simp: tracked_def slicesClash_def)
    show "alike (=)
      (case vars of (us, h, vmDepends) \<Rightarrow> bindG (unitSshConfig env state unit key us) (\<lambda>_.
         bindG (unitK8s env state unit key netconfig us h vmDepends) (\<lambda>(h, vmDepends, k8sDepends).
         bindG (unitOnline env state unit key netconfig us k8sDepends (h, vmDepends)) (\<lambda>_. returnG ()))))
      (bindG (unitSshConfig env state unit key us) (\<lambda>_.
         bindG (unitK8sV (slicesClash env unit inputs) env state unit key netconfig us) (\<lambda>(us, k8sDepends).
         bindG (unitOnlineV env state unit key netconfig k8sDepends us) (\<lambda>_. returnG ()))))"
      unfolding vars prod.case clash [symmetric]
    proof (intro alike_steps, rule alike_bind [OF unitK8s_alike [OF v]])
      fix r r' assume "slicesOf us r r'"
      then obtain h' v' k ks us' where r: "r = (h', v', k)" "r' = (us', ks)" and s: "stays k ks us (h', v') us'"
        by (cases r; cases r') (auto simp: slicesOf_def stays_def)
      show "alike (=)
        (case r of (h, vmDepends, k8sDepends) \<Rightarrow>
           bindG (unitOnline env state unit key netconfig us k8sDepends (h, vmDepends)) (\<lambda>_. returnG ()))
        (case r' of (us, k8sDepends) \<Rightarrow> bindG (unitOnlineV env state unit key netconfig k8sDepends us) (\<lambda>_. returnG ()))"
        unfolding r prod.case by (rule alike_bind [OF unitOnline_alike [OF s]]) (rule alike_return, simp)
    qed
  qed
qed

section \<open>Properties\<close>

text \<open>
  C7: over shared arrays, whatever fails and however the runtime chooses capacities, the provider
  does exactly what it does over lists, but for the last entry of \<open>k8sDepends\<close>, the installation of
  the prime node: the helmfiles see the first entry in its place when the array behind \<open>vmDepends\<close>
  has room for all of it once more and the installation.
\<close>

theorem slices_exact:
  "libvirtUnit env state unit shared key inputs netconfig =
    libvirtUnitV (slicesClash env unit inputs) env state unit shared key inputs netconfig"
  by (rule libvirtUnit_values)

end
