(* ===== verification/Node_Laws.thy ===== *)
theory Node_Laws
  imports Engine
begin

text \<open>
  Two ways of saying what a run registers. \<open>adds A\<close>: only resources from the call sites in
  \<open>A\<close> are added, whatever the outcome. \<open>covers A n ds ns\<close>: the identities \<open>ds\<close> contain every
  resource from a site in \<open>A\<close> registered since position \<open>n\<close>; a resource that depends on
  \<open>ds\<close> then waits for all of them.
\<close>

section \<open>Which sites a run adds\<close>

definition adds :: "site set \<Rightarrow> world \<Rightarrow> world \<Rightarrow> bool" where
  "adds A s t \<longleftrightarrow> (\<exists>new. nodes t = nodes s @ new \<and> (\<forall>r\<in>set new. r_site r \<in> A))"

interpretation addsrel: step_rel "adds A" for A
proof
  show "adds A s s" for s by (simp add: adds_def)
next
  fix s t u
  assume "adds A s t" "adds A t u"
  then obtain n1 n2 where "nodes t = nodes s @ n1" "nodes u = nodes t @ n2"
    "\<forall>r\<in>set n1. r_site r \<in> A" "\<forall>r\<in>set n2. r_site r \<in> A" by (auto simp: adds_def)
  then show "adds A s u" by (auto simp: adds_def)
qed

named_theorems adds_frame
declare addsrel.within_intros [adds_frame]

lemma adds_refl [simp]: "adds A s s"
  by (rule addsrel.refl_R)

lemma adds_same: "within sameNodes m \<Longrightarrow> within (adds A) m"
  by (auto simp: within_def sameNodes_def adds_def)

lemma adds_mono: "adds A s t \<Longrightarrow> A \<subseteq> B \<Longrightarrow> adds B s t"
  by (auto simp: adds_def)

lemma within_adds_mono: "within (adds A) m \<Longrightarrow> A \<subseteq> B \<Longrightarrow> within (adds B) m"
  by (auto simp: within_def intro: adds_mono)

lemma adds_new [adds_frame]: "r_site r \<in> A \<Longrightarrow> within (adds A) (newResource env r)"
  by (auto simp: within_def newResource_run adds_def split: option.split)

lemma adds_component [adds_frame]: "st \<in> A \<Longrightarrow> within (adds A) (registerComponent env st ty nm)"
  unfolding registerComponent_def by (intro adds_frame) simp

lemmas adds_env [adds_frame] = within_ctxExport(1) [THEN adds_same]
  within_request(2) [THEN adds_same] within_answer(2) [THEN adds_same] within_getW(2) [THEN adds_same]

lemma adds_length: "adds A s t \<Longrightarrow> length (nodes s) \<le> length (nodes t)"
  by (auto simp: adds_def)

lemma adds_append: "nodes t = nodes s @ new \<Longrightarrow> \<forall>r\<in>set new. r_site r \<in> A \<Longrightarrow> adds A s t"
  by (auto simp: adds_def)

section \<open>Covering\<close>

definition covers :: "site set \<Rightarrow> nat \<Rightarrow> nat list \<Rightarrow> resource list \<Rightarrow> bool" where
  "covers A n ds ns \<longleftrightarrow> (\<forall>j<length ns. n \<le> j \<longrightarrow> r_site (ns ! j) \<in> A \<longrightarrow> j \<in> set ds)"

lemma covers_start: "length ns \<le> n \<Longrightarrow> covers A n ds ns"
  by (simp add: covers_def)

lemma covers_mono: "covers A n ds ns \<Longrightarrow> set ds \<subseteq> set es \<Longrightarrow> B \<subseteq> A \<Longrightarrow> covers B n es ns"
  by (auto simp: covers_def)

lemma covers_append:
  "covers A n ds (ns @ new) \<longleftrightarrow>
     covers A n ds ns \<and> (\<forall>k<length new. n \<le> length ns + k \<longrightarrow> r_site (new ! k) \<in> A \<longrightarrow> length ns + k \<in> set ds)"
  (is "?L \<longleftrightarrow> ?R")
proof
  assume L: ?L
  have "j \<in> set ds" if "j < length ns" "n \<le> j" "r_site (ns ! j) \<in> A" for j
    using L that unfolding covers_def by (metis length_append nth_append trans_less_add1)
  moreover have "length ns + k \<in> set ds"
    if "k < length new" "n \<le> length ns + k" "r_site (new ! k) \<in> A" for k
    using L that unfolding covers_def by (metis length_append nat_add_left_cancel_less nth_append_length_plus)
  ultimately show ?R by (simp add: covers_def)
next
  assume R: ?R
  show ?L unfolding covers_def
  proof (intro allI impI)
    fix j assume j: "j < length (ns @ new)" "n \<le> j" "r_site ((ns @ new) ! j) \<in> A"
    show "j \<in> set ds"
    proof (cases "j < length ns")
      case True
      with R j show ?thesis by (simp add: covers_def nth_append)
    next
      case False
      then obtain k where "j = length ns + k" by (metis le_add_diff_inverse linorder_not_less)
      with R j show ?thesis by simp
    qed
  qed
qed

lemma covers_none: "covers A n ds ns \<Longrightarrow> \<forall>r\<in>set new. r_site r \<notin> A \<Longrightarrow> covers A n ds (ns @ new)"
  by (auto simp: covers_append)

lemma covers_adds: "covers A n ds (nodes s) \<Longrightarrow> adds B s t \<Longrightarrow> A \<inter> B = {} \<Longrightarrow> covers A n ds (nodes t)"
  unfolding adds_def using covers_none [of A n ds "nodes s"] by (metis disjoint_iff)

lemma covers_union: "covers A n ds ns \<Longrightarrow> covers B n ds ns \<Longrightarrow> covers (A \<union> B) n ds ns"
  by (auto simp: covers_def)

text \<open>
  \<open>tracks A B n ds ns\<close>: \<open>ds\<close> contains every such resource from \<open>A\<close>, and nothing but such
  resources from \<open>B\<close>.
\<close>

definition draws :: "site set \<Rightarrow> nat \<Rightarrow> nat list \<Rightarrow> resource list \<Rightarrow> bool" where
  "draws B n ds ns \<longleftrightarrow> (\<forall>d\<in>set ds. n \<le> d \<and> d < length ns \<and> r_site (ns ! d) \<in> B)"

definition tracks :: "site set \<Rightarrow> site set \<Rightarrow> nat \<Rightarrow> nat list \<Rightarrow> resource list \<Rightarrow> bool" where
  "tracks A B n ds ns \<longleftrightarrow> covers A n ds ns \<and> draws B n ds ns"

lemma draws_append: "draws B n ds ns \<Longrightarrow> draws B n ds (ns @ new)"
  by (auto simp: draws_def nth_append)

lemma draws_adds: "draws B n ds (nodes s) \<Longrightarrow> adds C s t \<Longrightarrow> draws B n ds (nodes t)"
  by (auto simp: adds_def draws_append)

lemma draws_mono: "draws B n ds ns \<Longrightarrow> B \<subseteq> C \<Longrightarrow> draws C n ds ns"
  by (auto simp: draws_def)

lemma draws_app: "draws B n (ds @ es) ns \<longleftrightarrow> draws B n ds ns \<and> draws B n es ns"
  by (auto simp: draws_def)

lemma tracks_adds:
  "tracks A B n ds (nodes s) \<Longrightarrow> adds C s t \<Longrightarrow> A \<inter> C = {} \<Longrightarrow> tracks A B n ds (nodes t)"
  by (auto simp: tracks_def intro: covers_adds draws_adds)

lemma tracks_start: "length ns = n \<Longrightarrow> tracks A B n [] ns"
  by (simp add: tracks_def covers_start draws_def)

lemma tracks_sub: "tracks A B n ds ns \<Longrightarrow> A' \<subseteq> A \<Longrightarrow> B \<subseteq> B' \<Longrightarrow> tracks A' B' n ds ns"
  by (auto simp: tracks_def elim: covers_mono draws_mono)

lemma tracks_union:
  assumes "tracks A G n ds ns" and "tracks B G n es ns"
  shows "tracks (A \<union> B) G n (ds @ es) ns"
proof -
  have "covers A n (ds @ es) ns" "covers B n (ds @ es) ns"
    using assms by (auto simp: tracks_def elim: covers_mono)
  with assms show ?thesis by (simp add: tracks_def covers_union draws_app)
qed

text \<open>A new resource that belongs to the tracked sites joins the list; others leave it.\<close>

lemma tracks_join:
  assumes "tracks A B n ds ns" and "r_site r \<in> B" and "n \<le> length ns"
  shows "tracks A B n (ds @ [length ns]) (ns @ [r])"
  using assms by (auto simp: tracks_def covers_append draws_app elim: covers_mono intro: draws_append)
    (simp add: draws_def)

lemma tracks_pass: "tracks A B n ds ns \<Longrightarrow> r_site r \<notin> A \<Longrightarrow> tracks A B n ds (ns @ [r])"
  by (simp add: tracks_def covers_none draws_append)

lemma tracks_join_list:
  "tracks A B n ds ns \<Longrightarrow> \<forall>r\<in>set new. r_site r \<in> B \<Longrightarrow> n \<le> length ns \<Longrightarrow>
     tracks A B n (ds @ [length ns..<length ns + length new]) (ns @ new)"
proof (induction new rule: rev_induct)
  case (snoc r new)
  then have "tracks A B n (ds @ [length ns..<length ns + length new]) (ns @ new)" by simp
  then have "tracks A B n ((ds @ [length ns..<length ns + length new]) @ [length (ns @ new)]) ((ns @ new) @ [r])"
    using snoc.prems by (intro tracks_join) simp_all
  then show ?case by simp
qed simp

lemma tracks_pass_list:
  "tracks A B n ds ns \<Longrightarrow> \<forall>r\<in>set new. r_site r \<notin> A \<Longrightarrow> tracks A B n ds (ns @ new)"
  by (simp add: tracks_def covers_none draws_append)

lemma covers_empty:
  assumes "adds X s t" and "length (nodes s) \<le> n" and "X \<inter> A = {}"
  shows "covers A n ds (nodes t)"
  using covers_adds [OF covers_start [of "nodes s" n A ds] assms(1)] assms(2,3) by (simp add: Int_commute)

text \<open>Sites that have registered nothing yet can be added to what is tracked.\<close>

lemma tracks_widen:
  assumes "tracks A B n ds (nodes t)" "adds X s t" "length (nodes s) \<le> n" "X \<inter> A' = {}" "B \<subseteq> B'"
  shows "tracks (A \<union> A') B' n ds (nodes t)"
  using assms(1,5) covers_empty [OF assms(2-4), of ds] by (auto simp: tracks_def intro: covers_union draws_mono)

section \<open>What resources wait for\<close>

text \<open>
  \<open>settled B A C n ns\<close>: every resource from a site in \<open>B\<close> registered since \<open>n\<close> depends on all
  of those from \<open>A\<close>, registered before or after it, and only on those from \<open>C\<close>.
  \<open>ordered\<close> says the same of those registered before it.
\<close>

definition settled :: "site set \<Rightarrow> site set \<Rightarrow> site set \<Rightarrow> nat \<Rightarrow> resource list \<Rightarrow> bool" where
  "settled B A C n ns \<longleftrightarrow>
     (\<forall>i<length ns. n \<le> i \<longrightarrow> r_site (ns ! i) \<in> B \<longrightarrow> tracks A C n (r_deps (ns ! i)) ns)"

definition ordered :: "site set \<Rightarrow> site set \<Rightarrow> site set \<Rightarrow> nat \<Rightarrow> resource list \<Rightarrow> bool" where
  "ordered B A C n ns \<longleftrightarrow>
     (\<forall>i<length ns. n \<le> i \<longrightarrow> r_site (ns ! i) \<in> B \<longrightarrow> tracks A C n (r_deps (ns ! i)) (take i ns))"

lemma settled_append:
  assumes "settled B A C n ns"
    and "\<forall>r\<in>set new. r_site r \<notin> A \<and> (r_site r \<in> B \<longrightarrow> tracks A C n (r_deps r) ns)"
  shows "settled B A C n (ns @ new)"
  unfolding settled_def
proof (intro allI impI)
  fix i assume i: "i < length (ns @ new)" "n \<le> i" "r_site ((ns @ new) ! i) \<in> B"
  have pass: "tracks A C n ds ns \<Longrightarrow> tracks A C n ds (ns @ new)" for ds
    using assms(2) by (simp add: tracks_pass_list)
  show "tracks A C n (r_deps ((ns @ new) ! i)) (ns @ new)"
  proof (cases "i < length ns")
    case True
    with i assms(1) show ?thesis by (auto simp: settled_def nth_append intro: pass)
  next
    case False
    with i have "new ! (i - length ns) \<in> set new" by simp
    with i False assms(2) show ?thesis by (auto simp: nth_append intro: pass)
  qed
qed

lemma settled_vacuous:
  assumes "adds X s t" "length (nodes s) \<le> n" "X \<inter> B = {}"
  shows "settled B A C n (nodes t)"
proof -
  have "covers B n [] (nodes t)" by (rule covers_empty [OF assms])
  then show ?thesis by (simp add: settled_def covers_def)
qed

lemma settled_adds:
  assumes "settled B A C n (nodes s)" "adds X s t" "X \<inter> A = {}" "X \<inter> B = {}"
  shows "settled B A C n (nodes t)"
proof -
  from assms(2) obtain new where "nodes t = nodes s @ new" "\<forall>r\<in>set new. r_site r \<in> X" by (auto simp: adds_def)
  moreover from this(2) assms(3,4) have "\<forall>r\<in>set new. r_site r \<notin> A \<and> r_site r \<notin> B" by blast
  ultimately show ?thesis using settled_append [OF assms(1), of new] by simp
qed

lemma ordered_snoc:
  assumes "ordered B A C n ns" and "r_site r \<in> B \<longrightarrow> tracks A C n (r_deps r) ns"
  shows "ordered B A C n (ns @ [r])"
  using assms by (auto simp: ordered_def less_Suc_eq nth_append)

lemma ordered_pass:
  "ordered B A C n ns \<Longrightarrow> \<forall>r\<in>set new. r_site r \<notin> B \<Longrightarrow> ordered B A C n (ns @ new)"
proof (induction new rule: rev_induct)
  case (snoc r new)
  then have "ordered B A C n (ns @ new)" by simp
  with snoc.prems show ?case using ordered_snoc [of B A C n "ns @ new" r] by simp
qed simp

lemma ordered_vacuous:
  assumes "adds X s t" "length (nodes s) \<le> n" "X \<inter> B = {}"
  shows "ordered B A C n (nodes t)"
proof -
  have "covers B n [] (nodes t)" by (rule covers_empty [OF assms])
  then show ?thesis by (simp add: ordered_def covers_def)
qed

lemma tracks_set:
  "tracks A A n ds ns \<Longrightarrow> set ds = {j. n \<le> j \<and> j < length ns \<and> r_site (ns ! j) \<in> A}"
  unfolding tracks_def covers_def draws_def by blast

lemma settledD:
  "settled B A A n ns \<Longrightarrow> i < length ns \<Longrightarrow> n \<le> i \<Longrightarrow> r_site (ns ! i) \<in> B \<Longrightarrow>
     set (r_deps (ns ! i)) = {j. n \<le> j \<and> j < length ns \<and> r_site (ns ! j) \<in> A}"
  unfolding settled_def using tracks_set by blast

end
