(* ===== verification/Calm_Run.thy ===== *)
theory Calm_Run
  imports Cache Engine
begin

text \<open>
  Runs in the calm environment, where no request fails, as rewriting rules: \<open>calm_run\<close>
  executes a program step by step from a symbolic world whose directories hold no regular
  file. The witnesses use it on programs too large for evaluation.
\<close>

definition noFiles :: "fsys \<Rightarrow> bool" where
  "noFiles fs \<longleftrightarrow> (\<forall>p i. names fs p \<noteq> Some (File i))"

lemma mkChain_noFiles:
  "noFiles fs \<Longrightarrow> snd (mkChain ps fs)"
  "noFiles fs \<Longrightarrow> noFiles (fst (mkChain ps fs))"
  by (induction ps fs rule: mkChain.induct) (auto simp: noFiles_def split: option.splits entry.splits)

lemma noFiles_empty: "noFiles (wfs emptyWorld)"
  by (simp add: noFiles_def emptyWorld_def)

lemma calm_fault: "e_fault calmEnv h ev = None"
  by (simp add: calmEnv_def)

lemma calm_request: "request calmEnv ev s = (Ok (), s\<lparr>hist := hist s @ [ev]\<rparr>)"
  by (simp add: request_def calm_fault)

lemma calm_mkdir: "noFiles (wfs s) \<Longrightarrow>
   osMkdirAll calmEnv d s = (Ok (), s\<lparr>wfs := fst (mkChain (dirChain d) (wfs s)), hist := hist s @ [EvMkdirAll d]\<rparr>)"
  by (simp add: osMkdirAll_def bindG_def tryG_def calm_request getW_def modifyFs_def modifyW_def returnG_def
      mkChain_noFiles)

lemma calm_register: "noFiles (wfs s) \<Longrightarrow> registerArtifact calmEnv st d s =
  (let p = pathJoin [st_artifactdir st, d] in
   (Ok p, s\<lparr>wfs := fst (mkChain (dirChain (pathDir p)) (wfs s)), artifacts := (artifacts s)(d \<mapsto> p),
      hist := hist s @ [EvMkdirAll (pathDir p)]\<rparr>))"
  by (simp add: registerArtifact_def Let_def bindG_def calm_mkdir modifyW_def returnG_def)

lemma calm_new:
  "newResource calmEnv r s = (Ok (length (nodes s)), s\<lparr>hist := hist s @ [EvRegister r], nodes := nodes s @ [r]\<rparr>)"
  by (simp add: newResource_run calm_fault)

lemma bindG_step: "m s = (Ok a, t) \<Longrightarrow> bindG m k s = k a t"
  by (simp add: bindG_def)

lemma tryG_step: "m s = (Ok a, t) \<Longrightarrow> tryG m s = (Ok (Inr a), t)"
  by (simp add: tryG_def)

lemma returnG_step: "returnG a s = (Ok a, s)"
  by (simp add: returnG_def)

lemma ctxExport_step: "ctxExport k v s = (Ok (), s\<lparr>exports := exports s @ [(k, v)]\<rparr>)"
  by (simp add: ctxExport_def modifyW_def)

lemma bindG_cong: "m = m' \<Longrightarrow> bindG m k = bindG m' k"
  by simp

lemmas calm_run = bindG_assoc bindG_step tryG_step returnG_step ctxExport_step calm_register calm_new
  calm_request mkChain_noFiles noFiles_empty

end
