(* ===== verification/Libvirt_Order.thy ===== *)
theory Libvirt_Order
  imports Libvirt_Values Node_Laws Calm_Run
begin

text \<open>
  The order a unit's deployment imposes. The vm part keeps an invariant: the slice
  \<open>vmDepends\<close> covers every check, motd command and file installation of the unit so far. From
  it follows what the Kubernetes installations and the helmfiles wait for, in every run and
  whatever its outcome.
\<close>

section \<open>Sites\<close>

definition gateSites :: "site set" where
  "gateSites = {SInitCheck, SMotd, SInstallFile}"

definition pkgSites :: "site set" where
  "pkgSites = {SZypper, SIscsi}"

definition vmSites :: "site set" where
  "vmSites = {SBaseVolume, SDisk, SCloudinit, SDomain, SSshCheck, SCopyRemote, SInitCheck, SMotd,
     SZypper, SIscsi, SVmComponent, SLogCopy, SCopyInput, SInstallFile}"

definition k8sSites :: "site set" where
  "k8sSites = {SK8sPrime, SKubeConfig, SK8sAdmin, SK8sWorker}"

definition joinSites :: "site set" where
  "joinSites = {SKubeConfig, SK8sAdmin, SK8sWorker}"

definition helmSites :: "site set" where
  "helmSites = {SAiHack, SNexusHack, SHelmfile, SKubeVipConfig}"

lemmas site_defs = gateSites_def pkgSites_def vmSites_def k8sSites_def joinSites_def helmSites_def

lemma deps_simps [simp]:
  "r_deps (remoteCommand st nm od key create deps) = deps"
  "r_deps (remoteCopyFile st nm od key lcl rmt deps) = deps"
  "r_deps (localCommand st nm create deps) = deps"
  "r_deps (primeInstall unit key p h0 ds) = ds"
  "r_deps (adminInstall unit key p h0 ds vm) = ds"
  "r_deps (workerInstall unit key p ds vm) = ds"
  "r_deps (hackResource st w cmd unit key p ds) = ds"
  "r_deps (helmfileResource unit hf kc ds) = ds"
  by (simp_all add: remoteCommand_def remoteCopyFile_def localCommand_def primeInstall_def
      adminInstall_def workerInstall_def hackResource_def helmfileResource_def)

lemmas adds_frames [adds_frame] =
  os_nodes [THEN adds_same] registerArtifact_nodes [THEN adds_same] randomString_frames(2) [THEN adds_same]
  cloudinit_frames(7,8) [THEN adds_same] cacheInput_nodes [THEN adds_same] setupSshCa_frames(1) [THEN adds_same]

section \<open>The parts of one vm\<close>

lemma adds_vmDomain: "within (adds {SDisk, SCloudinit, SDomain}) (vmDomain env state unit config shared key netconfig b idx)"
  unfolding vmDomain_def Let_def
  by (intro adds_frame) (auto intro!: adds_frame split: sum.split)

lemma wp_vmRemote:
  assumes "\<And>t r1 r2 r3 r4. nodes t = nodes s @ [r1, r2, r3, r4] \<Longrightarrow> r_site r1 = SSshCheck \<Longrightarrow>
      r_site r2 = SCopyRemote \<Longrightarrow> r_site r3 = SInitCheck \<Longrightarrow> r_site r4 = SMotd \<Longrightarrow>
      Q (Suc (Suc (length (nodes s))), Suc (Suc (Suc (length (nodes s))))) t"
    and "\<And>t. adds {SSshCheck, SCopyRemote, SInitCheck, SMotd} s t \<Longrightarrow> E t"
  shows "wp (vmRemote env state key h d) Q E s"
  unfolding vmRemote_def
  apply (intro wp_bind engine.wp_create astore.wp_reg wp_return)
       apply (simp_all add: assms(1))
       apply (auto intro!: assms(2) simp: adds_def)
  done

lemma adds_vmOnline: "within (adds pkgSites) (vmOnline env unit key h d us)"
  unfolding vmOnline_def by (intro adds_frame) (simp_all add: pkgSites_def)

lemma wp_vmOnline:
  assumes n: "n \<le> length (nodes s)" and "tracks pkgSites pkgSites n (us_pkgInstalls us) (nodes s)"
    and "\<And>us' t. adds pkgSites s t \<Longrightarrow> tracks pkgSites pkgSites n (us_pkgInstalls us') (nodes t) \<Longrightarrow>
      us' = us\<lparr>us_pkgInstalls := us_pkgInstalls us'\<rparr> \<Longrightarrow> Q us' t"
    and "\<And>t. adds pkgSites s t \<Longrightarrow> E t"
  shows "wp (vmOnline env unit key h d us) Q E s"
  unfolding vmOnline_def
  apply (intro wp_if wp_bind engine.wp_create wp_return)
     apply (rule assms(3))
       apply (simp add: adds_def pkgSites_def)
      apply (use tracks_join [OF tracks_join [OF assms(2)]] n in \<open>simp add: pkgSites_def\<close>)
     apply simp
    apply (rule assms(4), simp add: adds_def pkgSites_def)
   apply (rule assms(4), simp add: adds_def)
  apply (rule assms(3), simp_all add: assms(2))
  done

lemma adds_vmLogs: "within (adds {SVmComponent, SLogCopy}) (vmLogs env state key h d ds)"
  unfolding vmLogs_def Let_def by (intro adds_frame) simp_all

lemma wp_vmInput:
  assumes n: "n \<le> length (nodes s)" and "tracks {SInstallFile} {SInstallFile} n fs (nodes s)"
    and "\<And>fs' t. adds {SCopyInput, SInstallFile} s t \<Longrightarrow> tracks {SInstallFile} {SInstallFile} n fs' (nodes t) \<Longrightarrow> Q fs' t"
    and "\<And>t. adds {SCopyInput, SInstallFile} s t \<Longrightarrow> E t"
  shows "wp (vmInput env state key d f fs) Q E s"
  unfolding vmInput_def Let_def
  apply (intro wp_if wp_bind wp_sameNodes [OF randomString_frames(2)] engine.wp_create wp_return)
      apply (rule assms(3))
       apply (simp add: adds_def)
      apply (use tracks_join [OF tracks_pass [OF assms(2)]] n in simp)
     apply (rule assms(4), simp add: adds_def)
    apply (rule assms(4), simp add: adds_def)
   apply (rule assms(4), simp add: adds_def)
  apply (rule assms(3), simp_all add: assms(2))
  done

lemma wp_vmInputs:
  assumes n: "n \<le> length (nodes s)" and "tracks {SInstallFile} {SInstallFile} n fs (nodes s)"
    and "\<And>fs' t. adds {SCopyInput, SInstallFile} s t \<Longrightarrow>
      tracks {SInstallFile} {SInstallFile} n fs' (nodes t) \<Longrightarrow> Q fs' t"
    and "\<And>t. adds {SCopyInput, SInstallFile} s t \<Longrightarrow> E t"
  shows "wp (vmInputs env state key d inputs fs) Q E s"
  unfolding vmInputs_def
proof (rule wp_for [where I = "\<lambda>_ fs' t. adds {SCopyInput, SInstallFile} s t \<and>
    tracks {SInstallFile} {SInstallFile} n fs' (nodes t)"])
  show "adds {SCopyInput, SInstallFile} s s \<and> tracks {SInstallFile} {SInstallFile} n fs (nodes s)"
    using assms(2) by simp
  fix fs' t assume "adds {SCopyInput, SInstallFile} s t \<and> tracks {SInstallFile} {SInstallFile} n fs' (nodes t)"
  then show "Q fs' t" using assms(3) by blast
next
  fix x fs' t
  assume I: "adds {SCopyInput, SInstallFile} s t \<and> tracks {SInstallFile} {SInstallFile} n fs' (nodes t)"
  then have "n \<le> length (nodes t)" using n adds_length [of _ s t] by fastforce
  then show "wp (vmInput env state key d x fs') (\<lambda>fs'' u. adds {SCopyInput, SInstallFile} s u \<and>
    tracks {SInstallFile} {SInstallFile} n fs'' (nodes u)) E t"
    by (rule wp_vmInput) (use I assms(4) in \<open>blast intro: addsrel.trans_R\<close>)+
qed

section \<open>The invariant of the vm part\<close>

definition vmInv :: "nat \<Rightarrow> world \<Rightarrow> ustate \<Rightarrow> world \<Rightarrow> bool" where
  "vmInv n s us t \<longleftrightarrow> n \<le> length (nodes s) \<and> adds vmSites s t \<and> tracks gateSites gateSites n (us_vmDepends us) (nodes t) \<and>
     tracks {SInstallFile} {SInstallFile} n (us_fileDepends us) (nodes t) \<and>
     tracks pkgSites pkgSites n (us_pkgInstalls us) (nodes t)"

lemma vmInv_start: "n = length (nodes s) \<Longrightarrow> vmInv n s startState s"
  by (simp add: vmInv_def startState_def tracks_start)

lemma wp_adds:
  "within (adds A) m \<Longrightarrow> (\<And>a t. adds A s t \<Longrightarrow> Q a t) \<Longrightarrow> (\<And>t. adds A s t \<Longrightarrow> E t) \<Longrightarrow> wp m Q E s"
  by (rule wp_within)

lemma vmBook_fields [simp]:
  "us_vmDepends (vmBookV config idx h d m us) = us_vmDepends us @ m # us_fileDepends us"
  "us_fileDepends (vmBookV config idx h d m us) = us_fileDepends us"
  "us_pkgInstalls (vmBookV config idx h d m us) = us_pkgInstalls us"
  "us_vmDomains (vmBookV config idx h d m us) = us_vmDomains us"
  by (simp_all add: vmBookV_def vmBook_def Let_def)

lemma adds_vm_trans: "adds vmSites s t \<Longrightarrow> adds A t u \<Longrightarrow> A \<subseteq> vmSites \<Longrightarrow> adds vmSites s u"
  by (meson adds_mono addsrel.trans_R)

text \<open>The part of \<open>setupVmV\<close> after the remote checks; \<open>m\<close> is the motd command.\<close>

lemma wp_vmTail:
  assumes n: "n \<le> length (nodes s)" and a: "adds vmSites s t"
    and g: "tracks {SInitCheck, SMotd} gateSites n (us_vmDepends us @ [m]) (nodes t)"
    and f: "tracks {SInstallFile} {SInstallFile} n (us_fileDepends us) (nodes t)"
    and p: "tracks pkgSites pkgSites n (us_pkgInstalls us) (nodes t)"
  shows "wp (bindG (vmOnline env unit key h d us) (\<lambda>us.
      bindG (vmLogs env state key h d (us_vmDepends us)) (\<lambda>_.
      bindG (vmInputs env state key d inputs (us_fileDepends us)) (\<lambda>fileDepends.
      returnG (vmBookV config idx h d m (us\<lparr>us_fileDepends := fileDepends\<rparr>))))))
    (\<lambda>us'. vmInv n s us') (adds vmSites s) t"
proof -
  have sub: "pkgSites \<subseteq> vmSites" "{SVmComponent, SLogCopy} \<subseteq> vmSites" "{SCopyInput, SInstallFile} \<subseteq> vmSites"
    by (auto simp: site_defs)
  have log: "wp (bindG (vmLogs env state key h d (us_vmDepends us')) (\<lambda>_.
      bindG (vmInputs env state key d inputs (us_fileDepends us')) (\<lambda>fileDepends.
      returnG (vmBookV config idx h d m (us'\<lparr>us_fileDepends := fileDepends\<rparr>)))))
      (\<lambda>us'. vmInv n s us') (adds vmSites s) u"
    if u: "adds pkgSites t u" "tracks pkgSites pkgSites n (us_pkgInstalls us') (nodes u)"
      and us': "us' = us\<lparr>us_pkgInstalls := us_pkgInstalls us'\<rparr>" for us' u
  proof (intro wp_bind, rule wp_adds [OF adds_vmLogs])
    fix v assume v: "adds {SVmComponent, SLogCopy} u v"
    have av: "adds vmSites s v" by (rule adds_vm_trans [OF adds_vm_trans [OF a u(1) sub(1)] v sub(2)])
    have nv: "n \<le> length (nodes v)" using n adds_length [OF av] by simp
    have dep: "us_vmDepends us' = us_vmDepends us" "us_fileDepends us' = us_fileDepends us"
      by (subst us', simp)+
    have g': "tracks {SInitCheck, SMotd} gateSites n (us_vmDepends us @ [m]) (nodes v)"
      and f': "tracks {SInstallFile} {SInstallFile} n (us_fileDepends us) (nodes v)"
      and p': "tracks pkgSites pkgSites n (us_pkgInstalls us') (nodes v)"
      using tracks_adds [OF tracks_adds [OF g u(1)] v] tracks_adds [OF tracks_adds [OF f u(1)] v]
        tracks_adds [OF u(2) v] by (simp_all add: site_defs)
    show "wp (bindG (vmInputs env state key d inputs (us_fileDepends us')) (\<lambda>fileDepends.
        returnG (vmBookV config idx h d m (us'\<lparr>us_fileDepends := fileDepends\<rparr>))))
        (\<lambda>us'. vmInv n s us') (adds vmSites s) v"
    proof (intro wp_bind, rule wp_vmInputs [where n = n], rule nv, simp add: dep f', rule wp_return)
      fix fs w assume w: "adds {SCopyInput, SInstallFile} v w" "tracks {SInstallFile} {SInstallFile} n fs (nodes w)"
      let ?ds = "us_vmDepends us @ m # fs"
      have "tracks {SInitCheck, SMotd} gateSites n (us_vmDepends us @ [m]) (nodes w)"
        "tracks pkgSites pkgSites n (us_pkgInstalls us') (nodes w)"
        using tracks_adds [OF g' w(1)] tracks_adds [OF p' w(1)] by (simp_all add: site_defs)
      moreover have "tracks {SInstallFile} gateSites n fs (nodes w)"
        using w(2) by (rule tracks_sub) (auto simp: gateSites_def)
      ultimately have "tracks gateSites gateSites n ?ds (nodes w)" "tracks pkgSites pkgSites n (us_pkgInstalls us') (nodes w)"
        using tracks_union [of "{SInitCheck, SMotd}" gateSites n "us_vmDepends us @ [m]" "nodes w" "{SInstallFile}" fs]
        by (simp_all add: gateSites_def insert_commute)
      with w(2) adds_vm_trans [OF av w(1) sub(3)]
      show "vmInv n s (vmBookV config idx h d m (us'\<lparr>us_fileDepends := fs\<rparr>)) w"
        by (simp add: vmInv_def dep n)
    next
      fix w assume "adds {SCopyInput, SInstallFile} v w"
      then show "adds vmSites s w" by (rule adds_vm_trans [OF av _ sub(3)])
    qed
  next
    fix v assume "adds {SVmComponent, SLogCopy} u v"
    then show "adds vmSites s v" by (rule adds_vm_trans [OF adds_vm_trans [OF a u(1) sub(1)] _ sub(2)])
  qed
  show ?thesis
  proof (rule wp_bind, rule wp_vmOnline [OF _ p])
    show "n \<le> length (nodes t)" using n adds_length [OF a] by simp
  next
    fix u assume "adds pkgSites t u"
    then show "adds vmSites s u" by (rule adds_vm_trans [OF a _ sub(1)])
  qed (rule log)
qed

lemma wp_setupVm:
  assumes inv: "vmInv n s us t"
  shows "wp (setupVmV env state unit config shared key inputs netconfig b idx us) (\<lambda>us'. vmInv n s us')
    (adds vmSites s) t"
proof -
  have n: "n \<le> length (nodes s)" and start: "adds vmSites s t" and g0: "tracks gateSites gateSites n (us_vmDepends us) (nodes t)"
    and f0: "tracks {SInstallFile} {SInstallFile} n (us_fileDepends us) (nodes t)"
    and p0: "tracks pkgSites pkgSites n (us_pkgInstalls us) (nodes t)"
    using inv by (auto simp: vmInv_def)
  have sub: "{SDisk, SCloudinit, SDomain} \<subseteq> vmSites" "{SSshCheck, SCopyRemote, SInitCheck, SMotd} \<subseteq> vmSites"
    by (auto simp: site_defs)
  show ?thesis
    unfolding setupVmV_def Let_def
  proof (intro wp_bind, rule wp_adds [OF adds_vmDomain], clarsimp, intro wp_bind, rule wp_vmRemote, clarsimp)
    fix h d and t1 t2 :: world and r1 r2 r3 r4 :: resource
    assume t1: "adds {SDisk, SCloudinit, SDomain} t t1" and t2: "nodes t2 = nodes t1 @ [r1, r2, r3, r4]"
      and r: "r_site r1 = SSshCheck" "r_site r2 = SCopyRemote" "r_site r3 = SInitCheck" "r_site r4 = SMotd"
    let ?n = "length (nodes t1)"
    have a1: "adds vmSites s t1" by (rule adds_vm_trans [OF start t1 sub(1)])
    have r4: "adds {SSshCheck, SCopyRemote, SInitCheck, SMotd} t1 t2" using t2 r by (simp add: adds_def)
    then have a2: "adds vmSites s t2" by (rule adds_vm_trans [OF a1 _ sub(2)])
    have g1: "tracks gateSites gateSites n (us_vmDepends us) (nodes t1)"
      and f1: "tracks {SInstallFile} {SInstallFile} n (us_fileDepends us) (nodes t1)"
      and p1: "tracks pkgSites pkgSites n (us_pkgInstalls us) (nodes t1)"
      using tracks_adds [OF g0 t1] tracks_adds [OF f0 t1] tracks_adds [OF p0 t1] by (simp_all add: site_defs)
    have n1: "n \<le> length (nodes t1)" using n adds_length [OF a1] by simp
    have nodes2: "nodes t2 = (((nodes t1 @ [r1]) @ [r2]) @ [r3]) @ [r4]" using t2 by simp
    have g1': "tracks {SInitCheck, SMotd} gateSites n (us_vmDepends us) (nodes t1)"
      using g1 by (rule tracks_sub) (auto simp: site_defs)
    have "tracks {SInitCheck, SMotd} gateSites n (us_vmDepends us) ((nodes t1 @ [r1]) @ [r2])"
      using r by (intro tracks_pass g1') simp_all
    then have "tracks {SInitCheck, SMotd} gateSites n ((us_vmDepends us @ [length ((nodes t1 @ [r1]) @ [r2])]) @
        [length (((nodes t1 @ [r1]) @ [r2]) @ [r3])]) (nodes t2)"
      unfolding nodes2 by (intro tracks_join) (use r n1 in \<open>simp_all add: gateSites_def\<close>)
    then have "tracks {SInitCheck, SMotd} gateSites n ((us_vmDepends us @ [Suc (Suc ?n)]) @ [Suc (Suc (Suc ?n))]) (nodes t2)"
      by simp
    moreover have "tracks {SInstallFile} {SInstallFile} n (us_fileDepends us) (nodes t2)"
      "tracks pkgSites pkgSites n (us_pkgInstalls us) (nodes t2)"
      using tracks_adds [OF f1 r4] tracks_adds [OF p1 r4] by (simp_all add: pkgSites_def)
    ultimately show "wp (bindG (vmOnline env unit key h d
          (us\<lparr>us_vmDomains := us_vmDomains us @ [d], us_vmDepends := us_vmDepends us @ [Suc (Suc ?n)]\<rparr>)) (\<lambda>us.
        bindG (vmLogs env state key h d (us_vmDepends us)) (\<lambda>_.
        bindG (vmInputs env state key d inputs (us_fileDepends us)) (\<lambda>fileDepends.
        returnG (vmBookV config idx h d (Suc (Suc (Suc ?n))) (us\<lparr>us_fileDepends := fileDepends\<rparr>))))))
        (\<lambda>us'. vmInv n s us') (adds vmSites s) t2"
      by (intro wp_vmTail [OF n a2]) simp_all
  qed (use start sub in \<open>blast intro: adds_vm_trans\<close>)+
qed

section \<open>All vms of a unit\<close>

lemma vmInv_adds:
  assumes "vmInv n s us t" "adds {SBaseVolume} t u"
  shows "vmInv n s us u"
proof -
  have "adds vmSites s u" using assms by (auto simp: vmInv_def vmSites_def intro: adds_vm_trans [unfolded vmSites_def])
  with assms show ?thesis by (auto simp: vmInv_def site_defs intro: tracks_adds)
qed

lemma wp_setupConfig:
  assumes "vmInv n s us t"
  shows "wp (setupConfigV env state unit shared key inputs netconfig config us) (\<lambda>us'. vmInv n s us') (adds vmSites s) t"
proof -
  have "within (adds {SBaseVolume}) (configSetup env state unit config shared)"
    unfolding configSetup_def Let_def by (intro adds_frame) simp
  then show ?thesis
    unfolding setupConfigV_def
  proof (intro wp_bind, elim wp_adds)
    fix b u assume "adds {SBaseVolume} t u"
    with assms have "vmInv n s us u" by (rule vmInv_adds)
    then show "wp (forG [0..<nat (c_Count config)] (\<lambda>idx us.
        setupVmV env state unit config shared key inputs netconfig b idx us) us) (\<lambda>us'. vmInv n s us') (adds vmSites s) u"
      by (intro wp_for [where I = "\<lambda>_ us'. vmInv n s us'"] wp_setupVm)
  next
    fix u assume "adds {SBaseVolume} t u"
    with assms have "vmInv n s us u" by (rule vmInv_adds)
    then show "adds vmSites s u" by (simp add: vmInv_def)
  qed
qed

lemma wp_setupVms:
  "wp (setupVmsV env state unit shared key inputs netconfig) (\<lambda>us. vmInv (length (nodes s)) s us) (adds vmSites s) s"
  unfolding setupVmsV_def
  by (rule wp_for [where I = "\<lambda>_ us. vmInv (length (nodes s)) s us"]) (auto intro: wp_setupConfig vmInv_start)

section \<open>Kubernetes and helmfiles\<close>

definition nodeSites :: "site set" where
  "nodeSites = {SK8sPrime, SK8sAdmin, SK8sWorker}"

definition appSites :: "site set" where
  "appSites = gateSites \<union> pkgSites \<union> nodeSites \<union> {SHelmfile, SKubeVipConfig}"

definition hackSites :: "site set" where
  "hackSites = {SAiHack, SNexusHack}"

text \<open>What the kube-vip kubeconfig waits for: the prime installation too, unless it was lost.\<close>

definition vipSites :: "bool \<Rightarrow> site set" where
  "vipSites lost = (if lost then gateSites else gateSites \<union> {SK8sPrime})"

definition unitLaw :: "bool \<Rightarrow> nat \<Rightarrow> resource list \<Rightarrow> bool" where
  "unitLaw lost n ns \<longleftrightarrow>
     settled {SK8sPrime} gateSites gateSites n ns \<and>
     settled joinSites (gateSites \<union> {SK8sPrime}) (gateSites \<union> {SK8sPrime}) n ns \<and>
     settled {SKubeVipConfig} (vipSites lost) (vipSites lost) n ns \<and>
     ordered {SHelmfile} appSites (appSites \<union> hackSites) n ns"

lemmas law_defs = site_defs nodeSites_def appSites_def hackSites_def vipSites_def

lemma unitLaw_vm: "adds (vmSites \<union> {SSshConfig}) s t \<Longrightarrow> length (nodes s) \<le> n \<Longrightarrow> unitLaw lost n (nodes t)"
  unfolding unitLaw_def
  by (intro conjI settled_vacuous ordered_vacuous) (auto simp: law_defs)

lemma unitLaw_join:
  assumes "unitLaw lost n ns"
    and "\<forall>r\<in>set new. r_site r \<in> joinSites \<and>
      tracks (gateSites \<union> {SK8sPrime}) (gateSites \<union> {SK8sPrime}) n (r_deps r) ns"
  shows "unitLaw lost n (ns @ new)"
proof -
  have out: "r_site r \<notin> gateSites \<and> r_site r \<notin> {SK8sPrime} \<and> r_site r \<notin> {SHelmfile} \<and> r_site r \<notin> {SKubeVipConfig} \<and>
      r_site r \<notin> vipSites lost" if "r \<in> set new" for r
  proof -
    have "r_site r \<in> joinSites" using assms(2) that by blast
    then show ?thesis by (auto simp: law_defs)
  qed
  show ?thesis
    unfolding unitLaw_def
    by (intro conjI settled_append ordered_pass) (use assms out in \<open>auto simp: unitLaw_def\<close>)
qed

lemma unitLaw_vip:
  assumes "unitLaw lost n ns" and "r_site r = SKubeVipConfig" and "tracks (vipSites lost) (vipSites lost) n (r_deps r) ns"
  shows "unitLaw lost n (ns @ [r])"
  unfolding unitLaw_def
  by (intro conjI settled_append ordered_snoc) (use assms in \<open>auto simp: unitLaw_def law_defs\<close>)

lemma unitLaw_helm:
  assumes "unitLaw lost n ns" and "r_site r \<in> helmSites - {SKubeVipConfig}"
    and "r_site r = SHelmfile \<Longrightarrow> tracks appSites (appSites \<union> hackSites) n (r_deps r) ns"
  shows "unitLaw lost n (ns @ [r])"
  unfolding unitLaw_def
  by (intro conjI settled_append ordered_snoc) (use assms in \<open>auto simp: unitLaw_def law_defs\<close>)

lemma unitLaw_prime:
  fixes s t u :: world
  assumes "adds (vmSites \<union> {SSshConfig}) s t" "length (nodes s) \<le> n"
    and "r_site r = SK8sPrime" "tracks gateSites gateSites n (r_deps r) (nodes t)" "nodes u = nodes t @ [r]"
  shows "unitLaw lost n (nodes u)"
proof -
  have "adds (vmSites \<union> {SSshConfig, SK8sPrime}) s u" using assms(1,3,5) by (auto simp: adds_def)
  then have "settled joinSites (gateSites \<union> {SK8sPrime}) (gateSites \<union> {SK8sPrime}) n (nodes u)"
    "settled {SKubeVipConfig} (vipSites lost) (vipSites lost) n (nodes u)"
    "ordered {SHelmfile} appSites (appSites \<union> hackSites) n (nodes u)"
    using assms(2) by (auto intro!: settled_vacuous ordered_vacuous simp: law_defs)
  moreover have "settled {SK8sPrime} gateSites gateSites n (nodes t)"
    using settled_vacuous [OF assms(1,2)] by (simp add: law_defs)
  then have "settled {SK8sPrime} gateSites gateSites n (nodes u)"
    unfolding assms(5) using assms(3,4) by (intro settled_append) (auto simp: law_defs)
  ultimately show ?thesis by (simp add: unitLaw_def)
qed

definition midInv :: "bool \<Rightarrow> nat \<Rightarrow> world \<Rightarrow> ustate \<Rightarrow> world \<Rightarrow> bool" where
  "midInv lost n s us t \<longleftrightarrow> length (nodes s) = n \<and> (lost \<longrightarrow> us_vmDepends us \<noteq> []) \<and> adds (vmSites \<union> {SSshConfig}) s t \<and>
     tracks gateSites gateSites n (us_vmDepends us) (nodes t) \<and>
     tracks pkgSites pkgSites n (us_pkgInstalls us) (nodes t)"

definition k8sInv :: "bool \<Rightarrow> nat \<Rightarrow> world \<Rightarrow> ustate \<Rightarrow> nat list \<Rightarrow> world \<Rightarrow> bool" where
  "k8sInv lost n s us ds t \<longleftrightarrow> length (nodes s) = n \<and> adds (vmSites \<union> {SSshConfig} \<union> k8sSites) s t \<and>
     unitLaw lost n (nodes t) \<and>
     tracks (vipSites lost) (vipSites lost) n ds (nodes t) \<and>
     tracks (gateSites \<union> nodeSites) (gateSites \<union> nodeSites) n (us_vmDepends us) (nodes t) \<and>
     tracks pkgSites pkgSites n (us_pkgInstalls us) (nodes t)"

lemma midInv_law: "midInv lost n s us t \<Longrightarrow> unitLaw lost n (nodes t)"
  by (rule unitLaw_vm [of s t n]) (simp_all add: midInv_def)

lemma wp_unitSshConfig:
  assumes "midInv lost n s us t"
  shows "wp (unitSshConfig env state unit key us) (\<lambda>_. midInv lost n s us) (\<lambda>u. unitLaw lost n (nodes u)) t"
proof -
  have "within (adds {SSshConfig}) (unitSshConfig env state unit key us)"
    unfolding unitSshConfig_def Let_def by (intro adds_frame) simp
  moreover have "midInv lost n s us u" if u: "adds {SSshConfig} t u" for u
  proof -
    have "adds (vmSites \<union> {SSshConfig}) t u" using u by (rule adds_mono) simp
    then have "adds (vmSites \<union> {SSshConfig}) s u" using assms by (auto simp: midInv_def intro: addsrel.trans_R)
    with assms u show ?thesis by (auto simp: midInv_def law_defs intro: tracks_adds)
  qed
  ultimately show ?thesis
    by (elim wp_adds) (auto intro: midInv_law)
qed

lemma k8sInv_plain:
  assumes "midInv lost n s us t"
  shows "k8sInv lost n s us (us_vmDepends us) t"
proof -
  have a: "adds (vmSites \<union> {SSshConfig}) s t" "length (nodes s) \<le> n" using assms by (auto simp: midInv_def)
  have g: "tracks gateSites gateSites n (us_vmDepends us) (nodes t)"
    using assms unfolding midInv_def by blast
  have "tracks (gateSites \<union> {SK8sPrime}) (gateSites \<union> {SK8sPrime}) n (us_vmDepends us) (nodes t)"
    by (rule tracks_widen [OF g a]) (auto simp: law_defs)
  with g have "tracks (vipSites lost) (vipSites lost) n (us_vmDepends us) (nodes t)" by (simp add: vipSites_def)
  moreover have "tracks (gateSites \<union> nodeSites) (gateSites \<union> nodeSites) n (us_vmDepends us) (nodes t)"
    by (rule tracks_widen [OF g a]) (auto simp: law_defs)
  moreover have "adds (vmSites \<union> {SSshConfig} \<union> k8sSites) s t" using a(1) by (rule adds_mono) auto
  ultimately show ?thesis using assms midInv_law [OF assms] by (auto simp: k8sInv_def midInv_def)
qed

text \<open>What holds once the prime node's installation is registered.\<close>

definition primed :: "bool \<Rightarrow> nat \<Rightarrow> world \<Rightarrow> ustate \<Rightarrow> nat list \<Rightarrow> world \<Rightarrow> bool" where
  "primed lost n s us ds t \<longleftrightarrow> length (nodes s) = n \<and> adds (vmSites \<union> {SSshConfig} \<union> k8sSites) s t \<and>
     unitLaw lost n (nodes t) \<and>
     tracks (gateSites \<union> {SK8sPrime}) (gateSites \<union> {SK8sPrime}) n ds (nodes t) \<and>
     tracks pkgSites pkgSites n (us_pkgInstalls us) (nodes t)"

lemma primed_start:
  assumes "midInv lost n s us t" and "r_site r = SK8sPrime" and "r_deps r = us_vmDepends us"
    and "nodes u = nodes t @ [r]"
  shows "primed lost n s us (us_vmDepends us @ [length (nodes t)]) u"
proof -
  have a: "adds (vmSites \<union> {SSshConfig}) s t" "length (nodes s) = n"
    and g: "tracks gateSites gateSites n (us_vmDepends us) (nodes t)"
    and p: "tracks pkgSites pkgSites n (us_pkgInstalls us) (nodes t)"
    using assms(1) by (auto simp: midInv_def)
  have n: "n \<le> length (nodes t)" using a adds_length [OF a(1)] by simp
  have "tracks (gateSites \<union> {SK8sPrime}) (gateSites \<union> {SK8sPrime}) n (us_vmDepends us) (nodes t)"
    using a by (intro tracks_widen [OF g a(1)]) (auto simp: law_defs)
  then have "tracks (gateSites \<union> {SK8sPrime}) (gateSites \<union> {SK8sPrime}) n (us_vmDepends us @ [length (nodes t)]) (nodes u)"
    unfolding assms(4) using assms(2) n by (intro tracks_join) auto
  moreover have "tracks pkgSites pkgSites n (us_pkgInstalls us) (nodes u)"
    unfolding assms(4) using assms(2) by (intro tracks_pass p) (simp add: law_defs)
  moreover have "adds (vmSites \<union> {SSshConfig} \<union> k8sSites) s u"
    using a(1) assms(2,4) by (auto simp: adds_def law_defs)
  moreover have "unitLaw lost n (nodes u)"
    using unitLaw_prime [OF a(1) _ assms(2) _ assms(4)] a(2) g assms(3) by simp
  ultimately show ?thesis using a(2) by (simp add: primed_def)
qed

lemma primed_same: "primed lost n s us ds t \<Longrightarrow> nodes u = nodes t \<Longrightarrow> primed lost n s us ds u"
  unfolding primed_def adds_def by (elim conjE, intro conjI) simp_all

lemma primed_join:
  assumes "primed lost n s us ds t" and "nodes u = nodes t @ map f xs"
    and "\<And>x. r_site (f x) \<in> joinSites" and "\<And>x. r_deps (f x) = ds"
  shows "primed lost n s us ds u"
proof -
  have site: "r_site (f x) \<notin> gateSites \<union> {SK8sPrime}" "r_site (f x) \<notin> pkgSites" "r_site (f x) \<in> k8sSites" for x
    using assms(3) [of x] by (auto simp: law_defs)
  have a: "adds (vmSites \<union> {SSshConfig} \<union> k8sSites) s t" "unitLaw lost n (nodes t)"
    "tracks (gateSites \<union> {SK8sPrime}) (gateSites \<union> {SK8sPrime}) n ds (nodes t)"
    "tracks pkgSites pkgSites n (us_pkgInstalls us) (nodes t)" and n: "n = length (nodes s)"
    using assms(1) unfolding primed_def by blast+
  have "unitLaw lost n (nodes u)"
    unfolding assms(2) using a assms(3,4) by (intro unitLaw_join) auto
  moreover have "adds k8sSites t u" using assms(2) site(3) by (auto simp: adds_def)
  then have "adds (vmSites \<union> {SSshConfig} \<union> k8sSites) s u"
    using a(1) by (meson Un_upper2 adds_mono addsrel.trans_R)
  moreover have "tracks (gateSites \<union> {SK8sPrime}) (gateSites \<union> {SK8sPrime}) n ds (nodes u)"
    unfolding assms(2) by (rule tracks_pass_list [OF a(3)]) (use site(1) in auto)
  moreover have "tracks pkgSites pkgSites n (us_pkgInstalls us) (nodes u)"
    unfolding assms(2) by (rule tracks_pass_list [OF a(4)]) (use site(2) in auto)
  ultimately show ?thesis using n by (simp add: primed_def)
qed

lemma primed_law: "primed lost n s us ds t \<Longrightarrow> unitLaw lost n (nodes t)"
  unfolding primed_def by blast

lemma k8sInv_joined:
  assumes inv: "midInv lost n s us t"
    and r: "r_site r1 = SK8sPrime" "r_deps r1 = us_vmDepends us" "r_site r2 = SKubeConfig" "r_deps r2 = ds"
    and ds: "ds = us_vmDepends us @ [length (nodes t)]"
    and u: "nodes u = nodes t @ [r1, r2] @ map f xs @ map g ys"
    and f: "\<And>x. r_site (f x) = SK8sAdmin" "\<And>x. r_deps (f x) = ds"
    and g: "\<And>x. r_site (g x) = SK8sWorker" "\<And>x. r_deps (g x) = ds"
    and vip: "ds' = us_vmDepends us @ [if lost \<and> us_vmDepends us \<noteq> [] then hd (us_vmDepends us) else length (nodes t)]"
    and ids: "as = [length (nodes t) + 2..<length (nodes t) + 2 + length xs]"
      "ws = [length (nodes t) + 2 + length xs..<length (nodes t) + 2 + length xs + length ys]"
  shows "k8sInv lost n s (us\<lparr>us_vmDepends := us_vmDepends us @ ds @ as @ ws\<rparr>) ds' u"
proof -
  let ?A = "gateSites \<union> nodeSites" and ?n1 = "nodes t @ [r1]" and ?n2 = "nodes t @ [r1, r2]"
  let ?t1 = "t\<lparr>nodes := ?n1\<rparr>" and ?t2 = "t\<lparr>nodes := ?n2\<rparr>" and ?t3 = "t\<lparr>nodes := ?n2 @ map f xs\<rparr>"
  have a: "adds (vmSites \<union> {SSshConfig}) s t" and n: "length (nodes s) = n"
    and gt: "tracks gateSites gateSites n (us_vmDepends us) (nodes t)"
    using inv unfolding midInv_def by blast+
  have nt: "n \<le> length (nodes t)" using n adds_length [OF a] by simp
  have p1: "primed lost n s us ds ?t1" unfolding ds by (rule primed_start [OF inv r(1,2)]) simp
  have p2: "primed lost n s us ds ?t2"
    by (rule primed_join [OF p1, where f = "\<lambda>_. r2" and xs = "[()]"]) (simp_all add: r joinSites_def)
  have p3: "primed lost n s us ds ?t3"
    by (rule primed_join [OF p2, where f = f and xs = xs]) (simp_all add: f joinSites_def)
  have pu: "primed lost n s us ds u"
    by (rule primed_join [OF p3, where f = g and xs = ys]) (simp_all add: g joinSites_def u)
  have "tracks ?A ?A n (us_vmDepends us) (nodes t)"
    by (rule tracks_widen [OF gt a]) (use n in \<open>auto simp: law_defs\<close>)
  then have "tracks ?A ?A n ds ?n1"
    unfolding ds by (rule tracks_join) (use r nt in \<open>simp_all add: nodeSites_def\<close>)
  then have "tracks ?A ?A n ds (?n1 @ [r2])" by (rule tracks_pass) (simp add: r law_defs)
  then have "tracks ?A ?A n (ds @ [length (?n1 @ [r2])..<length (?n1 @ [r2]) + length (map f xs)]) ((?n1 @ [r2]) @ map f xs)"
    by (rule tracks_join_list) (use nt in \<open>auto simp: f nodeSites_def\<close>)
  then have "tracks ?A ?A n ((ds @ [length (nodes t) + 2..<length (nodes t) + 2 + length xs]) @
      [length (?n2 @ map f xs)..<length (?n2 @ map f xs) + length (map g ys)]) ((?n2 @ map f xs) @ map g ys)"
    by (intro tracks_join_list) (use nt in \<open>auto simp: g nodeSites_def\<close>)
  then have "tracks ?A ?A n (us_vmDepends us @ ds @ as @ ws) (nodes u)"
    by (auto simp: u ds ids tracks_def covers_def draws_def)
  moreover have "tracks (vipSites lost) (vipSites lost) n ds' (nodes u)"
  proof (cases lost)
    case True
    have "tracks gateSites gateSites n (us_vmDepends us) (nodes t @ ([r1, r2] @ map f xs @ map g ys))"
      by (rule tracks_pass_list [OF gt]) (auto simp: r f g gateSites_def)
    moreover have "set ds' = set (us_vmDepends us)" using inv True by (auto simp: vip midInv_def)
    ultimately show ?thesis using True by (simp add: vipSites_def u tracks_def covers_def draws_def)
  next
    case False
    then have "ds' = ds" by (simp add: vip ds)
    with False pu show ?thesis by (simp add: vipSites_def primed_def)
  qed
  ultimately show ?thesis using pu unfolding k8sInv_def primed_def by simp
qed

lemma unitLaw_joined:
  assumes "midInv lost n s us t" and "r_site r1 = SK8sPrime" and "r_deps r1 = us_vmDepends us"
    and "nodes u = nodes t @ r1 # js"
    and "\<forall>r\<in>set js. r_site r \<in> joinSites \<and> r_deps r = us_vmDepends us @ [length (nodes t)]"
  shows "unitLaw lost n (nodes u)"
proof -
  have p: "primed lost n s us (us_vmDepends us @ [length (nodes t)]) (t\<lparr>nodes := nodes t @ [r1]\<rparr>)"
    by (rule primed_start [OF assms(1-3)]) simp
  then have "unitLaw lost n ((nodes t @ [r1]) @ js)"
    by (intro unitLaw_join [where ns = "nodes t @ [r1]"]) (use assms(5) in \<open>simp_all add: primed_def\<close>)
  with assms(4) show ?thesis by simp
qed

lemma wp_unitK8s:
  assumes inv: "midInv lost n s us t"
  shows "wp (unitK8sV lost env state unit key netconfig us) (\<lambda>(us', ds). k8sInv lost n s us' ds) (\<lambda>u. unitLaw lost n (nodes u)) t"
proof (cases "u_Kind unit = ''k8s''")
  case False
  then show ?thesis using k8sInv_plain [OF inv] by (simp add: unitK8sV_def Let_def wp_return)
next
  case True
  let ?r1 = "primeInstall unit key (us_prime us) (n_Hosts netconfig ! 0) (us_vmDepends us)"
  let ?ds = "us_vmDepends us @ [length (nodes t)]"
  have stop: "unitLaw lost n (nodes u)" if "nodes u = nodes t \<or> (\<exists>js. nodes u = nodes t @ ?r1 # js \<and>
      (\<forall>r\<in>set js. r_site r \<in> joinSites \<and> r_deps r = ?ds))" for u :: world
    using that
  proof (elim disjE exE conjE)
    assume "nodes u = nodes t"
    then show ?thesis using midInv_law [OF inv] by simp
  next
    fix js assume "nodes u = nodes t @ ?r1 # js" "\<forall>r\<in>set js. r_site r \<in> joinSites \<and> r_deps r = ?ds"
    then show ?thesis by (intro unitLaw_joined [OF inv, where ?r1.0 = ?r1]) simp_all
  qed
  show ?thesis
    unfolding unitK8sV_def Let_def
    apply (subst if_P [OF True])
    apply (rule wp_bind, rule wp_index)
     apply (rule wp_bind, rule engine.wp_create)
      apply (rule wp_bind, rule astore.wp_reg)
       apply (rule wp_bind, rule engine.wp_create)
        apply (rule wp_bind, rule wp_ctxExport)
        apply (rule wp_bind, rule engine.wp_create_all)
         apply (rule wp_bind, rule engine.wp_create_all)
          apply (rule wp_return)
          apply (simp only: prod.case)
          apply (rule k8sInv_joined [OF inv, where
            ?r1.0 = "primeInstall unit key (us_prime us) (n_Hosts netconfig ! 0) (us_vmDepends us)"
            and f = "adminInstall unit key (us_prime us) (n_Hosts netconfig ! 0) (us_vmDepends us @ [length (nodes t)])"
            and g = "workerInstall unit key (us_prime us) (us_vmDepends us @ [length (nodes t)])"
            and xs = "us_unitMap us ''default''" and ys = "us_unitMap us ''agent''"])
                      apply (simp_all del: upt_Suc)[13]
         apply (rule stop; force simp: joinSites_def dest: in_set_takeD)+
    done
qed

section \<open>Helmfiles\<close>

definition helmInv :: "bool \<Rightarrow> nat \<Rightarrow> ustate \<Rightarrow> nat list \<Rightarrow> resource list \<Rightarrow> bool" where
  "helmInv lost n us ds ns \<longleftrightarrow> n \<le> length ns \<and> unitLaw lost n ns \<and>
     tracks appSites (appSites \<union> hackSites) n (us_vmDepends us) ns \<and>
     tracks (vipSites lost) (vipSites lost) n ds ns"

lemma helmInv_start:
  assumes "k8sInv lost n s us ds t"
  shows "helmInv lost n (us\<lparr>us_vmDepends := us_vmDepends us @ us_pkgInstalls us\<rparr>) ds (nodes t)"
proof -
  have a: "adds (vmSites \<union> {SSshConfig} \<union> k8sSites) s t" and n: "length (nodes s) = n"
    and g: "tracks (gateSites \<union> nodeSites) (gateSites \<union> nodeSites) n (us_vmDepends us) (nodes t)"
    and p: "tracks pkgSites pkgSites n (us_pkgInstalls us) (nodes t)"
    using assms unfolding k8sInv_def by blast+
  let ?B = "appSites \<union> hackSites"
  have "tracks (gateSites \<union> nodeSites) ?B n (us_vmDepends us) (nodes t)"
    "tracks pkgSites ?B n (us_pkgInstalls us) (nodes t)"
    by (rule tracks_sub [OF g], simp, auto simp: appSites_def) (rule tracks_sub [OF p], simp, auto simp: appSites_def)
  then have "tracks ((gateSites \<union> nodeSites) \<union> pkgSites) ?B n (us_vmDepends us @ us_pkgInstalls us) (nodes t)"
    by (rule tracks_union)
  then have "tracks (((gateSites \<union> nodeSites) \<union> pkgSites) \<union> {SHelmfile, SKubeVipConfig}) ?B n
      (us_vmDepends us @ us_pkgInstalls us) (nodes t)"
    by (rule tracks_widen [OF _ a]) (use n in \<open>auto simp: law_defs\<close>)
  moreover have "((gateSites \<union> nodeSites) \<union> pkgSites) \<union> {SHelmfile, SKubeVipConfig} = appSites"
    by (auto simp: appSites_def)
  ultimately show ?thesis
    using assms n adds_length [OF a] by (simp add: helmInv_def k8sInv_def)
qed

lemma helmInv_hacks:
  assumes "helmInv lost n us ds ns" and "\<forall>r\<in>set hs. r_site r \<in> hackSites"
  shows "helmInv lost n us ds (ns @ hs)"
proof -
  have out: "r_site r \<notin> appSites" "r_site r \<notin> vipSites lost" "r_site r \<in> helmSites - {SKubeVipConfig}"
    "r_site r \<noteq> SHelmfile" if "r \<in> set hs" for r
    using assms(2) that by (auto simp: law_defs)
  have law: "unitLaw lost n (ns @ take k hs)" for k
  proof (induction k)
    case (Suc k)
    show ?case
    proof (cases "k < length hs")
      case True
      then have "hs ! k \<in> set hs" by simp
      with Suc True out show ?thesis
        unfolding take_Suc_conv_app_nth [OF True] by (metis append.assoc unitLaw_helm)
    qed (use Suc in simp)
  qed (use assms(1) in \<open>simp add: helmInv_def\<close>)
  from law [of "length hs"] show ?thesis
    using assms(1) out by (auto simp: helmInv_def intro: tracks_pass_list)
qed

lemma helmInv_apply:
  assumes "helmInv lost n us ds ns" and "r_site r = SHelmfile" and "r_deps r = us_vmDepends us"
  shows "helmInv lost n (us\<lparr>us_vmDepends := us_vmDepends us @ [length ns]\<rparr>) ds (ns @ [r])"
proof -
  have "unitLaw lost n (ns @ [r])"
    using assms by (intro unitLaw_helm) (auto simp: helmInv_def helmSites_def)
  moreover have "tracks appSites (appSites \<union> hackSites) n (us_vmDepends us @ [length ns]) (ns @ [r])"
    using assms by (intro tracks_join) (auto simp: helmInv_def appSites_def)
  moreover have "tracks (vipSites lost) (vipSites lost) n ds (ns @ [r])"
    using assms by (intro tracks_pass) (auto simp: helmInv_def gateSites_def vipSites_def)
  ultimately show ?thesis using assms(1) by (simp add: helmInv_def)
qed

lemma helmInv_vip:
  assumes "helmInv lost n us ds ns" and "r_site r = SKubeVipConfig" and "r_deps r = ds"
  shows "helmInv lost n (us\<lparr>us_vmDepends := us_vmDepends us @ [length ns]\<rparr>) ds (ns @ [r])"
proof -
  have "unitLaw lost n (ns @ [r])"
    using assms by (intro unitLaw_vip) (auto simp: helmInv_def)
  moreover have "tracks appSites (appSites \<union> hackSites) n (us_vmDepends us @ [length ns]) (ns @ [r])"
    using assms by (intro tracks_join) (auto simp: helmInv_def appSites_def)
  moreover have "tracks (vipSites lost) (vipSites lost) n ds (ns @ [r])"
    using assms by (intro tracks_pass) (auto simp: helmInv_def gateSites_def vipSites_def)
  ultimately show ?thesis using assms(1) by (simp add: helmInv_def)
qed

lemma helmInv_more:
  assumes "helmInv lost n us ds ns" and "draws hackSites n es ns"
  shows "helmInv lost n (us\<lparr>us_vmDepends := us_vmDepends us @ es\<rparr>) ds ns"
proof -
  have "draws (appSites \<union> hackSites) n es ns" using assms(2) by (rule draws_mono) simp
  with assms(1) show ?thesis
    by (auto simp: helmInv_def tracks_def draws_app elim: covers_mono)
qed

lemma wp_hack:
  assumes "\<And>hs t. nodes t = nodes s @ hs \<Longrightarrow> \<forall>r\<in>set hs. r_site r \<in> hackSites \<Longrightarrow> length hs \<le> 1 \<Longrightarrow>
      Q [length (nodes s)..<length (nodes s) + length hs] t"
    and "\<And>t. nodes t = nodes s \<Longrightarrow> E t"
  shows "wp (if hf = ''ai'' then
      bindG (newResource env (hackResource SAiHack w1 c1 unit key prime deps)) (\<lambda>i. returnG [i])
    else if hf = ''nexus'' then
      bindG (newResource env (hackResource SNexusHack w2 c2 unit key prime deps)) (\<lambda>i. returnG [i])
    else returnG []) Q E s"
  apply (intro wp_if wp_bind engine.wp_create wp_return)
      apply (use assms(1) in \<open>fastforce simp: hackSites_def\<close>)
     apply (simp add: assms(2))
    apply (use assms(1) in \<open>fastforce simp: hackSites_def\<close>)
   apply (simp add: assms(2))
  using assms(1) [of s "[]"] apply simp
  done

lemma helmInv_law: "helmInv lost n us ds ns \<Longrightarrow> unitLaw lost n ns"
  by (simp add: helmInv_def)

lemma wp_kubeVip:
  assumes inv: "helmInv lost n us ds (nodes t)"
  shows "wp (bindG (registerArtifact env state path) (\<lambda>localKubeconfig.
      bindG (indexG (n_Hosts netconfig) 0) (\<lambda>h0.
      bindG (newResource env (localCommand SKubeVipConfig nm
               (copyKubeconfig key prime [Lit (h_Ipv4 h0)] localKubeconfig) ds)) (\<lambda>kubeVipFile.
      returnG (us\<lparr>us_vmDepends := us_vmDepends us @ [kubeVipFile]\<rparr>)))))
    (\<lambda>us' u. helmInv lost n us' ds (nodes u)) (\<lambda>u. unitLaw lost n (nodes u)) t"
  apply (intro wp_bind astore.wp_reg wp_index engine.wp_create wp_return)
      apply (use helmInv_vip [OF inv] in simp)
     apply (use helmInv_law [OF inv] in simp_all)
  done

lemma wp_helmApply:
  assumes inv: "helmInv lost n us ds (nodes t)" and "draws hackSites n hack (nodes t)"
  shows "wp (bindG (newResource env (helmfileResource unit hf kc (us_vmDepends us))) (\<lambda>helmfileApply.
      let us = us\<lparr>us_vmDepends := us_vmDepends us @ [helmfileApply]\<rparr> in
      if hf = ''kube-vip'' then
        bindG (registerArtifact env state (''/'' @ u_Name unit @ ''/kube-vip/config'')) (\<lambda>localKubeconfig.
        bindG (indexG (n_Hosts netconfig) 0) (\<lambda>h0.
        bindG (newResource env (localCommand SKubeVipConfig (u_Name unit @ '' kube-vip kubeconfig'')
                 (copyKubeconfig key prime [Lit (h_Ipv4 h0)] localKubeconfig) ds)) (\<lambda>kubeVipFile.
        returnG (us\<lparr>us_vmDepends := us_vmDepends us @ [kubeVipFile]\<rparr>))))
      else returnG (us\<lparr>us_vmDepends := us_vmDepends us @ hack\<rparr>)))
    (\<lambda>us' u. helmInv lost n us' ds (nodes u)) (\<lambda>u. unitLaw lost n (nodes u)) t"
proof (rule wp_bind, rule engine.wp_create)
  fix u :: world assume u: "nodes u = nodes t @ [helmfileResource unit hf kc (us_vmDepends us)]"
  let ?us = "us\<lparr>us_vmDepends := us_vmDepends us @ [length (nodes t)]\<rparr>"
  have inv': "helmInv lost n ?us ds (nodes u)" unfolding u by (rule helmInv_apply [OF inv]) simp_all
  have "draws hackSites n hack (nodes u)" unfolding u by (rule draws_append [OF assms(2)])
  then show "wp (let us = ?us in
      if hf = ''kube-vip'' then
        bindG (registerArtifact env state (''/'' @ u_Name unit @ ''/kube-vip/config'')) (\<lambda>localKubeconfig.
        bindG (indexG (n_Hosts netconfig) 0) (\<lambda>h0.
        bindG (newResource env (localCommand SKubeVipConfig (u_Name unit @ '' kube-vip kubeconfig'')
                 (copyKubeconfig key prime [Lit (h_Ipv4 h0)] localKubeconfig) ds)) (\<lambda>kubeVipFile.
        returnG (us\<lparr>us_vmDepends := us_vmDepends us @ [kubeVipFile]\<rparr>))))
      else returnG (us\<lparr>us_vmDepends := us_vmDepends us @ hack\<rparr>))
      (\<lambda>us' u. helmInv lost n us' ds (nodes u)) (\<lambda>u. unitLaw lost n (nodes u)) u"
    unfolding Let_def by (intro wp_if wp_return wp_kubeVip inv' helmInv_more)
next
  fix u :: world assume "nodes u = nodes t"
  then show "unitLaw lost n (nodes u)" using helmInv_law [OF inv] by simp
qed

lemma wp_unitHelmfile:
  assumes inv: "helmInv lost n us ds (nodes t)"
  shows "wp (unitHelmfileV env state unit key netconfig ds kc hf us) (\<lambda>us' u. helmInv lost n us' ds (nodes u))
    (\<lambda>u. unitLaw lost n (nodes u)) t"
  unfolding unitHelmfileV_def
  apply (subst Let_def)
  apply (rule wp_bind, rule wp_hack)
   apply (rule wp_helmApply)
    apply (use helmInv_hacks [OF inv] in simp)
   apply (use inv in \<open>auto simp: helmInv_def draws_def\<close>)
  apply (metis add.commute add_diff_inverse_nat add_less_cancel_right linorder_not_less nth_append nth_mem)
  done

lemma wp_unitOnline:
  assumes inv: "k8sInv lost n s us ds t"
  shows "wp (unitOnlineV env state unit key netconfig ds us) (\<lambda>_ u. unitLaw lost n (nodes u)) (\<lambda>u. unitLaw lost n (nodes u)) t"
proof -
  have law: "unitLaw lost n (nodes t)" using inv by (simp add: k8sInv_def)
  let ?us = "us\<lparr>us_vmDepends := us_vmDepends us @ us_pkgInstalls us\<rparr>"
  have loop: "wp (forG (u_Helmfiles unit) (\<lambda>hf us. unitHelmfileV env state unit key netconfig ds kc hf us) ?us)
      (\<lambda>_ u. unitLaw lost n (nodes u)) (\<lambda>u. unitLaw lost n (nodes u)) u" if u: "nodes u = nodes t" for u :: world and kc
  proof (rule wp_for [where I = "\<lambda>_ us' v. helmInv lost n us' ds (nodes v)"])
    show "helmInv lost n ?us ds (nodes u)" unfolding u by (rule helmInv_start [OF inv])
  qed (auto intro: wp_unitHelmfile helmInv_law)
  show ?thesis
    unfolding unitOnlineV_def Let_def
    by (intro wp_if wp_bind astore.wp_reg loop wp_return) (simp_all add: law)
qed

section \<open>The whole unit\<close>

lemma libvirtUnit_law:
  "unitLaw (slicesClash env unit inputs) (length (nodes s))
     (nodes (snd (libvirtUnit env state unit shared key inputs netconfig s)))"
proof (rule wp_any)
  let ?n = "length (nodes s)" and ?lost = "slicesClash env unit inputs"
  let ?E = "\<lambda>u. unitLaw ?lost ?n (nodes u)"
  have vm: "?E u" if "adds vmSites s u" for u
    by (rule unitLaw_vm [OF adds_mono [OF that]]) auto
  have mid: "midInv ?lost ?n s us u" if "vmInv ?n s us u" "?lost \<longrightarrow> us_vmDepends us \<noteq> []" for us u
    using that by (auto simp: vmInv_def midInv_def elim: adds_mono)
  show "wp (libvirtUnit env state unit shared key inputs netconfig) (\<lambda>_. ?E) ?E s"
    unfolding libvirtUnit_values libvirtUnitV_def
  proof (rule wp_bind, rule wp_weaken [OF wp_fact [OF wp_setupVms wp_setupVmsV_extent]])
    fix us t assume "vmInv ?n s us t \<and> (?lost \<longrightarrow> us_vmDepends us \<noteq> [])"
    then have m: "midInv ?lost ?n s us t" by (auto intro: mid)
    show "wp (bindG (unitSshConfig env state unit key us) (\<lambda>_. bindG (unitK8sV ?lost env state unit key netconfig us)
        (\<lambda>(us, k8sDepends). bindG (unitOnlineV env state unit key netconfig k8sDepends us) (\<lambda>_. returnG ()))))
        (\<lambda>_. ?E) ?E t"
    proof (rule wp_bind, rule wp_weaken [OF wp_unitSshConfig [OF m]])
      fix u assume m: "midInv ?lost ?n s us u"
      show "wp (bindG (unitK8sV ?lost env state unit key netconfig us)
        (\<lambda>(us, k8sDepends). bindG (unitOnlineV env state unit key netconfig k8sDepends us) (\<lambda>_. returnG ())))
        (\<lambda>_. ?E) ?E u"
        by (rule wp_bind, rule wp_weaken [OF wp_unitK8s [OF m]])
          (auto intro!: wp_bind wp_weaken [OF wp_unitOnline] wp_return)
    qed
  qed (rule vm)
qed

section \<open>A concrete unit\<close>

definition sampleHelmUnit :: Unit where
  "sampleHelmUnit =
     \<lparr>u_After = [], u_Config = [], u_Kind = ''k8s'', u_Name = ''upstream'', u_Online = True,
      u_Helmfiles = [''ai'', ''kube-vip'']\<rparr>"

definition sampleKey :: SshData where
  "sampleKey = \<lparr>sd_PrvKey = ''k'', sd_PubKey = ''p'', sd_PrvKeyFile = ''/b/k'', sd_PubKeyFile = ''/b/p''\<rparr>"

definition sampleNet :: "unit Network" where
  "sampleNet = \<lparr>n_Method = '''', n_Cidr = None, n_Domain = ''d'',
     n_Hosts = [\<lparr>h_Fqdn = ''a.d'', h_Name = ''a'', h_Ipv4 = ''10.0.0.9''\<rparr>], n_Libvirt = ''''\<rparr>"

definition sampleShared :: LibvirtShared where
  "sampleShared = \<lparr>ls_Provider = 0, ls_Network = 1, ls_CloudInitStoragePool = 2, ls_VmStoragePool = 3,
     ls_BaseVolume = None\<rparr>"

definition sampleRun :: "unit outcome \<times> world" where
  "sampleRun = libvirtUnit calmEnv (stateFor calmEnv ''/b'' ''U'') sampleHelmUnit sampleShared sampleKey []
     sampleNet emptyWorld"

lemma nodes_empty [simp]: "nodes emptyWorld = []"
  by (simp add: emptyWorld_def)

lemma sample_clash: "\<not> slicesClash env sampleHelmUnit inputs"
  by (simp add: slicesClash_def vmCount_def sampleHelmUnit_def roomFor_def)

lemma sample_values:
  "libvirtUnit env state sampleHelmUnit shared key inputs netconfig =
     libvirtUnitV False env state sampleHelmUnit shared key inputs netconfig"
  using sample_clash by (simp add: libvirtUnit_values)

lemmas unit_run = libvirtUnitV_def setupVmsV_def unitK8sV_def unitOnlineV_def unitHelmfileV_def

lemma sampleRun_nodes:
  "map (\<lambda>r. (r_site r, r_deps r)) (nodes (snd sampleRun)) =
     [(SSshConfig, []), (SK8sPrime, []), (SKubeConfig, [1]), (SAiHack, [1]), (SHelmfile, [1]),
      (SHelmfile, [1, 4, 3]), (SKubeVipConfig, [1])]"
  unfolding sampleRun_def sample_values
  by (simp add: unit_run unitSshConfig_def sampleHelmUnit_def Let_def calm_run indexG_def sampleNet_def startState_def
      calmEnv_def [THEN arg_cong [where f = e_getenv]] cong: bindG_cong)

lemma sampleRun_at:
  "length (nodes (snd sampleRun)) = 7"
  "k < 7 \<Longrightarrow> (r_site (nodes (snd sampleRun) ! k), r_deps (nodes (snd sampleRun) ! k)) =
     [(SSshConfig, []), (SK8sPrime, []), (SKubeConfig, [1]), (SAiHack, [1]), (SHelmfile, [1]),
      (SHelmfile, [1, 4, 3]), (SKubeVipConfig, [1])] ! k"
proof -
  have "length (map (\<lambda>r. (r_site r, r_deps r)) (nodes (snd sampleRun))) = 7"
    unfolding sampleRun_nodes by simp
  then show l: "length (nodes (snd sampleRun)) = 7" by simp
  show "k < 7 \<Longrightarrow> (r_site (nodes (snd sampleRun) ! k), r_deps (nodes (snd sampleRun) ! k)) =
     [(SSshConfig, []), (SK8sPrime, []), (SKubeConfig, [1]), (SAiHack, [1]), (SHelmfile, [1]),
      (SHelmfile, [1, 4, 3]), (SKubeVipConfig, [1])] ! k"
    unfolding sampleRun_nodes [symmetric] by (simp add: l)
qed

section \<open>Properties\<close>

text \<open>
  C2: whatever the outcome, the installation of the prime node depends on exactly the remote
  checks, motd commands and file installations of all vms of the unit; the kubeconfig copy, every
  further control-plane node and every worker depend on exactly those and the prime installation.
\<close>

theorem unit_k8s_order:
  assumes "n = length (nodes s)"
    and "ns = nodes (snd (libvirtUnit env state unit shared key inputs netconfig s))"
    and "n \<le> i" and "i < length ns"
  shows "(r_site (ns ! i) = SK8sPrime \<longrightarrow>
      set (r_deps (ns ! i)) = {j. n \<le> j \<and> j < length ns \<and> r_site (ns ! j) \<in> {SInitCheck, SMotd, SInstallFile}}) \<and>
    (r_site (ns ! i) \<in> {SKubeConfig, SK8sAdmin, SK8sWorker} \<longrightarrow>
      set (r_deps (ns ! i)) =
        {j. n \<le> j \<and> j < length ns \<and> r_site (ns ! j) \<in> {SInitCheck, SMotd, SInstallFile, SK8sPrime}})"
proof -
  have law: "unitLaw (slicesClash env unit inputs) n ns" unfolding assms(1,2) by (rule libvirtUnit_law)
  have gates: "gateSites \<union> {SK8sPrime} = {SInitCheck, SMotd, SInstallFile, SK8sPrime}" by (auto simp: gateSites_def)
  have "set (r_deps (ns ! i)) = {j. n \<le> j \<and> j < length ns \<and> r_site (ns ! j) \<in> gateSites}" if "r_site (ns ! i) = SK8sPrime"
    using law assms(3,4) that by (intro settledD [where B = "{SK8sPrime}"]) (simp_all add: unitLaw_def)
  moreover have "set (r_deps (ns ! i)) = {j. n \<le> j \<and> j < length ns \<and> r_site (ns ! j) \<in> gateSites \<union> {SK8sPrime}}"
    if "r_site (ns ! i) \<in> joinSites"
    using law assms(3,4) that by (intro settledD [where B = joinSites]) (simp_all add: unitLaw_def)
  ultimately show ?thesis unfolding gates unfolding gateSites_def joinSites_def by blast
qed

theorem unit_k8s_order_witness:
  "1 \<in> set (r_deps (nodes (snd sampleRun) ! 2)) \<and> r_site (nodes (snd sampleRun) ! 2) = SKubeConfig"
proof -
  have "(r_site (nodes (snd sampleRun) ! 2) = SKubeConfig \<longrightarrow>
      set (r_deps (nodes (snd sampleRun) ! 2)) = {j. 0 \<le> j \<and> j < 7 \<and>
        r_site (nodes (snd sampleRun) ! j) \<in> {SInitCheck, SMotd, SInstallFile, SK8sPrime}})"
    using unit_k8s_order [of 0 emptyWorld "nodes (snd sampleRun)" calmEnv "stateFor calmEnv ''/b'' ''U''"
        sampleHelmUnit sampleShared sampleKey "[]" sampleNet 2] sampleRun_at(1)
    by (simp add: sampleRun_def)
  then show ?thesis using sampleRun_at(2) [of 1] sampleRun_at(2) [of 2] by simp
qed

text \<open>
  C8: whatever the outcome, the kube-vip kubeconfig depends on exactly the checks, motd commands and
  file installations of the unit, and on the installation of the prime node unless the array behind
  \<open>vmDepends\<close> has room for all of it once more and that installation: then the append of
  \<open>k8sDepends\<close> to \<open>vmDepends\<close> has written over the entry.
\<close>

theorem prime_install_lost:
  assumes "n = length (nodes s)"
    and "ns = nodes (snd (libvirtUnit env state unit shared key inputs netconfig s))"
    and "n \<le> i" and "i < length ns" and "r_site (ns ! i) = SKubeVipConfig"
  shows "set (r_deps (ns ! i)) = {j. n \<le> j \<and> j < length ns \<and> (r_site (ns ! j) \<in> {SInitCheck, SMotd, SInstallFile} \<or>
      r_site (ns ! j) = SK8sPrime \<and> \<not> slicesClash env unit inputs)}"
proof -
  have "unitLaw (slicesClash env unit inputs) n ns" unfolding assms(1,2) by (rule libvirtUnit_law)
  with assms(3-5) have "set (r_deps (ns ! i)) = {j. n \<le> j \<and> j < length ns \<and> r_site (ns ! j) \<in> vipSites (slicesClash env unit inputs)}"
    by (intro settledD [where B = "{SKubeVipConfig}"]) (simp_all add: unitLaw_def)
  then show ?thesis by (auto simp: vipSites_def gateSites_def)
qed

text \<open>
  The growth of Go's runtime for elements of two words: doubling, or the needed length if that is
  more, rounded up to the next size its allocator has (as far as the example goes).
\<close>

definition goGrow :: "nat \<Rightarrow> nat \<Rightarrow> nat" where
  "goGrow c n = hd (filter (\<lambda>size. (if 2 * c < n then n else 2 * c) \<le> size)
     [1, 2, 3, 4, 5, 6, 7, 8, 9, 10, 11, 12, 13, 14, 15, 16, 18, 20, 22, 24, 26, 28, 30, 32, 36, 40, 44, 48, 56, 64, 72,
      80, 88, 96, 112, 128, 144, 168, 192, 200, 216, 256, 304, 320, 336, 384, 408, 424, 432, 512])"

definition lossyUnit :: "int \<Rightarrow> Unit" where
  "lossyUnit n = sampleHelmUnit\<lparr>u_Helmfiles := [''kube-vip''], u_Config := [\<lparr>c_Count = n, c_Cpu = 1, c_Disksize = 1, c_Memory = 1,
     c_Name = ''default'', c_Qcow2 = ''q''\<rparr>]\<rparr>"

definition lossyFiles :: "nat \<Rightarrow> CachedFile list" where
  "lossyFiles n = replicate n \<lparr>cf_Uri = ''u'', cf_Sha256Sum = ''s'',
     cf_Remote = \<lparr>rf_Dest = ''/d'', rf_Mode = ''0644'', rf_Owner = ''r'', rf_Group = ''r''\<rparr>\<rparr>"

lemma goGrow_clash: "slicesClash (calmEnv\<lparr>e_grow := goGrow\<rparr>) (lossyUnit 6) (lossyFiles 5)"
  by code_simp

theorem prime_install_lost_witness:
  "r_site (nodes (snd sampleRun) ! 6) = SKubeVipConfig \<and> 1 \<in> set (r_deps (nodes (snd sampleRun) ! 6)) \<and>
   slicesClash (calmEnv\<lparr>e_grow := goGrow\<rparr>) (lossyUnit 6) (lossyFiles 5)"
proof -
  have "r_site (nodes (snd sampleRun) ! 6) = SKubeVipConfig" using sampleRun_at(2) [of 6] by simp
  moreover from this have "1 \<in> set (r_deps (nodes (snd sampleRun) ! 6))"
    using prime_install_lost [of 0 emptyWorld "nodes (snd sampleRun)" calmEnv "stateFor calmEnv ''/b'' ''U''"
        sampleHelmUnit sampleShared sampleKey "[]" sampleNet 6] sampleRun_at(1) sampleRun_at(2) [of 1] sample_clash
    by (simp add: sampleRun_def)
  ultimately show ?thesis using goGrow_clash by blast
qed

text \<open>
  C3: whatever the outcome, a helmfile is applied after everything of the unit that was
  registered before it among checks, motd commands, file and package installations, prime,
  control-plane and worker installations, earlier helmfiles and the kube-vip kubeconfig; and
  it depends on nothing else but service hacks.
\<close>

theorem helmfile_order:
  assumes "n = length (nodes s)"
    and "ns = nodes (snd (libvirtUnit env state unit shared key inputs netconfig s))"
    and "n \<le> i" and "i < length ns" and "r_site (ns ! i) = SHelmfile"
    and "app = {SInitCheck, SMotd, SInstallFile, SZypper, SIscsi, SK8sPrime, SK8sAdmin, SK8sWorker,
      SHelmfile, SKubeVipConfig}"
  shows "{j. n \<le> j \<and> j < i \<and> r_site (ns ! j) \<in> app} \<subseteq> set (r_deps (ns ! i)) \<and>
    set (r_deps (ns ! i)) \<subseteq> {j. n \<le> j \<and> j < i \<and> r_site (ns ! j) \<in> app \<union> {SAiHack, SNexusHack}}"
proof -
  have "unitLaw (slicesClash env unit inputs) n ns" unfolding assms(1,2) by (rule libvirtUnit_law)
  then have t: "tracks appSites (appSites \<union> hackSites) n (r_deps (ns ! i)) (take i ns)"
    using assms(3-5) by (simp add: unitLaw_def ordered_def)
  have app: "app = appSites" by (auto simp: assms(6) law_defs)
  have len: "min (length ns) i = i" using assms(4) by simp
  have "{j. n \<le> j \<and> j < i \<and> r_site (ns ! j) \<in> appSites} \<subseteq> set (r_deps (ns ! i))"
    using t by (auto simp: tracks_def covers_def len)
  moreover have "set (r_deps (ns ! i)) \<subseteq> {j. n \<le> j \<and> j < i \<and> r_site (ns ! j) \<in> appSites \<union> hackSites}"
    using t by (auto simp: tracks_def draws_def len)
  ultimately show ?thesis by (simp add: app hackSites_def)
qed

theorem helmfile_order_witness:
  "{1, 4} \<subseteq> set (r_deps (nodes (snd sampleRun) ! 5))"
proof -
  let ?ns = "nodes (snd sampleRun)"
  have "{j. 0 \<le> j \<and> j < 5 \<and> r_site (?ns ! j) \<in> {SInitCheck, SMotd, SInstallFile, SZypper, SIscsi,
      SK8sPrime, SK8sAdmin, SK8sWorker, SHelmfile, SKubeVipConfig}} \<subseteq> set (r_deps (?ns ! 5))"
    using helmfile_order [of 0 emptyWorld ?ns calmEnv "stateFor calmEnv ''/b'' ''U''"
        sampleHelmUnit sampleShared sampleKey "[]" sampleNet 5, OF _ _ _ _ _ refl] sampleRun_at(1) sampleRun_at(2) [of 5]
    by (simp add: sampleRun_def)
  then show ?thesis using sampleRun_at(2) [of 1] sampleRun_at(2) [of 4] by auto
qed

end
