(* ===== verification/Libvirt_Plan.thy ===== *)
theory Libvirt_Plan
  imports Libvirt_Order Traces
begin

text \<open>
  The abstract plan of a unit: which resources its configuration asks for, in order, as the
  list of their call sites, and the proof that \<open>libvirtUnit\<close> follows it. The ssh configuration
  and the clean-up command of the universe are left out of the plan, because the errors of these
  two registrations are dropped.
\<close>

section \<open>The plan\<close>

definition vmPlan :: "Unit \<Rightarrow> CachedFile list \<Rightarrow> site list" where
  "vmPlan unit inputs =
     [SDisk, SCloudinit, SDomain, SSshCheck, SCopyRemote, SInitCheck, SMotd] @
     (if u_Online unit then [SZypper, SIscsi] else []) @ [SVmComponent, SLogCopy, SLogCopy] @
     concat (map (\<lambda>f. if rf_Dest (cf_Remote f) \<noteq> '''' then [SCopyInput, SInstallFile] else []) inputs)"

definition configPlan :: "Unit \<Rightarrow> CachedFile list \<Rightarrow> Config \<Rightarrow> site list" where
  "configPlan unit inputs config = SBaseVolume # concat (replicate (nat (c_Count config)) (vmPlan unit inputs))"

text \<open>How many vms of a unit are filed under a configuration name; the prime one is not.\<close>

definition roleCount :: "string \<Rightarrow> Config \<Rightarrow> nat" where
  "roleCount role config =
     (if c_Name config \<noteq> role then 0
      else if role = ''default'' then nat (c_Count config) - 1 else nat (c_Count config))"

definition members :: "Unit \<Rightarrow> string \<Rightarrow> nat" where
  "members unit role = sum_list (map (roleCount role) (u_Config unit))"

definition k8sPlan :: "Unit \<Rightarrow> site list" where
  "k8sPlan unit =
     (if u_Kind unit = ''k8s'' then
        [SK8sPrime, SKubeConfig] @ replicate (members unit ''default'') SK8sAdmin @
        replicate (members unit ''agent'') SK8sWorker
      else [])"

definition helmfilePlan :: "string \<Rightarrow> site list" where
  "helmfilePlan hf =
     (if hf = ''ai'' then [SAiHack] else if hf = ''nexus'' then [SNexusHack] else []) @ [SHelmfile] @
     (if hf = ''kube-vip'' then [SKubeVipConfig] else [])"

definition onlinePlan :: "env \<Rightarrow> Unit \<Rightarrow> site list" where
  "onlinePlan env unit =
     (if u_Online unit \<and> u_Name unit = ''upstream'' \<and> e_getenv env ''NOHELMFILE'' = ''''
      then concat (map helmfilePlan (u_Helmfiles unit)) else [])"

definition unitPlan :: "env \<Rightarrow> Unit \<Rightarrow> CachedFile list \<Rightarrow> site list" where
  "unitPlan env unit inputs =
     concat (map (configPlan unit inputs) (u_Config unit)) @ k8sPlan unit @ onlinePlan env unit"

section \<open>Call sites as entries\<close>

definition siteLog :: "world \<Rightarrow> site list" where
  "siteLog w = map r_site (nodes w)"

abbreviation planned :: "site \<Rightarrow> bool" where
  "planned st \<equiv> st \<noteq> SSshConfig \<and> st \<noteq> SUniverseRm"

abbreviation builds :: "site list \<Rightarrow> 'a io \<Rightarrow> bool" where
  "builds \<equiv> leaves siteLog planned"

lemma quiet_nodes: "within sameNodes m \<Longrightarrow> within (seen siteLog F []) m"
  by (auto simp: within_def sameNodes_def seen_def siteLog_def)

lemma builds_new: "planned (r_site r) \<Longrightarrow> builds [r_site r] (newResource env r)"
  by (auto simp: leaves_def wp_def newResource_run seen_def siteLog_def split: option.split)

lemma builds_one: "r_site r = st \<Longrightarrow> planned st \<Longrightarrow> builds [st] (newResource env r)"
  using builds_new by blast

lemma builds_component: "planned st \<Longrightarrow> builds [st] (registerComponent env st ty nm)"
  using builds_new [of "res st nm [(''type'', str ty)] []"]
  unfolding registerComponent_def
  by (intro does_next [where plan = "[]"] does_silent) (auto intro!: silent_frame)

lemma builds_quiet: "within sameNodes m \<Longrightarrow> (\<And>a. builds plan (k a)) \<Longrightarrow> builds plan (bindG m k)"
  by (rule does_skip [OF quiet_nodes])

lemma builds_return: "builds [] (returnG a)"
  by (rule does_silent) (rule silent_frame)

lemma builds_next: "r_site r = st \<Longrightarrow> planned st \<Longrightarrow> (\<And>i. builds plan (k i)) \<Longrightarrow>
   builds (st # plan) (bindG (newResource env r) k)"
  using does_next [OF builds_new] by blast

text \<open>A dropped error that becomes a nil dereference.\<close>

lemma builds_or_panic:
  assumes "r_site r = st" and "planned st"
  shows "builds [st] (bindG (tryG (newResource env r)) (\<lambda>d.
     case d of Inl _ \<Rightarrow> panicG p | Inr i \<Rightarrow> returnG (f i)))"
  using assms
  by (auto simp: leaves_def wp_def bindG_def tryG_def newResource_run panicG_def returnG_def seen_def siteLog_def
      split: option.split)

text \<open>Loops: one plan per element, and the facts a result carries on.\<close>

lemma builds_for:
  assumes "\<And>x b. x \<in> set xs \<Longrightarrow> builds (plan x) (f x b)"
  shows "builds (concat (map plan xs)) (forG xs f b)"
  using assms
proof (induction xs arbitrary: b)
  case Nil
  then show ?case by (simp add: builds_return)
next
  case (Cons x xs)
  have "builds (plan x @ concat (map plan xs)) (bindG (f x b) (forG xs f))"
    using Cons by (intro does_bind) simp_all
  then show ?case by simp
qed

lemma builds_bind_wp:
  assumes "builds xs m" and "\<And>s. wp m (\<lambda>a _. A a) (\<lambda>_. True) s" and "\<And>a. A a \<Longrightarrow> builds ys (k a)"
  shows "builds (xs @ ys) (bindG m k)"
proof -
  have "builds ys (if A a then k a else panicG [])" for a using assms(3) by (auto intro: does_stop)
  then show ?thesis by (subst bindG_only [OF assms(2)]) (rule does_bind [OF assms(1)])
qed

section \<open>The vms\<close>

lemma builds_vmDomain:
  "builds [SDisk, SCloudinit, SDomain] (vmDomain env state unit config shared key netconfig b idx)"
  unfolding vmDomain_def Let_def
  apply (rule builds_quiet, intro nodes_frame)+
  apply (rule builds_next, simp, simp)
  apply (rule builds_quiet, rule astore.reg_nodes)+
  apply (rule builds_quiet, intro nodes_frame)
  apply (rule builds_quiet, intro nodes_frame)
  apply (rule builds_quiet, intro nodes_frame)
  apply (rule builds_quiet, intro nodes_frame)
  apply (rule builds_next, simp, simp)
  apply (rule builds_or_panic, simp, simp)
  done

lemma builds_vmRemote:
  "builds [SSshCheck, SCopyRemote, SInitCheck, SMotd] (vmRemote env state key h d)"
  unfolding vmRemote_def
  apply (rule builds_next, simp, simp)
  apply (rule builds_quiet, rule astore.reg_nodes)
  apply (rule builds_next, simp, simp)
  apply (rule builds_next, simp, simp)
  apply (rule builds_next, simp, simp)
  apply (rule builds_return)
  done

lemma builds_vmOnline:
  "builds (if u_Online unit then [SZypper, SIscsi] else []) (vmOnline env unit key h d us)"
  unfolding vmOnline_def
  by (auto intro!: builds_next builds_return)

lemma builds_vmLogs: "builds [SVmComponent, SLogCopy, SLogCopy] (vmLogs env state key h d ds)"
proof -
  have step: "builds [SLogCopy] (let remoteLog = pathJoin [''/var/log'', log] in
       bindG (registerArtifact env state (h @ ''/cloudinit/'' @ log)) (\<lambda>localLog.
       bindG (newResource env (localCommand SLogCopy (h @ '' copy '' @ log)
                [Lit (sshRoot key), ip4Of (Some d),
                 Lit ('' '' @ sq @ ''cat '' @ remoteLog @ sq @ '' > '' @ localLog)] ds)) (\<lambda>_.
       returnG ())))" for log
    unfolding Let_def
    by (rule builds_quiet, rule astore.reg_nodes, rule builds_next, simp, simp, rule builds_return)
  have "builds ([SVmComponent] @ concat (map (\<lambda>_. [SLogCopy]) ciLogFiles)) (vmLogs env state key h d ds)"
    unfolding vmLogs_def by (intro does_bind builds_component builds_for step) simp
  then show ?thesis by (simp add: ciLogFiles_def)
qed

lemma builds_vmInputs:
  "builds (concat (map (\<lambda>f. if rf_Dest (cf_Remote f) \<noteq> '''' then [SCopyInput, SInstallFile] else []) inputs))
     (vmInputs env state key d inputs fs)"
  unfolding vmInputs_def
proof (rule builds_for)
  fix f fs
  show "builds (if rf_Dest (cf_Remote f) \<noteq> '''' then [SCopyInput, SInstallFile] else [])
      (vmInput env state key d f fs)"
    unfolding vmInput_def Let_def
    apply (cases "rf_Dest (cf_Remote f) = ''''")
     apply (simp add: builds_return)
    apply (simp only: not_False_eq_True if_True)
    apply (rule builds_quiet, intro nodes_frame)
    apply (rule builds_next, simp, simp)
    apply (rule builds_next, simp, simp)
    apply (rule builds_return)
    done
qed

lemma builds_setupVm:
  "builds (vmPlan unit inputs) (setupVmV env state unit config shared key inputs netconfig b idx us)"
proof -
  have plan: "vmPlan unit inputs = [SDisk, SCloudinit, SDomain] @ [SSshCheck, SCopyRemote, SInitCheck, SMotd] @
     (if u_Online unit then [SZypper, SIscsi] else []) @ [SVmComponent, SLogCopy, SLogCopy] @
     concat (map (\<lambda>f. if rf_Dest (cf_Remote f) \<noteq> '''' then [SCopyInput, SInstallFile] else []) inputs) @ []"
    by (simp add: vmPlan_def)
  show ?thesis
    unfolding setupVmV_def Let_def plan
    apply (rule does_bind, rule builds_vmDomain, clarsimp simp only: split_paired_all prod.case)
    apply (rule does_bind, rule builds_vmRemote, clarsimp simp only: split_paired_all prod.case)
    apply (rule does_bind, rule builds_vmOnline)
    apply (rule does_bind, rule builds_vmLogs)
    apply (rule does_bind, rule builds_vmInputs)
    apply (rule builds_return)
    done
qed

lemma builds_setupConfig:
  "builds (configPlan unit inputs config) (setupConfigV env state unit shared key inputs netconfig config us)"
proof -
  have c: "builds [SBaseVolume] (configSetup env state unit config shared)"
    unfolding configSetup_def Let_def
    apply (rule builds_quiet, intro nodes_frame)+
    apply (rule builds_one, simp, simp)
    done
  have "concat (map (\<lambda>_. vmPlan unit inputs) [0..<nat (c_Count config)]) =
      concat (replicate (nat (c_Count config)) (vmPlan unit inputs))"
    by (simp add: map_replicate_const)
  then have plan: "configPlan unit inputs config =
      [SBaseVolume] @ concat (map (\<lambda>_. vmPlan unit inputs) [0..<nat (c_Count config)])"
    by (simp add: configPlan_def)
  show ?thesis
    unfolding setupConfigV_def plan by (intro does_bind c builds_for builds_setupVm)
qed

lemma builds_setupVms:
  "builds (concat (map (configPlan unit inputs) (u_Config unit))) (setupVmsV env state unit shared key inputs netconfig)"
  unfolding setupVmsV_def by (intro builds_for builds_setupConfig)

section \<open>Who is filed under which role\<close>

lemma wp_vmOnline_map:
  "wp (vmOnline env unit key h d us) (\<lambda>us' _. us_unitMap us' = us_unitMap us) (\<lambda>_. True) s"
  unfolding vmOnline_def by (intro wp_if wp_bind wp_anyway wp_return) simp_all

lemma vmBook_map:
  "us_unitMap (vmBookV config idx h d m us) =
     (if c_Name config = ''default'' \<and> idx = 0 then us_unitMap us
      else (us_unitMap us)(c_Name config := us_unitMap us (c_Name config) @
        [\<lparr>ud_Host = h, ud_Domain = Some d, ud_Resource = Some m\<rparr>]))"
  by (simp add: vmBookV_def vmBook_def Let_def)

lemma wp_setupVm_map:
  "wp (setupVmV env state unit config shared key inputs netconfig b idx us)
     (\<lambda>us' _. length (us_unitMap us' role) = length (us_unitMap us role) +
        (if c_Name config = role \<and> \<not> (role = ''default'' \<and> idx = 0) then 1 else 0)) (\<lambda>_. True) s"
  unfolding setupVmV_def Let_def
  apply (rule wp_bind, rule wp_anyway, clarsimp simp only: split_paired_all prod.case)
  apply (rule wp_bind, rule wp_anyway, clarsimp simp only: split_paired_all prod.case)
  apply (rule wp_bind, rule wp_weaken [OF wp_vmOnline_map])
   apply (rule wp_bind, rule wp_anyway)
   apply (rule wp_bind, rule wp_anyway)
   apply (rule wp_return)
   apply (auto simp: vmBook_map)
  done

lemma roleCount_upt:
  "(\<Sum>idx\<leftarrow>[0..<n]. if c_Name config = role \<and> \<not> (role = ''default'' \<and> idx = 0) then 1 else 0) =
     (if c_Name config \<noteq> role then 0 else if role = ''default'' then n - 1 else n)"
  by (induction n) auto

lemma wp_setupConfig_map:
  "wp (setupConfigV env state unit shared key inputs netconfig config us)
     (\<lambda>us' _. length (us_unitMap us' role) = length (us_unitMap us role) + roleCount role config) (\<lambda>_. True) s"
proof -
  have "wp (forG [0..<nat (c_Count config)] (\<lambda>idx us. setupVmV env state unit config shared key inputs netconfig b idx us) us)
      (\<lambda>us' _. length (us_unitMap us' role) = length (us_unitMap us role) + (\<Sum>idx\<leftarrow>[0..<nat (c_Count config)].
        if c_Name config = role \<and> \<not> (role = ''default'' \<and> idx = 0) then 1 else 0)) (\<lambda>_. True) t" for b and t :: world
    by (rule wp_count_for [where sz = "\<lambda>us. length (us_unitMap us role)"]) (rule wp_setupVm_map)
  then show ?thesis
    unfolding setupConfigV_def roleCount_upt roleCount_def by (rule wp_bind [OF wp_anyway])
qed

lemma wp_setupVms_map:
  "wp (setupVmsV env state unit shared key inputs netconfig)
     (\<lambda>us _. length (us_unitMap us role) = members unit role) (\<lambda>_. True) s"
proof -
  have "wp (setupVmsV env state unit shared key inputs netconfig)
     (\<lambda>us _. length (us_unitMap us role) = length (us_unitMap startState role) + sum_list (map (roleCount role) (u_Config unit)))
     (\<lambda>_. True) s"
    unfolding setupVmsV_def
    by (rule wp_count_for [where sz = "\<lambda>us. length (us_unitMap us role)"]) (rule wp_setupConfig_map)
  then show ?thesis by (simp add: members_def startState_def)
qed

section \<open>The cluster and the helmfiles\<close>

lemma builds_all:
  assumes "\<And>x. r_site (f x) = st" and "planned st"
  shows "builds (replicate (length xs) st) (forG xs (\<lambda>x ids. bindG (newResource env (f x)) (\<lambda>i. returnG (ids @ [i]))) ids)"
proof -
  have "builds (concat (map (\<lambda>_. [st]) xs))
      (forG xs (\<lambda>x ids. bindG (newResource env (f x)) (\<lambda>i. returnG (ids @ [i]))) ids)"
    using assms by (intro builds_for builds_next builds_return)
  moreover have "concat (map (\<lambda>_. [st]) xs) = replicate (length xs) st" by (induction xs) simp_all
  ultimately show ?thesis by simp
qed

lemma builds_unitK8s:
  assumes "length (us_unitMap us ''default'') = members unit ''default''"
    and "length (us_unitMap us ''agent'') = members unit ''agent''"
  shows "builds (k8sPlan unit) (unitK8sV lost env state unit key netconfig us)"
proof (cases "u_Kind unit = ''k8s''")
  case False
  then show ?thesis by (simp add: k8sPlan_def unitK8sV_def Let_def builds_return)
next
  case True
  have plan: "k8sPlan unit = SK8sPrime # SKubeConfig # replicate (length (us_unitMap us ''default'')) SK8sAdmin @
      replicate (length (us_unitMap us ''agent'')) SK8sWorker @ []"
    by (simp add: k8sPlan_def True assms)
  show ?thesis
    unfolding plan unitK8sV_def Let_def if_P [OF True]
    apply (rule builds_quiet, intro nodes_frame)
    apply (rule builds_next, simp, simp)
    apply (rule builds_quiet, rule astore.reg_nodes)
    apply (rule builds_next, simp, simp)
    apply (rule builds_quiet, intro nodes_frame)
    apply (rule does_bind, rule builds_all, simp, simp)
    apply (rule does_bind, rule builds_all, simp, simp)
    apply (rule builds_return)
    done
qed

lemma builds_unitSshConfig: "builds [] (unitSshConfig env state unit key us)"
proof -
  have new: "within (seen siteLog planned []) (newResource env r)" if "r_site r = SSshConfig" for r
    using that by (auto simp: within_def newResource_run seen_def siteLog_def split: option.split)
  show ?thesis
    unfolding unitSshConfig_def Let_def
    apply (rule builds_quiet, rule astore.reg_nodes)
    apply (rule does_skip, rule silence.within_try, rule new, simp)
    apply (rule does_silent, rule quiet_nodes, intro nodes_frame)
    done
qed

lemma builds_unitHelmfile:
  "builds (helmfilePlan hf) (unitHelmfileV env state unit key netconfig ds kc hf us)"
  unfolding unitHelmfileV_def helmfilePlan_def Let_def
  apply (rule does_bind)
   apply (auto intro!: builds_next builds_return)[1]
  apply (simp only: append_Cons append_Nil)
  apply (rule builds_next, simp, simp)
  apply (cases "hf = ''kube-vip''")
   apply (simp only: if_True simp_thms)
   apply (rule builds_quiet, rule astore.reg_nodes)
   apply (rule builds_quiet, intro nodes_frame)
   apply (rule builds_next, simp, simp, rule builds_return)
  apply (simp add: builds_return)
  done

lemma builds_unitOnline: "builds (onlinePlan env unit) (unitOnlineV env state unit key netconfig ds us)"
proof (cases "u_Online unit \<and> u_Name unit = ''upstream'' \<and> e_getenv env ''NOHELMFILE'' = ''''")
  case True
  then show ?thesis
    unfolding unitOnlineV_def onlinePlan_def Let_def
    by (auto intro!: builds_quiet astore.reg_nodes builds_for builds_unitHelmfile)
next
  case False
  then show ?thesis
    unfolding unitOnlineV_def onlinePlan_def Let_def
    by (auto intro!: builds_quiet astore.reg_nodes builds_return)
qed

lemma builds_libvirtUnit:
  "builds (unitPlan env unit inputs) (libvirtUnit env state unit shared key inputs netconfig)"
proof -
  have rest: "builds ([] @ k8sPlan unit @ onlinePlan env unit @ []) (bindG (unitSshConfig env state unit key us) (\<lambda>_.
     bindG (unitK8sV (slicesClash env unit inputs) env state unit key netconfig us) (\<lambda>(us, k8sDepends).
     bindG (unitOnlineV env state unit key netconfig k8sDepends us) (\<lambda>_. returnG ()))))"
    if "length (us_unitMap us ''default'') = members unit ''default'' \<and>
      length (us_unitMap us ''agent'') = members unit ''agent''" for us
    apply (rule does_bind, rule builds_unitSshConfig)
    apply (rule does_bind, rule builds_unitK8s)
      apply (use that in simp_all)[2]
    apply (clarsimp simp only: split_paired_all prod.case)
    apply (rule does_bind, rule builds_unitOnline, rule builds_return)
    done
  have count: "wp (setupVmsV env state unit shared key inputs netconfig)
     (\<lambda>us _. length (us_unitMap us ''default'') = members unit ''default'' \<and>
      length (us_unitMap us ''agent'') = members unit ''agent'') (\<lambda>_. True) s" for s
    using wp_setupVms_map [of env state unit shared key inputs netconfig "''default''" s]
      wp_setupVms_map [of env state unit shared key inputs netconfig "''agent''" s]
    by (auto simp: wp_def split: prod.splits outcome.splits)
  from builds_bind_wp [OF builds_setupVms count rest] show ?thesis
    unfolding libvirtUnit_values libvirtUnitV_def unitPlan_def by simp
qed

section \<open>Properties\<close>

text \<open>
  C6: deploying a unit registers what its configuration asks for and nothing else: per
  configuration a base image and \<open>Count\<close> vms, each with its disk, checks, packages, logs and
  input files; for a cluster the prime installation, the kubeconfig and one installation per
  further control-plane node and per agent; and for an online upstream unit its helmfiles. A
  normal return has registered exactly this plan, in order, and any other ending an initial
  part of it.
\<close>

theorem libvirtUnit_refines_plan:
  assumes "libvirtUnit env state unit shared key inputs netconfig s = (r, t)"
  shows "\<exists>xs. seen siteLog planned xs s t \<and> prefix xs (unitPlan env unit inputs) \<and>
    (r = Ok () \<longrightarrow> xs = unitPlan env unit inputs)"
  using leavesD [OF builds_libvirtUnit assms] by auto

lemma sampleRun_Ok: "fst sampleRun = Ok ()"
  unfolding sampleRun_def sample_values
  by (simp add: unit_run unitSshConfig_def sampleHelmUnit_def Let_def calm_run indexG_def sampleNet_def startState_def
      calmEnv_def [THEN arg_cong [where f = e_getenv]] cong: bindG_cong)

theorem libvirtUnit_refines_plan_witness:
  "seen siteLog planned [SK8sPrime, SKubeConfig, SAiHack, SHelmfile, SHelmfile, SKubeVipConfig]
     emptyWorld (snd sampleRun)"
proof -
  have "sampleRun = (Ok (), snd sampleRun)" by (metis sampleRun_Ok prod.collapse)
  then have run: "libvirtUnit calmEnv (stateFor calmEnv ''/b'' ''U'') sampleHelmUnit sampleShared sampleKey []
     sampleNet emptyWorld = (Ok (), snd sampleRun)" by (simp add: sampleRun_def)
  have plan: "unitPlan calmEnv sampleHelmUnit [] =
      [SK8sPrime, SKubeConfig, SAiHack, SHelmfile, SHelmfile, SKubeVipConfig]"
    by (simp add: unitPlan_def k8sPlan_def onlinePlan_def helmfilePlan_def members_def sampleHelmUnit_def calmEnv_def)
  from libvirtUnit_refines_plan [OF run] show ?thesis unfolding plan by auto
qed

end
