(* ===== verification/Universe.thy ===== *)
theory Universe
  imports Libvirt_Unit
begin

text \<open>
  \<open>src/pkg/universe/universe.go\<close>: \<open>NewUniverse\<close>, the whole deployment. The stack configuration
  (Pulumi's \<open>config\<close>) is the record \<open>stackConfig\<close>; a missing object is \<open>None\<close>, and
  \<open>RequireObject\<close> then panics. \<open>units.RAMInBytes\<close> and the cidr library are parameters. The
  signal handler is in \<open>Filecache_Signals\<close>; \<open>hackMap\<close> is written and never read, and is left out.
\<close>

section \<open>Configuration and result\<close>

record stackConfig =
  sc_uuid :: "string option"
  sc_inputs :: "CachedFile list option"
  sc_units :: "UserUnit list option"
  sc_network :: "UserNetwork option"

record 'c Universe =
  uv_State :: State
  uv_Inputs :: "CachedFile list"
  uv_Units :: "Unit list"
  uv_Network :: "'c Network"
  uv_Ssh :: SshData

definition requireObject :: "'a option \<Rightarrow> 'a io" where
  "requireObject o' = (case o' of None \<Rightarrow> panicG ''missing required configuration variable'' | Some a \<Rightarrow> returnG a)"

text \<open>A Go function that returns its result and its error.\<close>

definition orFail :: "'a \<times> goerr option \<Rightarrow> 'a io" where
  "orFail r = (case snd r of None \<Rightarrow> returnG (fst r) | Some e \<Rightarrow> failG e)"

section \<open>NewUniverse\<close>

definition convertUnits :: "(string \<Rightarrow> goerr + int) \<Rightarrow> UserUnit list \<Rightarrow> Unit list io" where
  "convertUnits ram userunits =
     forG userunits (\<lambda>uu units. bindG (orFail (toUnit ram uu)) (\<lambda>u. returnG (units @ [u]))) []"

definition cacheInputs :: "env \<Rightarrow> CachedFile list \<Rightarrow> unit io" where
  "cacheInputs env inputs = forG inputs (\<lambda>can _. cacheInput env can) ()"

text \<open>Building the program for the vms; the error of registering its place is dropped.\<close>

definition buildRemote :: "env \<Rightarrow> State \<Rightarrow> unit io" where
  "buildRemote env state =
     bindG (tryG (registerArtifact env state ''bin/remote'')) (\<lambda>r.
     let remoteFile = (case r of Inl _ \<Rightarrow> '''' | Inr f \<Rightarrow> f) in
     osExec env ''go''
       [''build'', ''-ldflags=-extldflags -static -s -w -X main.Main=remote'', ''-o'', remoteFile]
       [''CGO_ENABLED=0'', ''GOARCH=amd64'', ''GOOS=linux''])"

text \<open>The loop over the units: only those that come after nothing.\<close>

definition provisionUnits ::
  "env \<Rightarrow> State \<Rightarrow> LibvirtShared \<Rightarrow> SshData \<Rightarrow> CachedFile list \<Rightarrow> 'c Network \<Rightarrow> Unit list \<Rightarrow> unit io" where
  "provisionUnits env state shared key inputs netconfig units =
     forG units (\<lambda>u _.
       if length (u_After u) = 0 then libvirtUnit env state u shared key inputs netconfig
       else returnG ()) ()"

definition newUniverse ::
  "env \<Rightarrow> (string \<Rightarrow> goerr + int) \<Rightarrow> 'c cidr_lib \<Rightarrow> stackConfig \<Rightarrow> string \<Rightarrow> 'c Universe io" where
  "newUniverse env ram cl cfg stack =
     bindG (newState env '''' (case sc_uuid cfg of None \<Rightarrow> '''' | Some u \<Rightarrow> u)) (\<lambda>gstate.
     bindG (ctxExport ''name'' [Lit stack]) (\<lambda>_.
     bindG (ctxExport ''base'' [Lit (st_base gstate)]) (\<lambda>_.
     bindG (tryG (newResource env (res SUniverseRm (st_suuid gstate)
              [(''delete'', str (''rm -fr '' @ st_base gstate))] []))) (\<lambda>_.
     bindG (requireObject (sc_inputs cfg)) (\<lambda>inputs.
     bindG (requireObject (sc_units cfg)) (\<lambda>userunits.
     bindG (convertUnits ram userunits) (\<lambda>units.
     bindG (requireObject (sc_network cfg)) (\<lambda>usernetwork.
     bindG (orFail (toNetwork cl usernetwork)) (\<lambda>un.
     bindG (cacheInputs env inputs) (\<lambda>_.
     bindG (newSsh env gstate ''default'') (\<lambda>sshKey.
     bindG (buildRemote env gstate) (\<lambda>_.
     bindG (setupShared env gstate un) (\<lambda>shared.
     bindG (provisionUnits env gstate shared sshKey inputs un units) (\<lambda>_.
     bindG (registerComponent env SUniverseComponent ''shenanigans:universe:Universe'' stack) (\<lambda>_.
     returnG \<lparr>uv_State = gstate, uv_Inputs = inputs, uv_Units = units, uv_Network = un,
              uv_Ssh = sshKey\<rparr>)))))))))))))))"

section \<open>Facts\<close>

lemma universe_frames [nodes_frame]:
  "within sameNodes (requireObject r)" "within sameNodes (orFail p)" "within sameNodes (convertUnits ram uus)"
  "within sameNodes (cacheInputs env inputs)" "within sameNodes (buildRemote env state)"
proof -
  show r: "within sameNodes (requireObject r)" for r :: "'x option"
    by (auto simp: requireObject_def intro!: nodes_frame split: option.split)
  show p: "within sameNodes (orFail p)" for p :: "'y \<times> goerr option"
    by (auto simp: orFail_def intro!: nodes_frame split: option.split)
  show "within sameNodes (convertUnits ram uus)"
    unfolding convertUnits_def by (intro nodes_frame p)
  show "within sameNodes (cacheInputs env inputs)"
    unfolding cacheInputs_def by (intro nodes_frame)
  show "within sameNodes (buildRemote env state)"
    unfolding buildRemote_def Let_def by (intro nodes_frame)
qed

section \<open>A configuration\<close>

definition sampleCidr :: "unit cidr_lib" where
  "sampleCidr = \<lparr>cl_Parse = (\<lambda>_. Inr ()), cl_IPRange = (\<lambda>_. ([10, 0, 0, 0], [10, 0, 0, 255])), cl_IPDecr = (\<lambda>ip. ip)\<rparr>"

definition sampleConfig :: stackConfig where
  "sampleConfig =
     \<lparr>sc_uuid = None, sc_inputs = Some [sampleInput ''00''], sc_units = Some [],
      sc_network = Some \<lparr>un_Method = '''', un_Cidr = ''10.0.0.0/24'', un_Domain = ''d'',
        un_Hosts = [\<lparr>sh_Name = ''vip'', sh_Ip = ''auto''\<rparr>], un_Libvirt = ''''\<rparr>\<rparr>"

end
