(* ===== verification/Universe_Plan.thy ===== *)
theory Universe_Plan
  imports Universe Libvirt_Plan
begin

text \<open>
  The plan of a whole deployment, from the stack configuration: the key pair, the shared
  resources, the plan of every unit that comes after nothing, and the universe itself.
\<close>

definition universePlan :: "env \<Rightarrow> CachedFile list \<Rightarrow> Unit list \<Rightarrow> site list" where
  "universePlan env inputs units =
     [SSshComponent, SProvider, SNetwork, SCloudinitPool, SVmPool] @
     concat (map (\<lambda>u. if u_After u = [] then unitPlan env u inputs else []) units) @ [SUniverseComponent]"

lemma builds_newSsh: "builds [SSshComponent] (newSsh env state nm)"
  unfolding newSsh_def Let_def
  apply (rule builds_quiet, rule astore.reg_nodes)+
  apply (rule builds_quiet, rule setupSshCa_frames)
  apply (rule does_next, rule builds_component, simp, rule builds_return)
  done

lemma builds_setupShared: "builds [SProvider, SNetwork, SCloudinitPool, SVmPool] (setupShared env state netconfig)"
proof -
  have dns: "within sameNodes (dnsHosts hs)" for hs
    unfolding dnsHosts_def Let_def by (intro nodes_frame)
  show ?thesis
    unfolding setupShared_def
    apply (rule builds_next, simp, simp)
    apply (rule builds_quiet, intro nodes_frame)
    apply (rule builds_quiet, intro nodes_frame)
    apply (rule builds_quiet, intro nodes_frame)
    apply (rule builds_quiet, rule dns)
    apply (rule builds_next, simp add: networkResource_def, simp)
    apply (rule builds_next, simp add: poolResource_def, simp)
    apply (rule builds_next, simp add: poolResource_def, simp)
    apply (rule builds_return)
    done
qed

lemma builds_provisionUnits:
  "builds (concat (map (\<lambda>u. if u_After u = [] then unitPlan env u inputs else []) units))
     (provisionUnits env state shared key inputs netconfig units)"
  unfolding provisionUnits_def
  by (rule builds_for) (auto intro: builds_libvirtUnit builds_return)

section \<open>What the configuration gives\<close>

lemma wp_requireObject: "wp (requireObject x) (\<lambda>a _. x = Some a) (\<lambda>_. True) s"
  by (cases x) (simp_all add: requireObject_def wp_return wp_panic)

lemma convertUnits_result:
  "wp (convertUnits ram uus) (\<lambda>us _. map (toUnit ram) uus = map (\<lambda>u. (u, None)) us) (\<lambda>_. True) s"
proof -
  have step: "wp (bindG (orFail (toUnit ram uu)) (\<lambda>u. returnG (us @ [u])))
      (\<lambda>us' _. \<exists>u. us' = us @ [u] \<and> toUnit ram uu = (u, None)) (\<lambda>_. True) t" for uu us and t :: world
    by (cases "toUnit ram uu"; cases "snd (toUnit ram uu)")
      (auto simp: orFail_def intro!: wp_bind wp_return wp_fail)
  show ?thesis
    unfolding convertUnits_def
  proof (rule wp_for [where I = "\<lambda>done us _. map (toUnit ram) done = map (\<lambda>u. (u, None)) us"])
    fix ds uu rest us and t :: world
    assume "map (toUnit ram) ds = map (\<lambda>u. (u, None)) us"
    then show "wp (bindG (orFail (toUnit ram uu)) (\<lambda>u. returnG (us @ [u])))
        (\<lambda>us' _. map (toUnit ram) (ds @ [uu]) = map (\<lambda>u. (u, None)) us') (\<lambda>_. True) t"
      by (intro wp_weaken [OF step]) auto
  qed simp_all
qed

lemma builds_newUniverse:
  assumes "sc_inputs cfg = Some inputs" and "sc_units cfg = Some uus"
    and "map (toUnit ram) uus = map (\<lambda>u. (u, None)) units"
  shows "builds (universePlan env inputs units) (newUniverse env ram cl cfg stack)"
proof -
  let ?us = "concat (map (\<lambda>u. if u_After u = [] then unitPlan env u inputs else []) units)"
  have units: "us = units" if "map (toUnit ram) uus = map (\<lambda>u. (u, None)) us" for us
  proof -
    have "map fst (map (\<lambda>u. (u, None :: goerr option)) us) = map fst (map (\<lambda>u. (u, None :: goerr option)) units)"
      using assms(3) that by simp
    then show ?thesis by (simp add: comp_def)
  qed
  have prov: "builds ?us (provisionUnits env gs shared key inps net us)"
    if "sc_inputs cfg = Some inps" "sc_units cfg = Some uus'" "map (toUnit ram) uus' = map (\<lambda>u. (u, None)) us"
    for gs shared key inps net us uus'
  proof -
    have "inps = inputs" "uus' = uus" using that(1,2) assms(1,2) by simp_all
    then have "us = units" using that(3) by (intro units) simp
    then show ?thesis using \<open>inps = inputs\<close> by (simp only: builds_provisionUnits)
  qed
  have rm: "within (seen siteLog planned []) (tryG (newResource env r))" if "r_site r = SUniverseRm" for r
    using that by (auto simp: within_def tryG_def newResource_run seen_def siteLog_def split: option.split)
  have quiet: "builds [] m" if "within sameNodes m" for m :: "'z io"
    by (rule does_silent, rule quiet_nodes, rule that)
  have plan: "universePlan env inputs units = [] @ ([] @ ([] @ ([SSshComponent] @
      [SProvider, SNetwork, SCloudinitPool, SVmPool] @ ?us @ [SUniverseComponent] @ [])))"
    by (simp add: universePlan_def)
  show ?thesis
    unfolding newUniverse_def plan
    apply (rule builds_quiet, intro nodes_frame)
    apply (rule builds_quiet, intro nodes_frame)
    apply (rule builds_quiet, intro nodes_frame)
    apply (rule does_skip, rule rm, simp)
    apply (rule builds_bind_wp [OF quiet wp_requireObject], rule universe_frames)
    apply (rule builds_bind_wp [OF quiet wp_requireObject], rule universe_frames)
    apply (rule builds_bind_wp [OF quiet convertUnits_result], rule universe_frames)
    apply (rule builds_quiet, rule universe_frames)
    apply (rule builds_quiet, rule universe_frames)
    apply (rule builds_quiet, rule universe_frames)
    apply (rule does_bind, rule builds_newSsh)
    apply (rule builds_quiet, rule universe_frames)
    apply (rule does_bind, rule builds_setupShared)
    apply (rule does_bind)
     apply (rule prov, assumption, assumption, assumption)
    apply (rule does_bind, rule builds_component, simp, rule builds_return)
    done
qed

section \<open>Properties\<close>

text \<open>
  C1: the whole program registers what the stack configuration asks for and nothing else: a
  normal return has registered exactly the plan of the configuration, in order, and any other
  ending an initial part of it.
\<close>

theorem newUniverse_refines_plan:
  assumes "newUniverse env ram cl cfg stack s = (r, t)"
    and "sc_inputs cfg = Some inputs" and "sc_units cfg = Some uus"
    and "map (toUnit ram) uus = map (\<lambda>u. (u, None)) units"
  shows "\<exists>xs. seen siteLog planned xs s t \<and> prefix xs (universePlan env inputs units) \<and>
    ((\<exists>u. r = Ok u) \<longrightarrow> xs = universePlan env inputs units)"
  using leavesD [OF builds_newUniverse [OF assms(2-4)] assms(1)] by auto

definition planConfig :: stackConfig where
  "planConfig =
     \<lparr>sc_uuid = None, sc_inputs = Some [],
      sc_units = Some [
        \<lparr>uu_After = [], uu_Config = [\<lparr>uc_Count = 2, uc_Cpu = 2, uc_Disksize = ''1'', uc_Memory = ''1'',
           uc_Name = ''default'', uc_Qcow2 = ''q''\<rparr>], uu_Kind = ''k8s'', uu_Name = ''n'', uu_Online = False,
         uu_Helmfiles = []\<rparr>,
        \<lparr>uu_After = [''n''], uu_Config = [], uu_Kind = ''k8s'', uu_Name = ''m'', uu_Online = False,
         uu_Helmfiles = []\<rparr>],
      sc_network = Some \<lparr>un_Method = '''', un_Cidr = ''10.0.0.0/24'', un_Domain = ''d'',
        un_Hosts = [\<lparr>sh_Name = ''vip'', sh_Ip = ''auto''\<rparr>], un_Libvirt = ''''\<rparr>\<rparr>"

theorem newUniverse_refines_plan_witness:
  "let vm = [SDisk, SCloudinit, SDomain, SSshCheck, SCopyRemote, SInitCheck, SMotd, SVmComponent, SLogCopy, SLogCopy]
   in \<exists>xs. seen siteLog planned xs emptyWorld
        (snd (newUniverse calmEnv sampleRam sampleCidr planConfig ''dev'' emptyWorld)) \<and>
      prefix xs ([SSshComponent, SProvider, SNetwork, SCloudinitPool, SVmPool, SBaseVolume] @ vm @ vm @
        [SK8sPrime, SKubeConfig, SK8sAdmin, SUniverseComponent])"
proof -
  let ?c = "\<lparr>c_Count = 2, c_Cpu = 2, c_Disksize = 1, c_Memory = 1, c_Name = ''default'', c_Qcow2 = ''q''\<rparr>"
  let ?n = "\<lparr>u_After = [], u_Config = [?c], u_Kind = ''k8s'', u_Name = ''n'', u_Online = False, u_Helmfiles = []\<rparr>"
  let ?m = "\<lparr>u_After = [''n''], u_Config = [], u_Kind = ''k8s'', u_Name = ''m'', u_Online = False, u_Helmfiles = []\<rparr>"
  have units: "map (toUnit sampleRam) (the (sc_units planConfig)) = map (\<lambda>u. (u, None)) [?n, ?m]"
    by code_simp
  have plan: "universePlan calmEnv [] [?n, ?m] =
      (let vm = [SDisk, SCloudinit, SDomain, SSshCheck, SCopyRemote, SInitCheck, SMotd, SVmComponent, SLogCopy, SLogCopy]
       in [SSshComponent, SProvider, SNetwork, SCloudinitPool, SVmPool, SBaseVolume] @ vm @ vm @
          [SK8sPrime, SKubeConfig, SK8sAdmin, SUniverseComponent])"
    by code_simp
  have conf: "sc_inputs planConfig = Some []" "sc_units planConfig = Some (the (sc_units planConfig))"
    by (simp_all add: planConfig_def)
  from newUniverse_refines_plan [where s = emptyWorld, OF surjective_pairing conf units, where env = calmEnv and cl = sampleCidr and stack = "''dev''"]
  show ?thesis unfolding plan Let_def by blast
qed

end
