(* ===== verification/Graph_Types.thy ===== *)
theory Graph_Types
  imports Engine
begin

text \<open>
  The types of the deployment graph. Every resource comes from a call site; \<open>refSites\<close> says from
  which sites come the resources it may refer to, as a dependency, as its provider or in an
  argument. A graph is well typed from a position on when every reference made there goes to an
  earlier resource of such a site.
  \<open>flows N m G\<close> is the judgement that derives it: it composes over the program like a type system.
\<close>

section \<open>Sites and what they refer to\<close>

definition checkSites :: "site set" where
  "checkSites = {SInitCheck, SMotd, SInstallFile}"

definition serviceSites :: "site set" where
  "serviceSites = {SInitCheck, SMotd, SInstallFile, SZypper, SIscsi, SK8sPrime, SK8sAdmin, SK8sWorker,
     SHelmfile, SKubeVipConfig, SAiHack, SNexusHack}"

fun refSites :: "site \<Rightarrow> site set" where
  "refSites SBaseVolume = {SProvider, SVmPool}"
| "refSites SDisk = {SProvider, SVmPool, SBaseVolume}"
| "refSites SCloudinit = {SProvider, SCloudinitPool}"
| "refSites SDomain = {SProvider, SNetwork, SDisk, SCloudinit}"
| "refSites SSshCheck = {SDomain}"
| "refSites SCopyRemote = {SDomain, SSshCheck}"
| "refSites SInitCheck = {SDomain, SSshCheck, SCopyRemote}"
| "refSites SMotd = {SDomain, SSshCheck}"
| "refSites SZypper = {SDomain} \<union> checkSites"
| "refSites SIscsi = {SDomain, SZypper}"
| "refSites SLogCopy = {SDomain} \<union> checkSites"
| "refSites SCopyInput = {SDomain}"
| "refSites SInstallFile = {SDomain, SCopyInput}"
| "refSites SSshConfig = {SDomain} \<union> checkSites"
| "refSites SK8sPrime = {SDomain} \<union> checkSites"
| "refSites SKubeConfig = {SDomain, SK8sPrime} \<union> checkSites"
| "refSites SK8sAdmin = {SDomain, SK8sPrime} \<union> checkSites"
| "refSites SK8sWorker = {SDomain, SK8sPrime} \<union> checkSites"
| "refSites SKubeVipConfig = {SDomain, SK8sPrime} \<union> checkSites"
| "refSites SAiHack = {SDomain} \<union> serviceSites"
| "refSites SNexusHack = {SDomain} \<union> serviceSites"
| "refSites SHelmfile = serviceSites"
| "refSites _ = {}"

definition wellTyped :: "nat \<Rightarrow> resource list \<Rightarrow> bool" where
  "wellTyped n ns \<longleftrightarrow>
     (\<forall>i<length ns. n \<le> i \<longrightarrow> (\<forall>d\<in>set (refsOf (ns ! i)). d < i \<and> r_site (ns ! d) \<in> refSites (r_site (ns ! i))))"

lemma wellTyped_Nil [simp]: "wellTyped n []"
  by (simp add: wellTyped_def)

lemma wellTyped_snoc:
  "wellTyped n (ns @ [r]) \<longleftrightarrow>
     wellTyped n ns \<and> (n \<le> length ns \<longrightarrow> (\<forall>d\<in>set (refsOf r). d < length ns \<and> r_site (ns ! d) \<in> refSites (r_site r)))"
  by (fastforce simp: wellTyped_def nth_append less_Suc_eq)

section \<open>Contexts\<close>

text \<open>A context says of identities from which sites their resources may come.\<close>

type_synonym sites = "(nat \<times> site set) set"

definition ids :: "site set \<Rightarrow> nat set \<Rightarrow> sites" where
  "ids A D = D \<times> {A}"

definition has :: "sites \<Rightarrow> nat \<Rightarrow> site set \<Rightarrow> bool" where
  "has S d A \<longleftrightarrow> (\<exists>B. (d, B) \<in> S \<and> B \<subseteq> A)"

definition gives :: "sites \<Rightarrow> sites \<Rightarrow> bool" where
  "gives S N \<longleftrightarrow> (\<forall>(d, A)\<in>N. has S d A)"

lemma has_simps [simp]:
  "has (S \<union> T) d A \<longleftrightarrow> has S d A \<or> has T d A" "has (ids B D) d A \<longleftrightarrow> d \<in> D \<and> B \<subseteq> A" "\<not> has {} d A"
  by (auto simp: has_def ids_def)

lemma gives_simps [simp]:
  "gives S (N \<union> M) \<longleftrightarrow> gives S N \<and> gives S M" "gives S (ids A D) \<longleftrightarrow> (\<forall>d\<in>D. has S d A)" "gives S {}"
  by (auto simp: gives_def ids_def)

lemma gives_refl [simp]: "gives S S"
  by (auto simp: gives_def has_def)

lemma gives_left: "gives S N \<Longrightarrow> gives (S \<union> T) N"
  by (auto simp: gives_def)

lemma gives_right: "gives T N \<Longrightarrow> gives (S \<union> T) N"
  by (auto simp: gives_def)

definition known :: "resource list \<Rightarrow> sites \<Rightarrow> world \<Rightarrow> bool" where
  "known ms S w \<longleftrightarrow> prefix ms (nodes w) \<and> wellTyped (length ms) (nodes w) \<and> (\<forall>(d, A)\<in>S. d < length (nodes w) \<and> r_site (nodes w ! d) \<in> A)"

lemma known_gives: "known ms S w \<Longrightarrow> gives S N \<Longrightarrow> known ms (S \<union> N) w"
  unfolding known_def gives_def has_def by fastforce

lemma known_less: "known ms (S \<union> N) w \<Longrightarrow> known ms S w"
  by (auto simp: known_def)

lemma known_mono: "known ms S w \<Longrightarrow> gives S N \<Longrightarrow> known ms N w"
  using known_gives [of ms S w N] known_less [of ms N S w] by (simp add: Un_commute)

lemma known_same: "known ms S s \<Longrightarrow> nodes t = nodes s \<Longrightarrow> known ms S t"
  by (simp add: known_def)

lemma known_new:
  assumes "known ms S s" and "\<forall>d\<in>set (refsOf r). has S d (refSites (r_site r))" and "nodes t = nodes s @ [r]"
  shows "known ms (S \<union> ids {r_site r} {length (nodes s)}) t"
proof -
  have "d < length (nodes s) \<and> r_site (nodes s ! d) \<in> refSites (r_site r)" if "d \<in> set (refsOf r)" for d
  proof -
    from assms(2) that obtain B where "(d, B) \<in> S" "B \<subseteq> refSites (r_site r)" by (auto simp: has_def)
    with assms(1) show ?thesis by (auto simp: known_def)
  qed
  with assms(1,3) have "wellTyped (length ms) (nodes t)" by (simp add: wellTyped_snoc known_def)
  with assms(1,3) show ?thesis by (auto simp: known_def ids_def nth_append)
qed

section \<open>The judgement\<close>

definition flows :: "sites \<Rightarrow> 'a io \<Rightarrow> ('a \<Rightarrow> sites) \<Rightarrow> bool" where
  "flows N m G \<longleftrightarrow> (\<forall>ms S s. gives S N \<longrightarrow> known ms S s \<longrightarrow> wp m (\<lambda>a. known ms (S \<union> G a)) (known ms S) s)"

lemma flowsI:
  "(\<And>ms S s. gives S N \<Longrightarrow> known ms S s \<Longrightarrow> wp m (\<lambda>a. known ms (S \<union> G a)) (known ms S) s) \<Longrightarrow> flows N m G"
  by (simp add: flows_def)

lemma flowsD: "flows N m G \<Longrightarrow> gives S N \<Longrightarrow> known ms S s \<Longrightarrow> wp m (\<lambda>a. known ms (S \<union> G a)) (known ms S) s"
  by (simp add: flows_def)

lemma gives_trans: "gives S M \<Longrightarrow> gives M N \<Longrightarrow> gives S N"
  unfolding gives_def has_def by fast

lemma flows_return: "gives N (G a) \<Longrightarrow> flows N (returnG a) G"
  by (rule flowsI, rule wp_return) (metis gives_trans known_gives)

lemma flows_stop: "flows N (failG e) G" "flows N (panicG p) G" "flows N (exitG n) G"
  by (auto intro!: flowsI wp_fail wp_panic wp_exit)

lemma flows_bind:
  assumes "flows N m G" and "\<And>a. flows (N \<union> G a) (k a) H"
  shows "flows N (bindG m k) H"
proof (rule flowsI)
  fix ms S s assume s: "gives S N" "known ms S s"
  from flowsD [OF assms(1) s] have "wp m (\<lambda>a. wp (k a) (\<lambda>b. known ms (S \<union> H b)) (known ms S)) (known ms S) s"
  proof (rule wp_weaken)
    fix a t assume "known ms (S \<union> G a) t"
    moreover have "gives (S \<union> G a) (N \<union> G a)" using s(1) by (simp add: gives_left gives_right)
    ultimately have "wp (k a) (\<lambda>b. known ms ((S \<union> G a) \<union> H b)) (known ms (S \<union> G a)) t"
      by (intro flowsD [OF assms(2)])
    then show "wp (k a) (\<lambda>b. known ms (S \<union> H b)) (known ms S) t"
      by (rule wp_weaken) (auto simp: known_def)
  qed
  then show "wp (bindG m k) (\<lambda>a. known ms (S \<union> H a)) (known ms S) s" by (rule wp_bind)
qed

lemma flows_try:
  "flows N m G \<Longrightarrow> flows N (tryG m) (\<lambda>r. case r of Inl _ \<Rightarrow> {} | Inr a \<Rightarrow> G a)"
  by (rule flowsI, rule wp_try, erule wp_weaken [OF flowsD]) auto

lemma flows_if: "flows N m G \<Longrightarrow> flows N n G \<Longrightarrow> flows N (if c then m else n) G"
  by simp

lemma flows_index: "flows N (indexG xs i) (\<lambda>_. {})"
  by (rule flowsI) (auto intro!: wp_index)

lemma flows_same: "within sameNodes m \<Longrightarrow> flows N m (\<lambda>_. {})"
  by (rule flowsI) (auto intro!: wp_sameNodes [of m] elim: known_same)

lemma flows_more:
  assumes "flows N m G" and "gives M N" and "\<And>a. gives (M \<union> G a) (H a)"
  shows "flows M m H"
proof (rule flowsI)
  fix ms S s assume s: "gives S M" "known ms S s"
  have "gives S N" by (rule gives_trans [OF s(1) assms(2)])
  from flowsD [OF assms(1) this s(2)] show "wp m (\<lambda>a. known ms (S \<union> H a)) (known ms S) s"
  proof (rule wp_weaken)
    fix a t assume k: "known ms (S \<union> G a) t"
    have "gives (S \<union> G a) (M \<union> G a)" using s(1) by (simp add: gives_left gives_right)
    then have "gives (S \<union> G a) (H a)" using assms(3) by (rule gives_trans)
    then have "gives (S \<union> G a) (S \<union> H a)" by (simp add: gives_left)
    with k show "known ms (S \<union> H a) t" by (rule known_mono)
  qed
qed

lemma flows_step: "within sameNodes m \<Longrightarrow> (\<And>a. flows N (k a) H) \<Longrightarrow> flows N (bindG m k) H"
  by (rule flows_bind [OF flows_same]) simp_all

text \<open>A loop whose local variables hold the identities \<open>I b\<close>.\<close>

lemma flows_for:
  assumes "\<And>x b. x \<in> set xs \<Longrightarrow> flows (N \<union> I b) (f x b) I"
  shows "flows (N \<union> I b) (forG xs f b) I"
  using assms
proof (induction xs arbitrary: b)
  case Nil
  show ?case by (simp add: flows_return gives_right)
next
  case (Cons x xs)
  have "flows (N \<union> I b') (forG xs f b') I" for b' using Cons.prems by (intro Cons.IH) auto
  then have "flows (N \<union> I b \<union> I b') (forG xs f b') I" for b'
    by (rule flows_more) (simp_all add: gives_left gives_right)
  moreover have "flows (N \<union> I b) (f x b) I" using Cons.prems by simp
  ultimately show ?case unfolding forG.simps by (rule flows_bind [rotated])
qed

lemma flows_create:
  assumes "\<forall>d\<in>set (refsOf r). has N d (refSites (r_site r))"
  shows "flows N (newResource env r) (\<lambda>i. ids {r_site r} {i})"
proof (rule flowsI, rule engine.wp_create)
  fix ms S s and t :: world
  assume "gives S N" "known ms S s" "nodes t = nodes s @ [r]"
  moreover from assms this(1) have "\<forall>d\<in>set (refsOf r). has S d (refSites (r_site r))"
    unfolding gives_def has_def by fast
  ultimately show "known ms (S \<union> ids {r_site r} {length (nodes s)}) t" by (intro known_new)
qed (simp add: known_def)

lemma flows_new:
  assumes "\<forall>d\<in>set (refsOf r). has N d (refSites (r_site r))"
    and "\<And>i. flows (N \<union> ids {r_site r} {i}) (k i) H"
  shows "flows N (bindG (newResource env r) k) H"
  using assms by (rule flows_bind [OF flows_create])

lemma flows_last:
  assumes "\<forall>d\<in>set (refsOf r). has N d (refSites (r_site r))" and "\<And>i. gives (N \<union> ids {r_site r} {i}) (H i)"
  shows "flows N (newResource env r) H"
  by (rule flows_more [OF flows_create [OF assms(1)] gives_refl assms(2)])

lemma flows_bind_only:
  assumes "\<And>s. wp m (\<lambda>a _. A a) (\<lambda>_. True) s" and "flows N m G" and "\<And>a. A a \<Longrightarrow> flows (N \<union> G a) (k a) H"
  shows "flows N (bindG m k) H"
proof -
  have "flows (N \<union> G a) (if A a then k a else panicG []) H" for a using assms(3) by (auto intro: flows_stop)
  then show ?thesis by (subst bindG_only [OF assms(1)]) (rule flows_bind [OF assms(2)])
qed

text \<open>Creating one resource per element and collecting the identities.\<close>

lemma flows_collect:
  assumes "\<And>x. x \<in> set xs \<Longrightarrow> r_site (f x) = st"
    and "\<And>x d. x \<in> set xs \<Longrightarrow> d \<in> set (refsOf (f x)) \<Longrightarrow> has N d (refSites st)"
  shows "flows N (forG xs (\<lambda>x is. bindG (newResource env (f x)) (\<lambda>i. returnG (is @ [i]))) []) (\<lambda>is. ids {st} (set is))"
proof -
  have "flows (N \<union> ids {st} (set [])) (forG xs (\<lambda>x is. bindG (newResource env (f x)) (\<lambda>i. returnG (is @ [i]))) [])
      (\<lambda>is. ids {st} (set is))"
    by (rule flows_for, rule flows_new) (use assms in \<open>auto intro!: flows_return\<close>)
  then show ?thesis by (rule flows_more) (simp_all add: gives_right)
qed

lemma flows_component:
  "(\<And>u. flows N (k u) H) \<Longrightarrow> flows N (bindG (registerComponent env st ty nm) k) H"
  unfolding registerComponent_def
  by (rule flows_bind [where G = "\<lambda>_. {}"], rule flows_new) (simp_all add: refsOf_def flows_return)

lemma known_start [simp]: "known (nodes s) {} s"
  by (simp add: known_def wellTyped_def)

lemma flows_typed:
  assumes "flows N m G" and "known (nodes s) N s"
  shows "prefix (nodes s) (nodes (snd (m s)))" and "wellTyped (length (nodes s)) (nodes (snd (m s)))"
proof -
  let ?P = "\<lambda>t. prefix (nodes s) (nodes t) \<and> wellTyped (length (nodes s)) (nodes t)"
  from assms(2) have "wp m (\<lambda>a. known (nodes s) (N \<union> G a)) (known (nodes s) N) s"
    by (intro flowsD [OF assms(1)]) simp
  then have "wp m (\<lambda>_. ?P) ?P s" by (rule wp_weaken) (auto simp: known_def)
  then have "?P (snd (m s))" by (rule wp_any)
  then show "prefix (nodes s) (nodes (snd (m s)))" "wellTyped (length (nodes s)) (nodes (snd (m s)))" by simp_all
qed

section \<open>Well-typed graphs have no cycle\<close>

lemma acyclic_smaller: "acyclic {(i :: nat, d). d < i}"
proof -
  have "wf ({(i :: nat, d). d < i}\<inverse>)"
    using wf_less by (simp add: converse_unfold)
  then have "acyclic ({(i :: nat, d). d < i}\<inverse>)" by (rule wf_acyclic)
  then show ?thesis by (simp only: acyclic_converse)
qed

lemma chainOk_acyclic: "chainOk ns \<Longrightarrow> acyclic {(i, d). i < length ns \<and> d \<in> set (refsOf (ns ! i))}"
  by (rule acyclic_subset [OF acyclic_smaller]) (auto simp: chainOk_def)

lemma wellTyped_chain:
  assumes "wellTyped n ns" and "chainOk ms" and "prefix ms ns" and "n = length ms"
  shows "chainOk ns"
  unfolding chainOk_def
proof (intro allI impI ballI)
  fix i d assume i: "i < length ns" and d: "d \<in> set (refsOf (ns ! i))"
  show "d < i"
  proof (cases "i < n")
    case True
    with assms(3,4) have "ns ! i = ms ! i" by (auto simp: prefix_def nth_append)
    with True d assms(2,4) show ?thesis by (simp add: chainOk_def)
  next
    case False
    with assms(1) i d show ?thesis by (simp add: wellTyped_def)
  qed
qed

lemma flows_chain:
  assumes "flows N m G" and "known (nodes s) N s" and "chainOk (nodes s)"
  shows "chainOk (nodes (snd (m s)))"
  by (rule wellTyped_chain [OF flows_typed(2) assms(3) flows_typed(1) refl]) (rule assms(1,2))+

end
