(* ===== verification/Universe_Types.thy ===== *)
theory Universe_Types
  imports Universe Libvirt_Values Graph_Types
begin

text \<open>
  The program is well typed: every function of the libvirt provider and the whole universe only
  hands on identities of the right call sites.
\<close>

section \<open>What the shared resources and the local variables hold\<close>

definition sharedIds :: "LibvirtShared \<Rightarrow> sites" where
  "sharedIds sh = ids {SProvider} {ls_Provider sh} \<union> ids {SNetwork} {ls_Network sh} \<union>
     ids {SCloudinitPool} {ls_CloudInitStoragePool sh} \<union> ids {SVmPool} {ls_VmStoragePool sh}"

definition domainIds :: "ustate \<Rightarrow> nat set" where
  "domainIds us = set (us_vmDomains us) \<union> set_option (ud_Domain (us_prime us)) \<union>
     (\<Union>k. \<Union>u\<in>set (us_unitMap us k). set_option (ud_Domain u))"

text \<open>The dependency list holds resources of \<open>A\<close>, the other variables what their names say.\<close>

definition usIds :: "site set \<Rightarrow> ustate \<Rightarrow> sites" where
  "usIds A us = ids {SDomain} (domainIds us) \<union> ids A (set (us_vmDepends us)) \<union>
     ids {SInstallFile} (set (us_fileDepends us)) \<union> ids {SZypper, SIscsi} (set (us_pkgInstalls us))"

lemma checkSites_in [simp]:
  "SInitCheck \<in> checkSites" "SMotd \<in> checkSites" "SInstallFile \<in> checkSites"
  "checkSites \<subseteq> serviceSites" "checkSites \<subseteq> insert st checkSites" "checkSites \<subseteq> insert st (insert st' checkSites)"
  by (auto simp: checkSites_def serviceSites_def)

lemma domainIds_update [simp]:
  "domainIds (us\<lparr>us_vmDepends := ds\<rparr>) = domainIds us"
  "domainIds (us\<lparr>us_fileDepends := ds\<rparr>) = domainIds us"
  "domainIds (us\<lparr>us_pkgInstalls := ds\<rparr>) = domainIds us"
  "domainIds (us\<lparr>us_vmDomains := us_vmDomains us @ [d]\<rparr>) = insert d (domainIds us)"
  by (auto simp: domainIds_def)

lemma domainIds_book: "domainIds (vmBookV config idx h d m us) \<subseteq> insert d (domainIds us)"
  by (auto simp: domainIds_def vmBookV_def vmBook_def Let_def split: if_splits)

section \<open>Shared resources and vms\<close>

lemma flows_dnsHosts: "flows N (dnsHosts hs) (\<lambda>hosts. {})"
  unfolding dnsHosts_def Let_def
  by (intro flows_step flows_if flows_return) (auto intro: nodes_frame)

lemma dnsHosts_refs: "wp (dnsHosts hs) (\<lambda>hosts _. \<forall>h\<in>set hosts. argRefs h = []) (\<lambda>_. True) s"
  by (rule wp_dnsHosts) auto

lemma flows_setupShared: "flows {} (setupShared env state netconfig) sharedIds"
  unfolding setupShared_def
  apply (rule flows_new, simp add: refsOf_def)
  apply (rule flows_step, intro nodes_frame)+
  apply (rule flows_bind_only [OF dnsHosts_refs flows_dnsHosts])
  apply (rule flows_new, simp)
  apply (rule flows_new, simp)
  apply (rule flows_new, simp)
  apply (rule flows_return)
  apply (simp add: sharedIds_def poolResource_def networkResource_def)
  done

lemma flows_configSetup:
  "flows (sharedIds shared) (configSetup env state unit config shared) (\<lambda>b. ids {SBaseVolume} {b})"
  unfolding configSetup_def Let_def
  apply (rule flows_step, intro nodes_frame)+
  apply (rule flows_last)
   apply (simp_all add: sharedIds_def)
  done

lemma flows_vmDomain:
  "flows (sharedIds shared \<union> ids {SBaseVolume} {b})
     (vmDomain env state unit config shared key netconfig b idx) (\<lambda>(h, d). ids {SDomain} {d})"
  unfolding vmDomain_def Let_def
  apply (rule flows_step, intro nodes_frame)+
  apply (rule flows_new, simp add: sharedIds_def)
  apply (rule flows_step, intro nodes_frame)+
  apply (rule flows_new, simp add: sharedIds_def)
  apply (rule flows_bind [OF flows_try [OF flows_create]])
   apply (simp add: sharedIds_def)
  apply (auto intro: flows_stop flows_return split: sum.split)
  done

lemma flows_vmRemote:
  "flows (ids {SDomain} {d}) (vmRemote env state key h d) (\<lambda>(a, b). ids checkSites {a, b})"
  unfolding vmRemote_def
  apply (rule flows_new, simp)
  apply (rule flows_step, intro nodes_frame)
  apply (rule flows_new, simp)
  apply (rule flows_new, simp)
  apply (rule flows_new, simp)
  apply (rule flows_return, simp)
  done

lemma flows_vmOnline:
  "flows (usIds checkSites us \<union> ids {SDomain} {d}) (vmOnline env unit key h d us) (usIds checkSites)"
  unfolding vmOnline_def
  apply (rule flows_if)
   apply (rule flows_new, simp add: usIds_def)
   apply (rule flows_new, simp add: usIds_def)
   apply (rule flows_return, simp add: usIds_def ball_Un)
  apply (rule flows_return, simp add: gives_left)
  done

lemma flows_vmLogs:
  "flows (ids checkSites (set ds) \<union> ids {SDomain} {d}) (vmLogs env state key h d ds) (\<lambda>_. {})"
proof -
  have "flows ((ids checkSites (set ds) \<union> ids {SDomain} {d}) \<union> (\<lambda>_. {}) ()) (forG ciLogFiles (\<lambda>log _.
       let remoteLog = pathJoin [''/var/log'', log] in
       bindG (registerArtifact env state (h @ ''/cloudinit/'' @ log)) (\<lambda>localLog.
       bindG (newResource env (localCommand SLogCopy (h @ '' copy '' @ log)
                [Lit (sshRoot key), ip4Of (Some d), Lit ('' '' @ sq @ ''cat '' @ remoteLog @ sq @ '' > '' @ localLog)] ds)) (\<lambda>_.
       returnG ()))) ()) (\<lambda>_. {})"
    unfolding Let_def
    apply (rule flows_for)
    apply (rule flows_step, intro nodes_frame)
    apply (rule flows_new)
     apply (auto intro: flows_return)
    done
  then show ?thesis unfolding vmLogs_def by (intro flows_component) simp
qed

lemma flows_vmInput:
  "flows (ids {SDomain} {d} \<union> ids {SInstallFile} (set fs)) (vmInput env state key d f fs) (\<lambda>fs. ids {SInstallFile} (set fs))"
  unfolding vmInput_def Let_def
  apply (rule flows_if)
   apply (rule flows_step, intro nodes_frame)
   apply (rule flows_new, simp)
   apply (rule flows_new, simp)
   apply (rule flows_return, simp)
  apply (rule flows_return, simp)
  done

lemma flows_vmInputs:
  "flows (ids {SDomain} {d} \<union> ids {SInstallFile} (set fs)) (vmInputs env state key d inputs fs)
     (\<lambda>fs. ids {SInstallFile} (set fs))"
  unfolding vmInputs_def by (rule flows_for) (rule flows_vmInput)

lemma usIds_book: "gives (usIds A us \<union> ids {SDomain} {d} \<union> ids A {m}) (usIds A (vmBookV config idx h d m us))" if "{SInstallFile} \<subseteq> A" for A
proof -
  have "us_vmDepends (vmBookV config idx h d m us) = us_vmDepends us @ [m] @ us_fileDepends us"
    "us_fileDepends (vmBookV config idx h d m us) = us_fileDepends us"
    "us_pkgInstalls (vmBookV config idx h d m us) = us_pkgInstalls us"
    by (simp_all add: vmBookV_def vmBook_def Let_def)
  moreover have "x = d \<or> x \<in> domainIds us" if "x \<in> domainIds (vmBookV config idx h d m us)" for x
    using that domainIds_book by blast
  ultimately show ?thesis using that by (auto simp: usIds_def)
qed

lemma flows_setupVm:
  "flows ((sharedIds shared \<union> ids {SBaseVolume} {b}) \<union> usIds checkSites us)
     (setupVmV env state unit config shared key inputs netconfig b idx us) (usIds checkSites)"
  unfolding setupVmV_def
  apply (rule flows_bind [OF flows_more [OF flows_vmDomain, where H = "\<lambda>(h, d). ids {SDomain} {d}"]])
    apply (simp add: gives_left)
   apply (simp add: gives_right)
  apply (clarsimp simp only: prod.case split_paired_all Let_def)
  apply (rule flows_bind [OF flows_more [OF flows_vmRemote, where H = "\<lambda>(a, b). ids checkSites {a, b}"]])
    apply simp
   apply (simp add: gives_right)
  apply (clarsimp simp only: prod.case split_paired_all)
  apply (rule flows_bind [OF flows_more [OF flows_vmOnline, where H = "usIds checkSites"]])
    apply (simp add: usIds_def)
   apply (simp add: gives_right)
  apply (rule flows_bind [OF flows_more [OF flows_vmLogs, where H = "\<lambda>_. {}"]])
    apply (simp add: usIds_def)
   apply simp
  apply (rule flows_bind [OF flows_more [OF flows_vmInputs, where H = "\<lambda>fs. ids {SInstallFile} (set fs)"]])
    apply (simp add: usIds_def)
   apply (simp add: gives_right)
  apply (rule flows_return)
  apply (rule gives_trans [OF _ usIds_book])
   apply (simp add: usIds_def)
  apply simp
  done

lemma flows_setupConfig:
  "flows (sharedIds shared \<union> usIds checkSites us)
     (setupConfigV env state unit shared key inputs netconfig config us) (usIds checkSites)"
  unfolding setupConfigV_def
  apply (rule flows_bind [OF flows_more [OF flows_configSetup, where H = "\<lambda>b. ids {SBaseVolume} {b}"]])
    apply (simp add: gives_left)
   apply (simp add: gives_right)
  apply (rule flows_more [OF flows_for [OF flows_setupVm]])
   apply (simp_all add: gives_left gives_right)
  done

lemma usIds_start [simp]: "usIds A startState = ids {SDomain} {} \<union> ids A {} \<union> ids {SInstallFile} {} \<union> ids {SZypper, SIscsi} {}"
  by (simp add: usIds_def domainIds_def startState_def)

lemma flows_setupVms:
  "flows (sharedIds shared) (setupVmsV env state unit shared key inputs netconfig) (usIds checkSites)"
  unfolding setupVmsV_def
  by (rule flows_more [OF flows_for [OF flows_setupConfig]]) (simp_all add: gives_left gives_right)

section \<open>The rest of a unit\<close>

lemma usIds_weaken: "gives (usIds checkSites us) (usIds serviceSites us)"
  by (simp add: usIds_def)

lemma usIds_append:
  "usIds A (us\<lparr>us_vmDepends := us_vmDepends us @ ds\<rparr>) =
     usIds A us \<union> ids A (set ds)"
  by (auto simp: usIds_def ids_def)

lemma domain_prime: "ud_Domain (us_prime us) = Some d \<Longrightarrow> d \<in> domainIds us"
  by (auto simp: domainIds_def)

lemma domain_map: "vm \<in> set (us_unitMap us k) \<Longrightarrow> ud_Domain vm = Some d \<Longrightarrow> d \<in> domainIds us"
  by (auto simp: domainIds_def)

lemma domain_vms: "d \<in> set (us_vmDomains us) \<Longrightarrow> d \<in> domainIds us"
  by (auto simp: domainIds_def)

lemmas domain_of = domain_prime domain_map domain_vms

lemma flows_unitSshConfig: "flows (usIds checkSites us) (unitSshConfig env state unit key us) (\<lambda>_. {})"
  unfolding unitSshConfig_def Let_def
  apply (rule flows_step, intro nodes_frame)
  apply (rule flows_bind [OF flows_try [OF flows_create]])
   apply (auto simp: refs_sshConfig [simplified] usIds_def domain_vms)[1]
  apply (rule flows_same, intro nodes_frame)
  done

lemma flows_unitK8s:
  "flows (usIds checkSites us) (unitK8sV lost env state unit key netconfig us)
     (\<lambda>(us', ds). usIds serviceSites us' \<union> ids (insert SK8sPrime checkSites) (set ds))"
  unfolding unitK8sV_def Let_def
  apply (rule flows_if)
   apply (rule flows_step, intro nodes_frame)
   apply (rule flows_new)
    apply (auto simp: usIds_def domain_of)[1]
   apply (rule flows_step, intro nodes_frame)
   apply (rule flows_new)
    apply (auto simp: usIds_def domain_of copyKubeconfig_def)[1]
   apply (rule flows_step, intro nodes_frame)
   apply (rule flows_bind [OF flows_collect])
     apply simp
    apply (auto simp: usIds_def domain_of)[1]
   apply (rule flows_bind [OF flows_collect])
     apply simp
    apply (auto simp: usIds_def domain_of)[1]
   apply (rule flows_return)
   apply (auto simp: usIds_def serviceSites_def checkSites_def)[1]
  apply (rule flows_return)
  apply (auto simp: usIds_def)
  done

lemma flows_unitHelmfile:
  "flows (ids (insert SK8sPrime checkSites) (set ds) \<union> usIds serviceSites us)
     (unitHelmfileV env state unit key netconfig ds kc hf us) (usIds serviceSites)"
proof -
  have hack: "flows (ids (insert SK8sPrime checkSites) (set ds) \<union> usIds serviceSites us)
      (bindG (newResource env (hackResource st w c unit key (us_prime us) (us_vmDepends us))) (\<lambda>i. returnG [i]))
      (\<lambda>is. ids serviceSites (set is))" if "st \<in> {SAiHack, SNexusHack}" for st w c
    apply (rule flows_new)
     apply (use that in \<open>auto simp: usIds_def domain_of\<close>)[1]
    apply (rule flows_return)
    apply (use that in \<open>auto simp: serviceSites_def\<close>)
    done
  show ?thesis
    unfolding unitHelmfileV_def Let_def
    apply (rule flows_bind [where G = "\<lambda>is. ids serviceSites (set is)"])
     apply (intro flows_if hack flows_return)
       apply simp_all[3]
    apply (rule flows_new)
     apply (simp add: usIds_def)
    apply (rule flows_if)
     apply (rule flows_step, intro nodes_frame)
     apply (rule flows_step, intro nodes_frame)
     apply (rule flows_new)
      apply (auto simp: usIds_def domain_of copyKubeconfig_def)[1]
     apply (rule flows_return)
     apply (simp add: usIds_def serviceSites_def ball_Un)
    apply (rule flows_return)
    apply (simp add: usIds_def serviceSites_def ball_Un)
    done
qed

lemma flows_unitOnline:
  "flows (ids (insert SK8sPrime checkSites) (set ds) \<union> usIds serviceSites us)
     (unitOnlineV env state unit key netconfig ds us) (usIds serviceSites)"
proof -
  let ?us = "us\<lparr>us_vmDepends := us_vmDepends us @ us_pkgInstalls us\<rparr>"
  have us: "gives (usIds serviceSites us) (usIds serviceSites ?us)"
    by (auto simp: usIds_def serviceSites_def checkSites_def)
  have "flows (ids (insert SK8sPrime checkSites) (set ds) \<union> usIds serviceSites ?us) (forG hfs
      (\<lambda>hf us. unitHelmfileV env state unit key netconfig ds kc hf us) ?us) (usIds serviceSites)" for hfs kc
    by (rule flows_for) (rule flows_unitHelmfile)
  note loop = flows_more [OF this, of "ids (insert SK8sPrime checkSites) (set ds) \<union> usIds serviceSites us"]
  show ?thesis
    unfolding unitOnlineV_def Let_def
    by (intro flows_if flows_step loop flows_return nodes_frame) (simp_all add: us gives_right gives_left)
qed

lemma flows_libvirtUnit:
  "flows (sharedIds shared) (libvirtUnit env state unit shared key inputs netconfig) (\<lambda>_. {})"
  unfolding libvirtUnit_values libvirtUnitV_def
  apply (rule flows_bind [OF flows_setupVms])
  apply (rule flows_bind [OF flows_more [OF flows_unitSshConfig, where H = "\<lambda>_. {}"]])
    apply (simp_all add: gives_right)[2]
  apply (rule flows_bind [OF flows_more [OF flows_unitK8s,
     where H = "\<lambda>(us', ds). usIds serviceSites us' \<union> ids (insert SK8sPrime checkSites) (set ds)"]])
    apply (simp add: gives_right)
   apply (simp add: gives_right split: prod.split)
  apply (clarsimp simp only: prod.case split_paired_all)
  apply (rule flows_bind [OF flows_more [OF flows_unitOnline, where H = "\<lambda>_. {}"]])
    apply (simp add: gives_right gives_left)
   apply simp
  apply (simp add: flows_return)
  done

section \<open>The universe\<close>

lemma flows_newSsh: "flows N (newSsh env state name) (\<lambda>_. {})"
  unfolding newSsh_def Let_def
  by (intro flows_step nodes_frame flows_component flows_return astore.reg_nodes) simp

lemma flows_provisionUnits:
  "flows (sharedIds shared) (provisionUnits env state shared key inputs netconfig units) (\<lambda>_. {})"
proof -
  have "flows (sharedIds shared \<union> (\<lambda>_. {}) ()) (provisionUnits env state shared key inputs netconfig units) (\<lambda>_. {})"
    unfolding provisionUnits_def
    by (rule flows_for) (auto intro!: flows_libvirtUnit flows_return)
  then show ?thesis by simp
qed

lemma flows_newUniverse: "flows {} (newUniverse env ram cl cfg stack) (\<lambda>_. {})"
  unfolding newUniverse_def
  apply (rule flows_step, intro nodes_frame)
  apply (rule flows_step, intro nodes_frame)
  apply (rule flows_step, intro nodes_frame)
  apply (rule flows_bind [OF flows_try [OF flows_create]], simp add: refsOf_def)
  apply (rule flows_step, rule universe_frames)
  apply (rule flows_step, rule universe_frames)
  apply (rule flows_step, rule universe_frames)
  apply (rule flows_step, rule universe_frames)
  apply (rule flows_step, rule universe_frames)
  apply (rule flows_step, rule universe_frames)
  apply (rule flows_bind [OF flows_newSsh])
  apply (rule flows_step, intro nodes_frame)
  apply (rule flows_bind [OF flows_more [OF flows_setupShared, where H = sharedIds]])
    apply (simp_all add: gives_right)[2]
  apply (rule flows_bind [OF flows_more [OF flows_provisionUnits, where H = "\<lambda>_. {}"]])
    apply (simp_all add: gives_right)[2]
  apply (rule flows_component)
  apply (simp add: flows_return)
  done

section \<open>Properties\<close>

text \<open>
  C5: the deployment graph is well typed: whatever was registered before and whatever fails, every
  resource the program registers refers only to earlier resources of the call sites \<open>refSites\<close>
  gives for its own: a domain to its disk, its cloud-init volume, the network and the provider,
  a remote check to its domain, a worker to its domain, the prime installation and the checks, and
  nothing at all to the kubeconfig copy.
\<close>

theorem newUniverse_typed:
  "wellTyped (length (nodes s)) (nodes (snd (newUniverse env ram cl cfg stack s)))"
  by (rule flows_typed(2) [OF flows_newUniverse known_start])

end
