(* ===== verification/Schedule.thy ===== *)
theory Schedule
  imports Engine
begin

text \<open>
  The orders in which the resources of a deployment may be created. The program only registers
  resources; Pulumi creates them concurrently, each as soon as everything it refers to has been
  created. \<open>schedule ns es\<close> says that the events \<open>es\<close> respect the references of the resources
  \<open>ns\<close>: it is that contract and nothing else, so what holds of every schedule holds of every
  deployment.
\<close>

section \<open>Schedules\<close>

datatype stage = Start nat | Finish nat | Break nat

inductive schedule :: "resource list \<Rightarrow> stage list \<Rightarrow> bool" for ns where
  idle: "schedule ns []"
| start: "schedule ns es \<Longrightarrow> i < length ns \<Longrightarrow> Start i \<notin> set es \<Longrightarrow>
    \<forall>d\<in>set (refsOf (ns ! i)). Finish d \<in> set es \<Longrightarrow> schedule ns (es @ [Start i])"
| finish: "schedule ns es \<Longrightarrow> Start i \<in> set es \<Longrightarrow> Finish i \<notin> set es \<Longrightarrow> Break i \<notin> set es \<Longrightarrow>
    schedule ns (es @ [Finish i])"
| break: "schedule ns es \<Longrightarrow> Start i \<in> set es \<Longrightarrow> Finish i \<notin> set es \<Longrightarrow> Break i \<notin> set es \<Longrightarrow>
    schedule ns (es @ [Break i])"

inductive_cases schedule_snocE: "schedule ns (es @ [e])"

text \<open>Which resources one refers to.\<close>

definition uses :: "resource list \<Rightarrow> (nat \<times> nat) set" where
  "uses ns = {(i, d). i < length ns \<and> d \<in> set (refsOf (ns ! i))}"

definition calm :: "stage list \<Rightarrow> bool" where
  "calm es \<longleftrightarrow> (\<forall>i. Break i \<notin> set es)"

definition complete :: "resource list \<Rightarrow> stage list \<Rightarrow> bool" where
  "complete ns es \<longleftrightarrow> (\<forall>i<length ns. Finish i \<in> set es)"

section \<open>What every schedule keeps\<close>

lemma schedule_started: "schedule ns es \<Longrightarrow> Finish i \<in> set es \<or> Break i \<in> set es \<Longrightarrow> Start i \<in> set es"
  by (induction rule: schedule.induct) auto

lemma schedule_range: "schedule ns es \<Longrightarrow> Start i \<in> set es \<Longrightarrow> i < length ns"
  by (induction rule: schedule.induct) auto

lemma schedule_direct: "schedule ns es \<Longrightarrow> Start i \<in> set es \<Longrightarrow> d \<in> set (refsOf (ns ! i)) \<Longrightarrow> Finish d \<in> set es"
  by (induction rule: schedule.induct) auto

lemma schedule_once: "schedule ns es \<Longrightarrow> Finish i \<in> set es \<Longrightarrow> Break i \<notin> set es"
  by (induction rule: schedule.induct) auto

lemma schedule_distinct: "schedule ns es \<Longrightarrow> distinct es"
  by (induction rule: schedule.induct) auto

lemma schedule_prefix: "schedule ns (es @ fs) \<Longrightarrow> schedule ns es"
proof (induction fs rule: rev_induct)
  case (snoc e fs)
  from snoc.prems have "schedule ns ((es @ fs) @ [e])" by simp
  then have "schedule ns (es @ fs)" by (rule schedule_snocE)
  then show ?case by (rule snoc.IH)
qed simp


lemma schedule_waits:
  assumes "schedule ns es" and "Start j \<in> set es" and "(j, i) \<in> (uses ns)\<^sup>+"
  shows "Finish i \<in> set es"
  using assms(3)
proof induction
  case (base i)
  with schedule_direct [OF assms(1,2)] show ?case by (simp add: uses_def)
next
  case (step i k)
  then have "Start i \<in> set es" using schedule_started [OF assms(1)] by blast
  from schedule_direct [OF assms(1) this] step(2) show ?case by (simp add: uses_def)
qed

text \<open>A resource starts after everything it needs, directly or not, has been created.\<close>

lemma schedule_order:
  assumes "schedule ns (es @ Start j # fs)" and "(j, i) \<in> (uses ns)\<^sup>+"
  shows "Finish i \<in> set es"
proof -
  have "schedule ns ((es @ [Start j]) @ fs)" using assms(1) by simp
  then have "schedule ns (es @ [Start j])" by (rule schedule_prefix)
  from schedule_waits [OF this _ assms(2)] show ?thesis by simp
qed

section \<open>Schedules never get stuck\<close>

lemma schedule_length:
  assumes "schedule ns es"
  shows "length es \<le> 2 * length ns"
proof -
  let ?n = "length ns"
  let ?D = "{e \<in> set es. \<exists>i. e = Finish i \<or> e = Break i}"
  have split: "set es = Start ` {i. Start i \<in> set es} \<union> ?D"
  proof (rule set_eqI)
    show "e \<in> set es \<longleftrightarrow> e \<in> Start ` {i. Start i \<in> set es} \<union> ?D" for e by (cases e) auto
  qed
  have "{i. Start i \<in> set es} \<subseteq> {..<?n}" using schedule_range [OF assms] by auto
  then have s: "card (Start ` {i. Start i \<in> set es}) \<le> ?n"
    by (metis card_image_le card_lessThan card_mono finite_lessThan finite_subset le_trans)
  let ?f = "\<lambda>e. case e of Finish i \<Rightarrow> i | Break i \<Rightarrow> i | Start i \<Rightarrow> i"
  have inj: "inj_on ?f ?D" unfolding inj_on_def using schedule_once [OF assms] by auto
  have "?f ` ?D \<subseteq> {..<?n}" using schedule_started [OF assms] schedule_range [OF assms] by auto
  from card_inj_on_le [OF inj this] have d: "card ?D \<le> ?n" by simp
  have "card (set es) \<le> card (Start ` {i. Start i \<in> set es}) + card ?D"
    by (subst split) (rule card_Un_le)
  with s d schedule_distinct [OF assms] show ?thesis by (simp add: distinct_card)
qed

lemma schedule_progress:
  assumes "schedule ns es" and "chainOk ns" and "calm es" and "\<not> complete ns es"
  shows "\<exists>e. schedule ns (es @ [e]) \<and> calm (es @ [e])"
proof -
  from assms(4) have "\<exists>i. i < length ns \<and> Finish i \<notin> set es" by (auto simp: complete_def)
  then obtain i where i: "i < length ns" "Finish i \<notin> set es"
    and least: "\<forall>d<i. \<not> (d < length ns \<and> Finish d \<notin> set es)"
    by (subst (asm) exists_least_iff) blast
  have below: "Finish d \<in> set es" if "d < i" for d
    using least that i(1) by auto
  show ?thesis
  proof (cases "Start i \<in> set es")
    case True
    with assms(1,3) i have "schedule ns (es @ [Finish i])" by (intro finish) (auto simp: calm_def)
    with assms(3) show ?thesis by (auto simp: calm_def)
  next
    case False
    have "\<forall>d\<in>set (refsOf (ns ! i)). Finish d \<in> set es" using assms(2) i(1) below by (auto simp: chainOk_def)
    with assms(1) i(1) False have "schedule ns (es @ [Start i])" by (intro start)
    with assms(3) show ?thesis by (auto simp: calm_def)
  qed
qed

lemma schedule_completes:
  assumes "schedule ns es" and "chainOk ns" and "calm es"
  shows "\<exists>fs. schedule ns (es @ fs) \<and> calm (es @ fs) \<and> complete ns (es @ fs)"
  using assms
proof (induction "2 * length ns - length es" arbitrary: es rule: less_induct)
  case less
  show ?case
  proof (cases "complete ns es")
    case True
    with less.prems show ?thesis by (intro exI [of _ "[]"]) simp
  next
    case False
    with schedule_progress [OF less.prems] obtain e where e: "schedule ns (es @ [e])" "calm (es @ [e])" by blast
    have "2 * length ns - length (es @ [e]) < 2 * length ns - length es"
      using schedule_length [OF e(1)] by simp
    from less.hyps [OF this e(1) less.prems(2) e(2)] show ?thesis by (metis append.assoc)
  qed
qed

section \<open>What a resource does not wait for\<close>

text \<open>A resource can be reached by creating just what it needs, in the order of registration.\<close>

definition needs :: "resource list \<Rightarrow> nat \<Rightarrow> nat set" where
  "needs ns j = (uses ns)\<^sup>+ `` {j}"

definition upTo :: "nat set \<Rightarrow> nat \<Rightarrow> stage list" where
  "upTo K m = concat (map (\<lambda>i. if i \<in> K then [Start i, Finish i] else []) [0..<m])"

lemma upTo_set: "set (upTo K m) = Start ` {i. i < m \<and> i \<in> K} \<union> Finish ` {i. i < m \<and> i \<in> K}"
  by (auto simp: upTo_def split: if_splits)

lemma schedule_upTo:
  assumes "chainOk ns" and "\<And>i d. i \<in> K \<Longrightarrow> (i, d) \<in> uses ns \<Longrightarrow> d \<in> K" and "m \<le> length ns"
  shows "schedule ns (upTo K m)"
  using assms(3)
proof (induction m)
  case 0
  show ?case by (simp add: upTo_def idle)
next
  case (Suc m)
  then have IH: "schedule ns (upTo K m)" by simp
  show ?case
  proof (cases "m \<in> K")
    case False
    with IH show ?thesis by (simp add: upTo_def)
  next
    case True
    have "\<forall>d\<in>set (refsOf (ns ! m)). Finish d \<in> set (upTo K m)"
      using True assms(1,2) Suc.prems unfolding upTo_set by (auto simp: chainOk_def uses_def)
    with IH Suc.prems have 1: "schedule ns (upTo K m @ [Start m])"
      by (intro start) (auto simp: upTo_set)
    have "schedule ns ((upTo K m @ [Start m]) @ [Finish m])"
      by (rule finish [OF 1]) (auto simp: upTo_def split: if_splits)
    moreover have "upTo K (Suc m) = (upTo K m @ [Start m]) @ [Finish m]" using True by (simp add: upTo_def)
    ultimately show ?thesis by simp
  qed
qed

lemma needs_closed: "i \<in> needs ns j \<Longrightarrow> (i, d) \<in> uses ns \<Longrightarrow> d \<in> needs ns j"
  by (auto simp: needs_def intro: trancl_into_trancl)

lemma schedule_only_needed:
  assumes "chainOk ns" and "j < length ns" and "i \<noteq> j" and "(j, i) \<notin> (uses ns)\<^sup>+"
  shows "\<exists>es. schedule ns es \<and> calm es \<and> Finish j \<in> set es \<and> Start i \<notin> set es"
proof -
  let ?K = "insert j (needs ns j)"
  have "schedule ns (upTo ?K (length ns))"
    by (rule schedule_upTo [OF assms(1)]) (auto simp: needs_closed, auto simp: needs_def)
  moreover have "calm (upTo ?K (length ns))" by (auto simp: calm_def upTo_set)
  ultimately show ?thesis
    using assms(2-4) by (intro exI [of _ "upTo ?K (length ns)"]) (auto simp: upTo_set needs_def)
qed

end
