(* ===== verification/Schedule_Laws.thy ===== *)
theory Schedule_Laws
  imports Schedule Universe_Types Libvirt_Order
begin

text \<open>
  What Pulumi may do with the registered resources: properties of every order of creation, and
  orders the program fails to rule out.
\<close>

section \<open>Facts\<close>

lemma uses_deps: "i < length ns \<Longrightarrow> d \<in> set (r_deps (ns ! i)) \<Longrightarrow> (i, d) \<in> (uses ns)\<^sup>+"
  by (auto simp: uses_def refsOf_def)

text \<open>The identities handed to a unit are those of the shared resources.\<close>

definition sharedOk :: "LibvirtShared \<Rightarrow> resource list \<Rightarrow> bool" where
  "sharedOk sh ns \<longleftrightarrow> (\<forall>(d, st)\<in>{(ls_Provider sh, SProvider), (ls_Network sh, SNetwork),
     (ls_CloudInitStoragePool sh, SCloudinitPool), (ls_VmStoragePool sh, SVmPool)}.
     d < length ns \<and> r_site (ns ! d) = st)"

lemma sharedOk_known: "sharedOk sh (nodes s) \<Longrightarrow> known (nodes s) (sharedIds sh) s"
  by (auto simp: sharedOk_def known_def sharedIds_def ids_def wellTyped_def)

lemma SKubeConfig_unused: "SKubeConfig \<notin> refSites st"
  by (cases st) (auto simp: checkSites_def serviceSites_def)

lemma unused_needs:
  assumes "wellTyped n ns" and "chainOk ns" and "n \<le> k" and "\<forall>st. r_site (ns ! k) \<notin> refSites st"
  shows "(j, k) \<notin> (uses ns)\<^sup>+"
proof
  assume "(j, k) \<in> (uses ns)\<^sup>+"
  then obtain i where i: "(i, k) \<in> uses ns" by (cases rule: trancl.cases) auto
  with assms(2) have "k < i" by (auto simp: uses_def chainOk_def)
  with i assms(1,3) have "r_site (ns ! k) \<in> refSites (r_site (ns ! i))" by (auto simp: uses_def wellTyped_def)
  with assms(4) show False by blast
qed

section \<open>A concrete unit after its shared resources\<close>

definition sharedWorld :: world where
  "sharedWorld = emptyWorld\<lparr>nodes := map (\<lambda>st. res st [] [] []) [SProvider, SNetwork, SCloudinitPool, SVmPool]\<rparr>"

definition sharedRun :: "unit outcome \<times> world" where
  "sharedRun = libvirtUnit calmEnv (stateFor calmEnv ''/b'' ''U'') sampleHelmUnit sampleShared sampleKey []
     sampleNet sharedWorld"

lemma noFiles_shared: "noFiles (wfs sharedWorld)"
  using noFiles_empty by (simp add: sharedWorld_def)

lemma sharedWorld_ok: "chainOk (nodes sharedWorld)" "length (nodes sharedWorld) = 4" "sharedOk sampleShared (nodes sharedWorld)"
  by (simp_all add: sharedWorld_def chainOk_def refsOf_def sharedOk_def sampleShared_def less_Suc_eq numeral_eq_Suc)

lemma sharedRun_nodes:
  "map (\<lambda>r. (r_site r, r_deps r)) (nodes (snd sharedRun)) =
     [(SProvider, []), (SNetwork, []), (SCloudinitPool, []), (SVmPool, []),
      (SSshConfig, []), (SK8sPrime, []), (SKubeConfig, [5]), (SAiHack, [5]), (SHelmfile, [5]),
      (SHelmfile, [5, 8, 7]), (SKubeVipConfig, [5])]"
  unfolding sharedRun_def sample_values
  by (simp add: unit_run unitSshConfig_def sampleHelmUnit_def Let_def calm_run noFiles_shared indexG_def sampleNet_def startState_def
      calmEnv_def [THEN arg_cong [where f = e_getenv]] sharedWorld_def [THEN arg_cong [where f = nodes]] cong: bindG_cong)

lemma sharedRun_at:
  "length (nodes (snd sharedRun)) = 11"
  "k < 11 \<Longrightarrow> r_site (nodes (snd sharedRun) ! k) =
     [SProvider, SNetwork, SCloudinitPool, SVmPool, SSshConfig, SK8sPrime, SKubeConfig, SAiHack, SHelmfile,
      SHelmfile, SKubeVipConfig] ! k"
proof -
  have "length (map (\<lambda>r. (r_site r, r_deps r)) (nodes (snd sharedRun))) = 11"
    unfolding sharedRun_nodes by simp
  then show l: "length (nodes (snd sharedRun)) = 11" by simp
  have "map r_site (nodes (snd sharedRun)) = map fst (map (\<lambda>r. (r_site r, r_deps r)) (nodes (snd sharedRun)))"
    by (simp add: comp_def)
  also have "\<dots> = [SProvider, SNetwork, SCloudinitPool, SVmPool, SSshConfig, SK8sPrime, SKubeConfig, SAiHack,
      SHelmfile, SHelmfile, SKubeVipConfig]"
    unfolding sharedRun_nodes by simp
  finally show "k < 11 \<Longrightarrow> r_site (nodes (snd sharedRun) ! k) =
     [SProvider, SNetwork, SCloudinitPool, SVmPool, SSshConfig, SK8sPrime, SKubeConfig, SAiHack, SHelmfile,
      SHelmfile, SKubeVipConfig] ! k"
    using l by (metis nth_map)
qed

lemma sharedRun_chain: "chainOk (nodes (snd sharedRun))"
  unfolding sharedRun_def
  by (rule flows_chain [OF flows_libvirtUnit sharedOk_known]) (rule sharedWorld_ok)+

section \<open>Properties\<close>



text \<open>
  C4: nothing waits for the kubeconfig of the unit: any other resource of the deployment, the
  helmfiles that are run with this very file among them, may be created without the command that
  writes it having been started.
\<close>

theorem kubeconfig_race:
  assumes "chainOk (nodes s)" and "sharedOk shared (nodes s)" and "n = length (nodes s)"
    and "ns = nodes (snd (libvirtUnit env state unit shared key inputs netconfig s))"
    and "n \<le> k" and "r_site (ns ! k) = SKubeConfig" and "j < length ns" and "j \<noteq> k"
  shows "\<exists>es. schedule ns es \<and> calm es \<and> Finish j \<in> set es \<and> Start k \<notin> set es"
proof (rule schedule_only_needed)
  note known = sharedOk_known [OF assms(2)]
  show ok: "chainOk ns" unfolding assms(4) by (rule flows_chain [OF flows_libvirtUnit known assms(1)])
  have "wellTyped n ns" unfolding assms(3,4) by (rule flows_typed(2) [OF flows_libvirtUnit known])
  then show "(j, k) \<notin> (uses ns)\<^sup>+"
    by (rule unused_needs [OF _ ok assms(5)]) (simp add: assms(6) SKubeConfig_unused)
qed (use assms in auto)

theorem kubeconfig_race_witness:
  "r_site (nodes (snd sharedRun) ! 6) = SKubeConfig \<and> r_site (nodes (snd sharedRun) ! 8) = SHelmfile \<and>
   (\<exists>es. schedule (nodes (snd sharedRun)) es \<and> calm es \<and> Finish 8 \<in> set es \<and> Start 6 \<notin> set es)"
proof -
  have sites: "r_site (nodes (snd sharedRun) ! 6) = SKubeConfig" "r_site (nodes (snd sharedRun) ! 8) = SHelmfile"
    using sharedRun_at(2) [of 6] sharedRun_at(2) [of 8] by simp_all
  have "\<exists>es. schedule (nodes (snd sharedRun)) es \<and> calm es \<and> Finish 8 \<in> set es \<and> Start 6 \<notin> set es"
    using kubeconfig_race [OF sharedWorld_ok(1,3) refl refl, of 6 calmEnv "stateFor calmEnv ''/b'' ''U''"
        sampleHelmUnit sampleKey "[]" sampleNet 8] sites(1) sharedRun_at(1)
    by (simp add: sharedRun_def sharedWorld_ok)
  with sites show ?thesis by simp
qed

end
