(* ===== verification/Gamma.thy ===== *)
theory Gamma
  imports Universe Libvirt_Values Traces
begin

text \<open>
  \<open>src/pkg/components/gamma/gamma.go\<close>: the predecessor of the universe, which keeps one
  deployment per uuid below \<open>instances\<close> and exports the uuid it makes. It sets fields that
  \<open>universe.Universe\<close> no longer has (the record \<open>Gamma\<close>) and calls \<open>universe.SetupSshCa\<close>, which
  no longer exists and is the parameter \<open>ca\<close>. The signal handler is the one of
  \<open>Filecache_Signals\<close>, and what the function returns beside an error, a partly filled record, is not kept.
\<close>

section \<open>The deployment\<close>

record Gamma =
  gm_Uuid :: string
  gm_Prefix :: string
  gm_Tmp :: string
  gm_Artifacts :: string
  gm_Instance :: string
  gm_Cache :: string
  gm_Inputs :: "CachedFile list"
  gm_Units :: "Unit list"
  gm_Ssh :: SshData
  gm_Remote :: string

text \<open>An existing uuid, or a new one that is exported.\<close>

definition gammaUuid :: "env \<Rightarrow> stackConfig \<Rightarrow> string io" where
  "gammaUuid env cfg =
     (case sc_uuid cfg of
        None \<Rightarrow>
          bindG (answer (e_uuid env) EvUuid) (\<lambda>nuuid.
          bindG (ctxExport ''uuid'' [Lit nuuid]) (\<lambda>_.
          returnG nuuid))
      | Some cuuid \<Rightarrow> returnG cuuid)"

text \<open>The loop over the units of the configuration, which prints each converted unit.\<close>

definition gammaUnits :: "(string \<Rightarrow> goerr + int) \<Rightarrow> UserUnit list \<Rightarrow> Unit list io" where
  "gammaUnits ram userunits =
     forG userunits (\<lambda>uu units.
       bindG (orFail (toUnit ram uu)) (\<lambda>u.
       bindG (printG (formatUnit u @ newline)) (\<lambda>_.
       returnG (units @ [u])))) []"

definition gammaBuild :: "env \<Rightarrow> string \<Rightarrow> unit io" where
  "gammaBuild env remoteFile =
     osExec env ''go''
       [''build'', ''-ldflags=-extldflags -static -s -w -X main.Main=remote'', ''-o'', remoteFile]
       [''CGO_ENABLED=0'', ''GOARCH=amd64'', ''GOOS=linux'']"

definition gammaFinish :: "env \<Rightarrow> string \<Rightarrow> string \<Rightarrow> unit io" where
  "gammaFinish env remoteFile name =
     bindG (ctxExport ''remote'' [Lit remoteFile]) (\<lambda>_.
     registerComponent env SGammaComponent ''shenanigans:universe:Universe'' name)"

definition newGamma ::
  "(string \<Rightarrow> string \<Rightarrow> SshData io) \<Rightarrow> env \<Rightarrow> (string \<Rightarrow> goerr + int) \<Rightarrow> stackConfig \<Rightarrow>
     string \<Rightarrow> string \<Rightarrow> Gamma io" where
  "newGamma ca env ram cfg stack name =
     bindG (gammaUuid env cfg) (\<lambda>suuid.
     bindG (ctxExport ''name'' [Lit stack]) (\<lambda>_.
     let baseDir = pathJoin [e_cacheHome env, ''shenanigans''];
         prefix = pathJoin [baseDir, ''instances'', suuid] in
     bindG (ctxExport ''prefix'' [Lit prefix]) (\<lambda>_.
     bindG (osMkdirAll env prefix) (\<lambda>_.
     bindG (tryG (newResource env (res SGammaRm suuid [(''delete'', str (''rm -fr '' @ prefix))] []))) (\<lambda>_.
     let tmp = pathJoin [prefix, ''tmp''] in
     bindG (osMkdirAll env tmp) (\<lambda>_.
     let artifacts = pathJoin [prefix, ''artifacts''] in
     bindG (ctxExport ''artifacts'' [Lit artifacts]) (\<lambda>_.
     bindG (osMkdirAll env artifacts) (\<lambda>_.
     let instance' = pathJoin [prefix, ''instance''] in
     bindG (osMkdirAll env instance') (\<lambda>_.
     let cache = pathJoin [baseDir, ''cache''] in
     bindG (osMkdirAll env cache) (\<lambda>_.
     bindG (requireObject (sc_inputs cfg)) (\<lambda>inputs.
     bindG (requireObject (sc_units cfg)) (\<lambda>userunits.
     bindG (gammaUnits ram userunits) (\<lambda>units.
     bindG (cacheInputs env inputs) (\<lambda>_.
     let sshDir = pathJoin [artifacts, ''ssh''] in
     bindG (ctxExport ''sshDir'' [Lit sshDir]) (\<lambda>_.
     bindG (osMkdirAll env sshDir) (\<lambda>_.
     bindG (ca suuid artifacts) (\<lambda>sshKey.
     let remoteFile = pathJoin [artifacts, ''go'', ''remote''] in
     bindG (gammaBuild env remoteFile) (\<lambda>_.
     bindG (gammaFinish env remoteFile name) (\<lambda>_.
     returnG \<lparr>gm_Uuid = suuid, gm_Prefix = prefix, gm_Tmp = tmp, gm_Artifacts = artifacts,
              gm_Instance = instance', gm_Cache = cache, gm_Inputs = inputs, gm_Units = units,
              gm_Ssh = sshKey, gm_Remote = remoteFile\<rparr>)))))))))))))))))))"

section \<open>What is exported\<close>

text \<open>\<open>exported xs w\<close>: at least these outputs; exports are only ever added.\<close>

definition exported :: "(string \<times> outval) list \<Rightarrow> world \<Rightarrow> bool" where
  "exported xs w \<longleftrightarrow> set xs \<subseteq> set (exports w)"

lemma wp_exported:
  assumes "within grows m" and "exported xs s" and "\<And>a t. exported xs t \<Longrightarrow> wp (k a) Q (\<lambda>_. True) t"
  shows "wp (bindG m k) Q (\<lambda>_. True) s"
proof (intro wp_bind wp_within [OF assms(1)] assms(3))
  fix t assume "grows s t"
  with assms(2) show "exported xs t" by (auto simp: grows_def exported_def dest: set_mono_prefix)
qed simp

lemma wp_export:
  assumes "exported xs s" and "\<And>t. exported ((n, v) # xs) t \<Longrightarrow> wp (k ()) Q E t"
  shows "wp (bindG (ctxExport n v) k) Q E s"
proof -
  have "exported ((n, v) # xs) (snd (ctxExport n v s))"
    using assms(1) by (auto simp: ctxExport_def modifyW_def exported_def)
  from assms(2) [OF this] show ?thesis by (simp add: wp_def ctxExport_def modifyW_def bindG_def)
qed

lemma within_gamma [grow_frame]:
  "within grows (requireObject r)" "within grows (gammaUnits ram uus)" "within grows (cacheInputs env inputs)"
  "within grows (gammaBuild env f)" "within grows (tryG (newResource env x))"
  unfolding requireObject_def gammaUnits_def orFail_def cacheInputs_def gammaBuild_def
  by (auto intro!: grow_frame split: option.split)

lemma wp_gammaUuid:
  assumes "\<And>u t. exported (case sc_uuid cfg of None \<Rightarrow> [(''uuid'', [Lit u])] | Some _ \<Rightarrow> []) t \<Longrightarrow>
      (\<forall>v. sc_uuid cfg = Some v \<longrightarrow> u = v) \<Longrightarrow> Q u t"
  shows "wp (gammaUuid env cfg) Q (\<lambda>_. True) s"
  using assms
  by (auto simp: gammaUuid_def wp_def bindG_def go_defs ctxExport_def exported_def split: option.split)

text \<open>Everything a successful run makes known, from its uuid.\<close>

definition gammaPlaces :: "env \<Rightarrow> string \<Rightarrow> (string \<times> string) list" where
  "gammaPlaces env u =
     (let base = pathJoin [e_cacheHome env, ''shenanigans'']; pre = pathJoin [base, ''instances'', u];
          a = pathJoin [pre, ''artifacts''] in
      [(''prefix'', pre), (''artifacts'', a), (''sshDir'', pathJoin [a, ''ssh'']), (''remote'', pathJoin [a, ''go'', ''remote'']),
       (''tmp'', pathJoin [pre, ''tmp'']), (''instance'', pathJoin [pre, ''instance'']), (''cache'', pathJoin [base, ''cache''])])"

definition placesOf :: "Gamma \<Rightarrow> (string \<times> string) list" where
  "placesOf g = [(''prefix'', gm_Prefix g), (''artifacts'', gm_Artifacts g),
     (''sshDir'', pathJoin [gm_Artifacts g, ''ssh'']), (''remote'', gm_Remote g),
     (''tmp'', gm_Tmp g), (''instance'', gm_Instance g), (''cache'', gm_Cache g)]"

lemma wp_newGamma:
  assumes "\<And>u a. within grows (ca u a)"
  shows "wp (newGamma ca env ram cfg stack name)
    (\<lambda>g t. placesOf g = gammaPlaces env (gm_Uuid g) \<and> (\<forall>v. sc_uuid cfg = Some v \<longrightarrow> gm_Uuid g = v) \<and>
       exported (map (\<lambda>(k, p). (k, [Lit p])) (take 4 (placesOf g))) t \<and>
       (sc_uuid cfg = None \<longrightarrow> exported [(''uuid'', [Lit (gm_Uuid g)])] t)) (\<lambda>_. True) s"
  unfolding newGamma_def gammaFinish_def bindG_assoc Let_def
  apply (rule wp_bind, rule wp_gammaUuid)
  apply (erule wp_export | (rule wp_exported, rule os_grow within_gamma within_registerComponent assms, assumption))+
  apply (rule wp_return)
  apply (auto simp: exported_def placesOf_def gammaPlaces_def Let_def)
  done

lemma newGamma_Ok:
  assumes "\<And>u a. within grows (ca u a)" and "newGamma ca env ram cfg stack name s = (Ok g, t)"
  shows "placesOf g = gammaPlaces env (gm_Uuid g) \<and> (\<forall>v. sc_uuid cfg = Some v \<longrightarrow> gm_Uuid g = v) \<and>
    exported (map (\<lambda>(k, p). (k, [Lit p])) (take 4 (placesOf g))) t \<and>
    (sc_uuid cfg = None \<longrightarrow> exported [(''uuid'', [Lit (gm_Uuid g)])] t)"
  using wp_Ok [OF wp_newGamma [OF assms(1)] assms(2)] .

lemma gammaPlaces_named:
  assumes "rooted (e_cacheHome env)" and "plainName u"
  shows "gammaPlaces env u =
    (let base = parts (e_cacheHome env) @ [''shenanigans'']; pre = base @ [''instances'', u]; a = pre @ [''artifacts''] in
     map (\<lambda>(k, p). (k, absPath p))
       [(''prefix'', pre), (''artifacts'', a), (''sshDir'', a @ [''ssh'']), (''remote'', a @ [''go'', ''remote'']),
        (''tmp'', pre @ [''tmp'']), (''instance'', pre @ [''instance'']), (''cache'', base @ [''cache''])])"
proof -
  have plain: "plainName ''shenanigans''" "plainName ''tmp''" "plainName ''artifacts''" "plainName ''ssh''" "plainName ''go''"
    "plainName ''instance''" "plainName ''instances''" "plainName ''cache''" "plainName ''remote''" by (simp_all add: plainName_def)
  have "\<forall>c\<in>set (parts (e_cacheHome env)). plainName c" by (rule parts_rooted_plain [OF assms(1)])
  with plain assms show ?thesis by (simp add: gammaPlaces_def Let_def pathJoin_plain parts_absPath)
qed

section \<open>What the universe does not export\<close>

text \<open>No output called \<open>uuid\<close> is added, however the call ends.\<close>

abbreviation noUuid :: "world \<Rightarrow> world \<Rightarrow> bool" where
  "noUuid \<equiv> seen exports (\<lambda>e. fst e = ''uuid'') []"

named_theorems uuid_frame
declare silence.within_intros [uuid_frame]

lemma uuid_deploy: "within sameDeploy m \<Longrightarrow> within noUuid m"
  by (auto simp: within_def sameDeploy_def seen_def)

lemma uuid_engine [uuid_frame]:
  "within noUuid (newResource env r)" "within noUuid (registerComponent env st ty nm)"
  "k \<noteq> ''uuid'' \<Longrightarrow> within noUuid (ctxExport k v)"
  by (auto simp: registerComponent_def newResource_def ctxExport_def within_def seen_def bindG_def go_defs
      split: option.split)

lemma uuid_world [uuid_frame]:
  "within noUuid (answer g ev)" "within noUuid getW" "within noUuid (request env ev)"
  "within noUuid (osMkdirAll env d)" "within noUuid (osLink env a b)" "within noUuid (osWriteFile env p d' m)"
  "within noUuid (osExec env c xs vs)" "within noUuid (cacheInput env input)" "within noUuid (randomString env n)"
  by (intro uuid_deploy deploy_frame)+

lemma uuid_artifacts [uuid_frame]: "within noUuid (modifyW (\<lambda>w. w\<lparr>artifacts := f w\<rparr>))"
  by (simp add: within_def modifyW_def seen_def)

lemma uuid_artifact [uuid_frame]: "within noUuid (registerArtifact env st dir)"
  unfolding registerArtifact_def Let_def by (intro uuid_frame)

lemma uuid_start [uuid_frame]:
  "within noUuid (newState env dir suuid)" "within noUuid (requireObject r)" "within noUuid (orFail p)"
  "within noUuid (convertUnits ram uus)" "within noUuid (cacheInputs env inputs)" "within noUuid (buildRemote env state)"
  "within noUuid (dnsHosts hs)"
  unfolding newState_def requireObject_def orFail_def convertUnits_def cacheInputs_def buildRemote_def dnsHosts_def Let_def
  by (auto intro!: uuid_frame split: option.split)

lemma uuid_shared [uuid_frame]:
  "within noUuid (newSsh env state name)" "within noUuid (setupShared env state netconfig)"
  unfolding newSsh_def setupSshCa_def ssh_defs setupShared_def
  by (auto intro!: uuid_frame)

lemma not_uuid [simp]: "xs @ CHR ''-'' # ys \<noteq> ''uuid''" "xs @ CHR '':'' # ys \<noteq> ''uuid''"
proof -
  have "xs @ c # ys \<noteq> k" if "c \<notin> set k" for c and k :: string using that by auto
  then show "xs @ CHR ''-'' # ys \<noteq> ''uuid''" "xs @ CHR '':'' # ys \<noteq> ''uuid''" by simp_all
qed

lemma uuid_vm [uuid_frame]:
  "within noUuid (configSetup env state unit config shared)"
  "within noUuid (vmDomain env state unit config shared key netconfig v idx)"
  "within noUuid (vmRemote env state key h d)" "within noUuid (vmOnline env unit key h d us)"
  "within noUuid (vmLogs env state key h d ds)" "within noUuid (vmInputs env state key d inputs ds)"
  unfolding configSetup_def vmDomain_def userData_def metaData_def vmRemote_def vmOnline_def vmLogs_def
    vmInputs_def vmInput_def Let_def
  by (auto intro!: uuid_frame split: sum.split)

lemma uuid_vms [uuid_frame]: "within noUuid (setupVmsV env state unit shared key inputs netconfig)"
  unfolding setupVmsV_def setupConfigV_def setupVmV_def Let_def
  by (auto intro!: uuid_frame split: prod.split)

lemma uuid_unit [uuid_frame]: "within noUuid (libvirtUnit env state unit shared key inputs netconfig)"
  unfolding libvirtUnit_values libvirtUnitV_def unitSshConfig_def unitK8sV_def unitOnlineV_def unitHelmfileV_def Let_def
  by (auto intro!: uuid_frame split: prod.split)

lemma uuid_provision [uuid_frame]: "within noUuid (provisionUnits env state shared key inputs netconfig units)"
  unfolding provisionUnits_def by (intro uuid_frame)

lemma uuid_universe: "within noUuid (newUniverse env ram cl cfg stack)"
  unfolding newUniverse_def by (intro uuid_frame) auto

text \<open>What it does export.\<close>

lemma wp_exported_noUuid:
  assumes "exported xs s" and "within noUuid m" and "\<And>a t. exported xs t \<Longrightarrow> wp (k a) Q (\<lambda>_. True) t"
  shows "wp (bindG m k) Q (\<lambda>_. True) s"
proof (intro wp_bind wp_within [OF assms(2)] assms(3))
  fix t assume "noUuid s t"
  with assms(1) show "exported xs t" by (auto simp: exported_def seen_def)
qed simp

lemma wp_newUniverse_outputs:
  "wp (newUniverse env ram cl cfg stack)
     (\<lambda>u t. exported [(''base'', [Lit (st_base (uv_State u))]), (''name'', [Lit stack])] t) (\<lambda>_. True) s"
  unfolding newUniverse_def
  apply (rule wp_bind, rule wp_anyway)
  apply (rule wp_export [where xs = "[]"], simp add: exported_def)
  apply (erule wp_export)
  apply (erule wp_exported_noUuid, (intro uuid_frame)[1])+
  apply (rule wp_return)
  apply (simp add: exported_def)
  done

section \<open>Properties\<close>

text \<open>
  C37: a deployment of \<open>NewGamma\<close> can be found again: the uuid it makes is exported, and a run
  configured with it, for whatever inputs, units and stack, uses the same directories, which are
  those of the uuid; only the download cache is common to all deployments.
\<close>

theorem gamma_rerun:
  assumes "\<And>u a. within grows (ca u a)"
    and "newGamma ca env ram cfg stack name s = (Ok g, t)"
    and "newGamma ca env ram' (cfg'\<lparr>sc_uuid := Some (gm_Uuid g)\<rparr>) stack' name' s' = (Ok g', t')"
    and "rooted (e_cacheHome env)" and "plainName (gm_Uuid g)" and "base = parts (e_cacheHome env) @ [''shenanigans'']"
  shows "gm_Uuid g' = gm_Uuid g \<and> placesOf g' = placesOf g \<and>
    gm_Prefix g = absPath (base @ [''instances'', gm_Uuid g]) \<and> gm_Cache g = absPath (base @ [''cache'']) \<and>
    (sc_uuid cfg = None \<longrightarrow> (''uuid'', [Lit (gm_Uuid g)]) \<in> set (exports t)) \<and>
    (''prefix'', [Lit (gm_Prefix g)]) \<in> set (exports t) \<and> (''remote'', [Lit (gm_Remote g)]) \<in> set (exports t)"
proof -
  note g = newGamma_Ok [OF assms(1,2)] and g' = newGamma_Ok [OF assms(1,3)]
  from g' have u: "gm_Uuid g' = gm_Uuid g" by simp
  from g gammaPlaces_named [OF assms(4,5)]
  have "gm_Prefix g = absPath (base @ [''instances'', gm_Uuid g])" "gm_Cache g = absPath (base @ [''cache''])"
    by (simp_all add: placesOf_def Let_def assms(6))
  with g g' u show ?thesis by (simp add: exported_def) (simp add: placesOf_def)
qed

definition sampleCa :: "string \<Rightarrow> string \<Rightarrow> SshData io" where
  "sampleCa u a = setupSshCa calmEnv (pathJoin [a, ''ssh'', ''id_rsa.pub'']) (pathJoin [a, ''ssh'', ''id_rsa''])"

theorem gamma_rerun_witness:
  "\<exists>g t. newGamma sampleCa calmEnv (\<lambda>_. Inr 1) (sampleConfig\<lparr>sc_inputs := Some []\<rparr>) ''dev'' ''n'' emptyWorld = (Ok g, t) \<and>
     gm_Prefix g = ''/h/.cache/shenanigans/instances/u-1'' \<and> (''uuid'', [Lit ''u-1'']) \<in> set (exports t)"
proof -
  let ?cfg = "sampleConfig\<lparr>sc_inputs := Some []\<rparr>"
  let ?run = "\<lambda>cfg. newGamma sampleCa calmEnv (\<lambda>_. Inr 1) cfg ''dev'' ''n'' emptyWorld"
  have "case fst (?run ?cfg) of Ok g \<Rightarrow> gm_Uuid g = ''u-1'' | _ \<Rightarrow> False" by code_simp
  then obtain g t where run: "?run ?cfg = (Ok g, t)" and u: "gm_Uuid g = ''u-1''"
    by (cases "?run ?cfg") (auto split: outcome.splits)
  have "case fst (?run (?cfg\<lparr>sc_uuid := Some ''u-1''\<rparr>)) of Ok _ \<Rightarrow> True | _ \<Rightarrow> False" by code_simp
  then obtain g' t' where run': "?run (?cfg\<lparr>sc_uuid := Some (gm_Uuid g)\<rparr>) = (Ok g', t')"
    unfolding u by (cases "?run (?cfg\<lparr>sc_uuid := Some ''u-1''\<rparr>)") (auto split: outcome.splits)
  have ca: "within grows (sampleCa v a)" for v a unfolding sampleCa_def by (intro grow_frame)
  have home: "rooted (e_cacheHome calmEnv)" and plain: "plainName ''u-1''" and none: "sc_uuid ?cfg = None"
    by code_simp+
  have at: "absPath ((parts (e_cacheHome calmEnv) @ [''shenanigans'']) @ [''instances'', ''u-1'']) =
      ''/h/.cache/shenanigans/instances/u-1''" by code_simp
  from gamma_rerun [OF ca run run' home plain [folded u] refl] none at u run show ?thesis by auto
qed

text \<open>
  C38: the universe does not export its uuid: however the program ends, it has added no output
  called \<open>uuid\<close>, although the comment in the code says that a fresh one is exported and the
  predecessor did so. What a normal return leaves of it is the output \<open>base\<close>, the directory named
  after it.
\<close>

theorem universe_uuid_lost:
  "\<exists>es. exports (snd (newUniverse env ram cl cfg stack s)) = exports s @ es \<and> ''uuid'' \<notin> fst ` set es \<and>
    (case fst (newUniverse env ram cl cfg stack s) of
       Ok u \<Rightarrow> {(''name'', [Lit stack]), (''base'', [Lit (st_base (uv_State u))])} \<subseteq> set (exports s @ es)
     | _ \<Rightarrow> True)"
proof -
  obtain r t where run: "newUniverse env ram cl cfg stack s = (r, t)" by fastforce
  have "noUuid s t" using withinD [OF uuid_universe run] .
  then obtain es where es: "exports t = exports s @ es" "''uuid'' \<notin> fst ` set es"
    by (fastforce simp: seen_def filter_empty_conv)
  moreover have "exported [(''base'', [Lit (st_base (uv_State u))]), (''name'', [Lit stack])] t" if "r = Ok u" for u
    using wp_Ok [OF wp_newUniverse_outputs] run that by fastforce
  ultimately show ?thesis unfolding run by (intro exI [of _ es]) (auto simp: exported_def split: outcome.split)
qed

end
