(* ===== verification/Kube_Client.thy ===== *)
theory Kube_Client
  imports Traces
begin

text \<open>
  \<open>src/pkg/lib/k8s/client.go\<close> and the conversion functions of \<open>whatever.go\<close>: the client that
  applies, reads, patches and deletes objects of any kind. Nothing in the program uses it yet, and
  the package lacks imports (\<open>patcher\<close>, \<open>disk\<close>, \<open>gin\<close>); those three packages, client-go and
  cli-runtime are the parameters \<open>kube_lib\<close>: which call fails, and what a call gives, may depend
  on all calls before it. The client's fields and the object behind the caller's pointer are the
  state: \<open>ApplyWithNamespaceOverride\<close> writes to both.
\<close>

section \<open>Objects, mappings and configuration\<close>

record GroupVersionKind =
  gvk_Group :: string
  gvk_Version :: string
  gvk_Kind :: string

record GroupVersionResource =
  gvr_Group :: string
  gvr_Version :: string
  gvr_Resource :: string

record RESTMapping =
  rm_Resource :: GroupVersionResource
  rm_Namespaced :: bool

text \<open>An \<open>unstructured.Unstructured\<close>: the fields the accessors read, and the rest.\<close>

record kobj =
  ob_Kind :: GroupVersionKind
  ob_Namespace :: string
  ob_Name :: string
  ob_ResourceVersion :: string
  ob_Rest :: kval

record ContentConfig =
  cc_ContentType :: string
  cc_GroupVersion :: "(string \<times> string) option"
  cc_NegotiatedSerializer :: string

record restConfig =
  rc_Host :: string
  rc_APIPath :: string
  rc_ContentConfig :: ContentConfig
  rc_Timeout :: int

record Metadata =
  md_Name :: string
  md_Namespace :: string
  md_Group :: string
  md_Version :: string
  md_Resource :: string
  md_Kind :: string

text \<open>A \<open>resource.Info\<close>; its object is the caller's own (\<open>None\<close>) or one the server sent.\<close>

record info =
  in_Client :: restConfig
  in_Mapping :: RESTMapping
  in_Namespace :: string
  in_Name :: string
  in_Source :: string
  in_Object :: "kobj option"
  in_ResourceVersion :: string

section \<open>Calls\<close>

datatype dynamic_verb =
    DGet string string | DDelete string string | DPatch string string string string | DList string

datatype kcall =
    CRESTMapping string string string | CKindFor string | CResourceFor string | CRESTClientFor restConfig
  | CNewPatcher info | CModified kobj | CAnnotate kobj | CGet string string | CCreate string kobj
  | CPatch kobj string string string | CDynamic GroupVersionResource "string option" dynamic_verb
  | CNewDynamic restConfig | CNewDiscovery restConfig string string int
  | CMarshal kval | CDecode string | CToUnstructured kval

text \<open>
  \<open>Info.Get\<close> and \<open>Info.Refresh\<close> write what the server sent into the \<open>Info\<close>: \<open>kl_got\<close> and
  \<open>kl_refresh\<close> are what they make of it.
\<close>

record kube_lib =
  kl_fault :: "kcall list \<Rightarrow> kcall \<Rightarrow> goerr option"
  kl_mapping :: "string \<Rightarrow> string \<Rightarrow> string \<Rightarrow> kcall list \<Rightarrow> RESTMapping"
  kl_kindFor :: "string \<Rightarrow> kcall list \<Rightarrow> GroupVersionKind"
  kl_resourceFor :: "string \<Rightarrow> kcall list \<Rightarrow> GroupVersionResource"
  kl_content :: ContentConfig
  kl_modified :: "kobj \<Rightarrow> string"
  kl_annotated :: "kobj \<Rightarrow> kval"
  kl_sentVersion :: "kobj \<Rightarrow> string"
  kl_object :: "kcall list \<Rightarrow> kobj"
  kl_got :: "info \<Rightarrow> kobj \<Rightarrow> info"
  kl_refresh :: "info \<Rightarrow> kobj \<Rightarrow> info"
  kl_list :: "kcall list \<Rightarrow> kobj list"

record kclient =
  kc_config :: restConfig
  kc_object :: kobj
  kc_calls :: "kcall list"

type_synonym 'a kio = "(kclient, 'a) go"

definition getK :: "kclient kio" where
  "getK = (\<lambda>s. (Ok s, s))"

definition modifyK :: "(kclient \<Rightarrow> kclient) \<Rightarrow> unit kio" where
  "modifyK f = (\<lambda>s. (Ok (), f s))"

text \<open>A library call: it fails as the library says, or gives a value.\<close>

definition callK :: "kube_lib \<Rightarrow> kcall \<Rightarrow> (kcall list \<Rightarrow> 'a) \<Rightarrow> 'a kio" where
  "callK lib c f = (\<lambda>s. (case kl_fault lib (kc_calls s) c of None \<Rightarrow> Ok (f (kc_calls s)) | Some e \<Rightarrow> Err e,
     s\<lparr>kc_calls := kc_calls s @ [c]\<rparr>))"

section \<open>The namespace of an object\<close>

definition setDefaultNamespaceIfScopedAndNoneSet :: "bool \<Rightarrow> unit kio" where
  "setDefaultNamespaceIfScopedAndNoneSet scoped =
     bindG getK (\<lambda>s.
     let namespace = ob_Namespace (kc_object s) in
     if scoped \<and> namespace = '''' then
       modifyK (\<lambda>s. s\<lparr>kc_object := (kc_object s)\<lparr>ob_Namespace := ''default''\<rparr>\<rparr>)
     else returnG ())"

definition setNamespaceIfScoped :: "string \<Rightarrow> bool \<Rightarrow> unit kio" where
  "setNamespaceIfScoped namespace scoped =
     (if scoped then modifyK (\<lambda>s. s\<lparr>kc_object := (kc_object s)\<lparr>ob_Namespace := namespace\<rparr>\<rparr>) else returnG ())"

section \<open>The rest client\<close>

text \<open>\<open>restConfig\<close> is passed by value. The client is named by the configuration it is made from.\<close>

definition newRestClient :: "kube_lib \<Rightarrow> restConfig \<Rightarrow> string \<times> string \<Rightarrow> restConfig kio" where
  "newRestClient lib restConfig gv =
     (let restConfig = restConfig\<lparr>rc_ContentConfig := (kl_content lib)\<lparr>cc_GroupVersion := Some gv\<rparr>,
            rc_APIPath := (if length (fst gv) = 0 then ''/api'' else ''/apis'')\<rparr> in
      callK lib (CRESTClientFor restConfig) (\<lambda>_. restConfig))"

section \<open>Apply\<close>

definition infoObject :: "info \<Rightarrow> kclient \<Rightarrow> kobj" where
  "infoObject i s = (case in_Object i of None \<Rightarrow> kc_object s | Some obj \<Rightarrow> obj)"

text \<open>
  Creating an object annotates the caller's own first, and the library may reset its resource
  version.
\<close>

definition createObject :: "kube_lib \<Rightarrow> info \<Rightarrow> info kio" where
  "createObject lib i =
     bindG getK (\<lambda>s.
     bindG (callK lib (CAnnotate (kc_object s)) (\<lambda>_. kl_annotated lib (kc_object s))) (\<lambda>rest.
     bindG (modifyK (\<lambda>s. s\<lparr>kc_object := (kc_object s)\<lparr>ob_Rest := rest\<rparr>\<rparr>)) (\<lambda>_.
     bindG (modifyK (\<lambda>s. s\<lparr>kc_object := (kc_object s)\<lparr>ob_ResourceVersion := kl_sentVersion lib (kc_object s)\<rparr>\<rparr>)) (\<lambda>_.
     bindG getK (\<lambda>s.
     bindG (callK lib (CCreate (in_Namespace i) (kc_object s)) (kl_object lib)) (\<lambda>obj.
     returnG (kl_refresh lib i obj)))))))"

definition getOrCreate :: "kube_lib \<Rightarrow> info \<Rightarrow> info kio" where
  "getOrCreate lib i =
     bindG (tryG (callK lib (CGet (in_Namespace i) (in_Name i)) (kl_object lib))) (\<lambda>r.
     (case r of
        Inr obj \<Rightarrow> returnG (kl_got lib i obj)
      | Inl e \<Rightarrow> if e \<noteq> NotExist then failG e else createObject lib i))"

text \<open>The second half of an apply: everything after the namespace is set.\<close>

definition applyNamed :: "kube_lib \<Rightarrow> GroupVersionKind \<Rightarrow> RESTMapping \<Rightarrow> restConfig \<Rightarrow> Metadata kio" where
  "applyNamed lib gvk restMapping restClient =
     (let gvr = rm_Resource restMapping in
     bindG getK (\<lambda>s.
     let u = kc_object s;
         i = \<lparr>in_Client = restClient, in_Mapping = restMapping, in_Namespace = ob_Namespace u, in_Name = ob_Name u,
              in_Source = '''', in_Object = None, in_ResourceVersion = gvr_Version gvr\<rparr> in
     bindG (callK lib (CNewPatcher i) (\<lambda>_. ())) (\<lambda>_.
     bindG (callK lib (CModified u) (\<lambda>_. kl_modified lib u)) (\<lambda>modified.
     bindG (getOrCreate lib i) (\<lambda>i.
     bindG getK (\<lambda>s.
     bindG (callK lib (CPatch (infoObject i s) modified (in_Namespace i) (in_Name i)) (\<lambda>_. ())) (\<lambda>_.
     bindG getK (\<lambda>s.
     let u = kc_object s in
     returnG \<lparr>md_Name = ob_Name u, md_Namespace = ob_Namespace u, md_Group = gvr_Group gvr,
              md_Version = gvr_Version gvr, md_Resource = gvr_Resource gvr, md_Kind = gvk_Kind gvk\<rparr>))))))))"

definition applyWithNamespaceOverride :: "kube_lib \<Rightarrow> string \<Rightarrow> Metadata kio" where
  "applyWithNamespaceOverride lib namespaceOverride =
     bindG getK (\<lambda>s.
     let gvk = ob_Kind (kc_object s) in
     bindG (callK lib (CRESTMapping (gvk_Group gvk) (gvk_Kind gvk) (gvk_Version gvk))
              (kl_mapping lib (gvk_Group gvk) (gvk_Kind gvk) (gvk_Version gvk))) (\<lambda>restMapping.
     let gv = (gvk_Group gvk, gvk_Version gvk) in
     bindG (modifyK (\<lambda>s. s\<lparr>kc_config := (kc_config s)\<lparr>rc_ContentConfig :=
              (rc_ContentConfig (kc_config s))\<lparr>cc_GroupVersion := Some gv\<rparr>\<rparr>\<rparr>)) (\<lambda>_.
     bindG getK (\<lambda>s.
     bindG (newRestClient lib (kc_config s) gv) (\<lambda>restClient.
     bindG (if namespaceOverride = '''' then setDefaultNamespaceIfScopedAndNoneSet (rm_Namespaced restMapping)
            else setNamespaceIfScoped namespaceOverride (rm_Namespaced restMapping)) (\<lambda>_.
     applyNamed lib gvk restMapping restClient))))))"

definition applyObject :: "kube_lib \<Rightarrow> Metadata kio" where
  "applyObject lib = applyWithNamespaceOverride lib ''''"

section \<open>Reading, listing, patching, deleting\<close>

text \<open>What the three operations by kind do first.\<close>

definition resolveKind :: "kube_lib \<Rightarrow> string \<Rightarrow> (GroupVersionKind \<times> RESTMapping) kio" where
  "resolveKind lib kind =
     bindG (callK lib (CKindFor kind) (kl_kindFor lib kind)) (\<lambda>gvk.
     bindG (callK lib (CRESTMapping (gvk_Group gvk) (gvk_Kind gvk) (gvk_Version gvk))
              (kl_mapping lib (gvk_Group gvk) (gvk_Kind gvk) (gvk_Version gvk))) (\<lambda>restMapping.
     bindG getK (\<lambda>s.
     bindG (newRestClient lib (kc_config s) (gvk_Group gvk, gvk_Version gvk)) (\<lambda>_.
     returnG (gvk, restMapping)))))"

definition dynamicScope :: "RESTMapping \<Rightarrow> string \<Rightarrow> string option" where
  "dynamicScope restMapping namespace = (if rm_Namespaced restMapping then Some namespace else None)"

definition deleteResource :: "kube_lib \<Rightarrow> string \<Rightarrow> string \<Rightarrow> string \<Rightarrow> string \<Rightarrow> unit kio" where
  "deleteResource lib kind name namespace opts =
     bindG (resolveKind lib kind) (\<lambda>(gvk, restMapping).
     callK lib (CDynamic (rm_Resource restMapping) (dynamicScope restMapping namespace) (DDelete name opts)) (\<lambda>_. ()))"

definition getResource :: "kube_lib \<Rightarrow> string \<Rightarrow> string \<Rightarrow> string \<Rightarrow> kobj kio" where
  "getResource lib kind name namespace =
     bindG (resolveKind lib kind) (\<lambda>(gvk, restMapping).
     callK lib (CDynamic (rm_Resource restMapping) (dynamicScope restMapping namespace) (DGet name ''''))
       (kl_object lib))"

definition gvrForKind :: "kube_lib \<Rightarrow> string \<Rightarrow> GroupVersionResource kio" where
  "gvrForKind lib kind = callK lib (CResourceFor kind) (kl_resourceFor lib kind)"

definition listByGVR :: "kube_lib \<Rightarrow> GroupVersionResource \<Rightarrow> string \<Rightarrow> kobj list kio" where
  "listByGVR lib gvr opts = callK lib (CDynamic gvr None (DList opts)) (kl_list lib)"

definition listResource :: "kube_lib \<Rightarrow> string \<Rightarrow> string \<Rightarrow> kobj list kio" where
  "listResource lib kind opts =
     bindG (gvrForKind lib kind) (\<lambda>gvr. callK lib (CDynamic gvr None (DList opts)) (kl_list lib))"

definition patchUsingStrategy ::
  "kube_lib \<Rightarrow> string \<Rightarrow> string \<Rightarrow> string \<Rightarrow> string \<Rightarrow> string \<Rightarrow> (Metadata \<times> kobj) kio" where
  "patchUsingStrategy lib kind name namespace p strategy =
     bindG (resolveKind lib kind) (\<lambda>(gvk, restMapping).
     bindG (callK lib (CDynamic (rm_Resource restMapping) (dynamicScope restMapping namespace)
              (DPatch name strategy p '''')) (kl_object lib)) (\<lambda>u.
     let gvr = rm_Resource restMapping in
     returnG (\<lparr>md_Name = ob_Name u, md_Namespace = ob_Namespace u, md_Group = gvr_Group gvr,
               md_Version = gvr_Version gvr, md_Resource = gvr_Resource gvr, md_Kind = gvk_Kind gvk\<rparr>, u)))"

definition patch :: "kube_lib \<Rightarrow> string \<Rightarrow> string \<Rightarrow> string \<Rightarrow> string \<Rightarrow> (Metadata \<times> kobj) kio" where
  "patch lib kind name namespace p =
     patchUsingStrategy lib kind name namespace p ''application/strategic-merge-patch+json''"

section \<open>Conversion\<close>

text \<open>\<open>ToUnstructured\<close>: marshal, decode, convert; each result is the library's.\<close>

definition toUnstructured ::
  "kube_lib \<Rightarrow> (kval \<Rightarrow> string) \<Rightarrow> (string \<Rightarrow> kval) \<Rightarrow> (kval \<Rightarrow> kobj) \<Rightarrow> kval \<Rightarrow> kobj kio" where
  "toUnstructured lib marshal decode convert manifest =
     bindG (callK lib (CMarshal manifest) (\<lambda>_. marshal manifest)) (\<lambda>b.
     bindG (callK lib (CDecode b) (\<lambda>_. decode b)) (\<lambda>obj.
     callK lib (CToUnstructured obj) (\<lambda>_. convert obj)))"

end
