(* ===== verification/Kube_Laws.thy ===== *)
theory Kube_Laws
  imports Kube_Client
begin

text \<open>
  What the Kubernetes client does to the object it is given, which requests it sends, and that the
  configuration its operations share does not matter to them.
\<close>

section \<open>Facts\<close>

lemma wp_callK:
  assumes "kl_fault lib (kc_calls s) c = None \<Longrightarrow> Q (f (kc_calls s)) (s\<lparr>kc_calls := kc_calls s @ [c]\<rparr>)"
    and "E (s\<lparr>kc_calls := kc_calls s @ [c]\<rparr>)"
  shows "wp (callK lib c f) Q E s"
  using assms by (simp add: wp_def callK_def split: option.split)

lemma wp_getK: "Q s s \<Longrightarrow> wp getK Q E s"
  by (simp add: wp_def getK_def)

lemma wp_modifyK: "Q () (f s) \<Longrightarrow> wp (modifyK f) Q E s"
  by (simp add: wp_def modifyK_def)

text \<open>The namespace an object is applied in, from its own, the override and its mapping.\<close>

definition appliedNamespace :: "RESTMapping \<Rightarrow> string \<Rightarrow> string \<Rightarrow> string" where
  "appliedNamespace m override own =
     (if \<not> rm_Namespaced m then own
      else if override \<noteq> '''' then override
      else if own = '''' then ''default'' else own)"

text \<open>Kind, name and namespace of the caller's object; only the namespace step changes them.\<close>

definition sameIdentity :: "kclient \<Rightarrow> kclient \<Rightarrow> bool" where
  "sameIdentity s t \<longleftrightarrow> ob_Kind (kc_object t) = ob_Kind (kc_object s) \<and> ob_Name (kc_object t) = ob_Name (kc_object s) \<and>
     ob_Namespace (kc_object t) = ob_Namespace (kc_object s)"

interpretation identity: step_rel sameIdentity
  by unfold_locales (simp_all add: sameIdentity_def)

named_theorems identity_frame
declare identity.within_intros [identity_frame]

lemma identity_calls [identity_frame]:
  "within sameIdentity (callK lib c f)" "within sameIdentity getK"
  "within sameIdentity (modifyK (\<lambda>s. s\<lparr>kc_object := (kc_object s)\<lparr>ob_Rest := rest\<rparr>\<rparr>))"
  "within sameIdentity (modifyK (\<lambda>s. s\<lparr>kc_object := (kc_object s)\<lparr>ob_ResourceVersion := g s\<rparr>\<rparr>))"
  "within sameIdentity (modifyK (\<lambda>s. s\<lparr>kc_config := h s\<rparr>))"
  by (simp_all add: within_def callK_def getK_def modifyK_def sameIdentity_def)

lemma identity_create [identity_frame]:
  "within sameIdentity (createObject lib i)" "within sameIdentity (newRestClient lib cfg gv)"
  unfolding createObject_def newRestClient_def Let_def by (intro identity_frame)+

lemma identity_getOrCreate [identity_frame]: "within sameIdentity (getOrCreate lib i)"
  unfolding getOrCreate_def by (auto intro!: identity_frame split: sum.split)

lemma wp_namespace:
  assumes "\<And>t. kc_calls t = kc_calls s \<Longrightarrow> kc_config t = kc_config s \<Longrightarrow>
      kc_object t = (kc_object s)\<lparr>ob_Namespace := appliedNamespace m ns (ob_Namespace (kc_object s))\<rparr> \<Longrightarrow> Q () t"
  shows "wp (if ns = '''' then setDefaultNamespaceIfScopedAndNoneSet (rm_Namespaced m)
      else setNamespaceIfScoped ns (rm_Namespaced m)) Q E s"
  unfolding setDefaultNamespaceIfScopedAndNoneSet_def setNamespaceIfScoped_def Let_def
  by (intro wp_if wp_bind wp_getK wp_modifyK wp_return assms) (auto simp: appliedNamespace_def)

lemma applyNamed_identity: "within sameIdentity (applyNamed lib gvk m c)"
  unfolding applyNamed_def Let_def by (intro identity_frame)

lemma applyNamed_run:
  "wp (applyNamed lib gvk m c) (\<lambda>md t. sameIdentity s t \<and>
     md = \<lparr>md_Name = ob_Name (kc_object s), md_Namespace = ob_Namespace (kc_object s), md_Group = gvr_Group (rm_Resource m),
       md_Version = gvr_Version (rm_Resource m), md_Resource = gvr_Resource (rm_Resource m), md_Kind = gvk_Kind gvk\<rparr>)
     (\<lambda>t. sameIdentity s t) s"
proof -
  have "wp (applyNamed lib gvk m c) (\<lambda>md t.
     md = \<lparr>md_Name = ob_Name (kc_object t), md_Namespace = ob_Namespace (kc_object t), md_Group = gvr_Group (rm_Resource m),
       md_Version = gvr_Version (rm_Resource m), md_Resource = gvr_Resource (rm_Resource m), md_Kind = gvk_Kind gvk\<rparr>)
     (\<lambda>_. True) s"
    unfolding applyNamed_def Let_def
    apply (rule wp_bind, rule wp_getK)
    apply (rule wp_bind, rule wp_anyway, rule wp_bind, rule wp_anyway, rule wp_bind, rule wp_anyway)
    apply (rule wp_bind, rule wp_anyway, rule wp_bind, rule wp_anyway)
    apply (rule wp_bind, rule wp_getK, rule wp_return, rule refl)
    done
  moreover obtain r t where "applyNamed lib gvk m c s = (r, t)" by fastforce
  moreover from withinD [OF applyNamed_identity this] have "sameIdentity s t" .
  ultimately show ?thesis by (cases r) (simp_all add: wp_def sameIdentity_def)
qed

text \<open>The requests to the server, by their verbs.\<close>

fun verbOf :: "kcall \<Rightarrow> string list" where
  "verbOf (CGet _ _) = [''get'']"
| "verbOf (CCreate _ _) = [''create'']"
| "verbOf (CPatch _ _ _ _) = [''patch'']"
| "verbOf (CDynamic _ _ _) = [''dynamic'']"
| "verbOf _ = []"

definition serverVerbs :: "kcall list \<Rightarrow> string list" where
  "serverVerbs cs = concat (map verbOf cs)"

lemma serverVerbs_simps [simp]:
  "serverVerbs [] = []" "serverVerbs (c # cs) = verbOf c @ serverVerbs cs" "serverVerbs (cs @ ds) = serverVerbs cs @ serverVerbs ds"
  by (simp_all add: serverVerbs_def)

text \<open>\<open>sends vs s t\<close>: the calls from \<open>s\<close> to \<open>t\<close> send these requests.\<close>

definition sends :: "string list \<Rightarrow> kclient \<Rightarrow> kclient \<Rightarrow> bool" where
  "sends vs s t \<longleftrightarrow> (\<exists>cs. kc_calls t = kc_calls s @ cs \<and> serverVerbs cs = vs)"

lemma sends_refl [simp]: "sends [] s s"
  by (simp add: sends_def)

lemma sends_trans: "sends vs s t \<Longrightarrow> sends ws t u \<Longrightarrow> sends (vs @ ws) s u"
  by (auto simp: sends_def)

lemma sends_call: "sends vs s t \<Longrightarrow> verbOf c = ws \<Longrightarrow> kc_calls u = kc_calls t @ [c] \<Longrightarrow> sends (vs @ ws) s u"
  by (auto simp: sends_def)

lemma sends_same: "sends vs s t \<Longrightarrow> kc_calls u = kc_calls t \<Longrightarrow> sends vs s u"
  by (simp add: sends_def)

lemma wp_createObject_sends:
  "wp (createObject lib i) (\<lambda>_. sends [''create''] s) (\<lambda>t. sends [] s t \<or> sends [''create''] s t) s"
  unfolding createObject_def
  by (intro wp_bind wp_getK wp_callK wp_modifyK wp_return) (simp_all add: sends_def)

definition missing :: "kube_lib \<Rightarrow> kcall list \<Rightarrow> kcall \<Rightarrow> bool" where
  "missing lib h c \<longleftrightarrow> kl_fault lib h c = Some NotExist"

lemma wp_getOrCreate_sends:
  assumes c: "c = CGet (in_Namespace i) (in_Name i)" and m: "v = (if missing lib (kc_calls s) c then [''get'', ''create''] else [''get''])"
  shows "wp (getOrCreate lib i) (\<lambda>_ t. prefix (kc_calls s @ [c]) (kc_calls t) \<and> sends v s t)
     (\<lambda>t. \<exists>vs. prefix vs v \<and> vs \<noteq> [] \<and> prefix (kc_calls s @ [c]) (kc_calls t) \<and> sends vs s t) s"
proof -
  let ?t = "s\<lparr>kc_calls := kc_calls s @ [c]\<rparr>"
  have get: "sends [''get''] s ?t" by (simp add: sends_def c)
  show ?thesis
  proof (cases "kl_fault lib (kc_calls s) c")
    case None
    then have "snd (getOrCreate lib i s) = ?t" "\<exists>i'. fst (getOrCreate lib i s) = Ok i'"
      by (simp_all add: getOrCreate_def bindG_def tryG_def callK_def returnG_def c)
    with get None m show ?thesis by (auto simp: wp_def missing_def split: prod.split)
  next
    case (Some e)
    then have run: "getOrCreate lib i s = (if e \<noteq> NotExist then failG e else createObject lib i) ?t"
      by (simp add: getOrCreate_def bindG_def tryG_def callK_def c)
    show ?thesis
    proof (cases "e = NotExist")
      case False
      with run get m Some show ?thesis by (auto simp: wp_def failG_def missing_def intro!: exI [of _ "[''get'']"])
    next
      case True
      have more: "sends (''get'' # vs) s u" "prefix (kc_calls s @ [c]) (kc_calls u)" if "sends vs ?t u" for vs u
        using sends_trans [OF get that] that by (auto simp: sends_def prefix_def)
      have v: "v = [''get'', ''create'']" using True Some m by (simp add: missing_def)
      have "wp (createObject lib i) (\<lambda>_ t. prefix (kc_calls s @ [c]) (kc_calls t) \<and> sends v s t)
        (\<lambda>t. \<exists>vs. prefix vs v \<and> vs \<noteq> [] \<and> prefix (kc_calls s @ [c]) (kc_calls t) \<and> sends vs s t) ?t"
      proof (rule wp_weaken [OF wp_createObject_sends])
        fix u assume "sends [] ?t u \<or> sends [''create''] ?t u"
        then have "sends [''get''] s u \<or> sends v s u" "prefix (kc_calls s @ [c]) (kc_calls u)" using more v by blast+
        moreover have "prefix [''get''] v" "prefix v v" "v \<noteq> []" by (simp_all add: v)
        ultimately show "\<exists>vs. prefix vs v \<and> vs \<noteq> [] \<and> prefix (kc_calls s @ [c]) (kc_calls u) \<and> sends vs s u" by blast
      qed (simp add: v more)
      with run True show ?thesis by (simp add: wp_def)
    qed
  qed
qed

definition applyPlan :: "kube_lib \<Rightarrow> kcall list \<Rightarrow> kcall \<Rightarrow> string list" where
  "applyPlan lib h c = (if missing lib h c then [''get'', ''create'', ''patch''] else [''get'', ''patch''])"

text \<open>
  The requests of an apply: the plan is that of the answer to the question \<open>c\<close>, asked after the
  calls \<open>h\<close>.
\<close>

definition planned :: "kube_lib \<Rightarrow> kcall list \<Rightarrow> kcall \<Rightarrow> string list \<Rightarrow> kclient \<Rightarrow> kclient \<Rightarrow> bool" where
  "planned lib h c vs s t \<longleftrightarrow> prefix (kc_calls s) h \<and> prefix vs (applyPlan lib h c) \<and> sends vs s t \<and>
     (vs \<noteq> [] \<longrightarrow> prefix (h @ [c]) (kc_calls t))"

lemma planned_later: "planned lib h c vs w t \<Longrightarrow> sends [] s w \<Longrightarrow> planned lib h c vs s t"
  using sends_trans [of "[]" s w vs t] by (auto simp: planned_def sends_def prefix_def)

lemma planned_none: "sends [] s t \<Longrightarrow> \<exists>h vs. planned lib h c vs s t"
  by (rule exI [of _ "kc_calls s"], rule exI [of _ "[]"]) (simp add: planned_def)

lemma applyNamed_sends:
  assumes "c = CGet (ob_Namespace (kc_object s)) (ob_Name (kc_object s))"
  shows "wp (applyNamed lib gvk m rc)
     (\<lambda>_ t. \<exists>h. planned lib h c (applyPlan lib h c) s t) (\<lambda>t. \<exists>h vs. planned lib h c vs s t) s"
proof -
  let ?u = "kc_object s"
  let ?i = "\<lparr>in_Client = rc, in_Mapping = m, in_Namespace = ob_Namespace ?u, in_Name = ob_Name ?u,
              in_Source = '''', in_Object = None, in_ResourceVersion = gvr_Version (rm_Resource m)\<rparr>"
  let ?h = "kc_calls s @ [CNewPatcher ?i, CModified ?u]"
  let ?v = "if missing lib ?h c then [''get'', ''create''] else [''get'']"
  have pl: "applyPlan lib ?h c = ?v @ [''patch'']" by (simp add: applyPlan_def)
  have patch: "\<exists>h. planned lib h c (applyPlan lib h c) s u"
    if "prefix (?h @ [c]) (kc_calls t)" "sends ?v (s\<lparr>kc_calls := ?h\<rparr>) t" "kc_calls u = kc_calls t @ [CPatch a b d e]"
    for t u a b d e
    unfolding planned_def by (rule exI [of _ ?h]) (use that in \<open>auto simp: pl sends_def prefix_def\<close>)
  have failed: "\<exists>h vs. planned lib h c vs s u"
    if "prefix (?h @ [c]) (kc_calls t)" "sends ?v (s\<lparr>kc_calls := ?h\<rparr>) t" "kc_calls u = kc_calls t @ [CPatch a b d e]"
    for t u a b d e
    using patch [OF that] by blast
  have get: "\<exists>h vs. planned lib h c vs s t"
    if "prefix vs ?v" "prefix (?h @ [c]) (kc_calls t)" "sends vs (s\<lparr>kc_calls := ?h\<rparr>) t" for vs t
    unfolding planned_def
    by (rule exI [of _ ?h], rule exI [of _ vs]) (use that pl in \<open>auto simp: sends_def\<close>)
  show ?thesis
    unfolding applyNamed_def Let_def
    apply (intro wp_bind wp_getK wp_callK)
      apply (rule wp_weaken [OF wp_getOrCreate_sends [OF _ refl, where c = c]])
        apply (simp add: assms)
       apply (intro wp_bind wp_getK wp_callK wp_return)
        subgoal by (erule conjE, rule patch) simp_all
       subgoal by (erule conjE, rule failed) simp_all
      subgoal by (elim exE conjE, rule get) simp_all
     subgoal by (rule planned_none) (simp add: sends_def)
    subgoal by (rule planned_none) (simp add: sends_def)
    done
qed

lemma applyNamed_plan:
  assumes "c = CGet (ob_Namespace (kc_object w)) (ob_Name (kc_object w))" and "sends [] s w"
  shows "wp (applyNamed lib gvk m rc)
     (\<lambda>_ t. \<exists>h. planned lib h c (applyPlan lib h c) s t) (\<lambda>t. \<exists>h vs. planned lib h c vs s t) w"
  by (rule wp_weaken [OF applyNamed_sends [OF assms(1)]]) (use planned_later [OF _ assms(2)] in blast)+

text \<open>
  The calls whose failure ends an apply: all, except that the object asked for may be missing.
\<close>

fun refusedCall :: "kube_lib \<Rightarrow> kcall list \<Rightarrow> kcall \<Rightarrow> bool" where
  "refusedCall lib h (CGet ns n) \<longleftrightarrow> kl_fault lib h (CGet ns n) \<notin> {None, Some NotExist}"
| "refusedCall lib h c \<longleftrightarrow> kl_fault lib h c \<noteq> None"

lemma halts_callK [halts_intros]:
  assumes "\<And>h. refusedCall lib h c \<Longrightarrow> kl_fault lib h c \<noteq> None"
  shows "halts kc_calls (refusedCall lib) (callK lib c f)"
  by (rule haltsI) (use assms in \<open>force simp: wp_def callK_def split: option.split\<close>)

lemma refusedCall_fault: "refusedCall lib h c \<Longrightarrow> kl_fault lib h c \<noteq> None"
  by (cases c) auto

lemma halts_kio [halts_intros]:
  "halts kc_calls bad getK"
  "(\<And>s. kc_calls (g s) = kc_calls s) \<Longrightarrow> halts kc_calls bad (modifyK g)"
  by (auto intro!: haltsI simp: wp_def getK_def modifyK_def)

lemma halts_create [halts_intros]: "halts kc_calls (refusedCall lib) (createObject lib i)"
  unfolding createObject_def by (intro halts_intros) (simp_all add: refusedCall_fault)

lemma halts_getOrCreate [halts_intros]: "halts kc_calls (refusedCall lib) (getOrCreate lib i)"
proof (rule haltsI)
  fix s :: kclient
  let ?c = "CGet (in_Namespace i) (in_Name i)"
  let ?t = "s\<lparr>kc_calls := kc_calls s @ [?c]\<rparr>"
  let ?Q = "\<lambda>t. \<exists>es. kc_calls t = kc_calls s @ es \<and> unfailed (refusedCall lib) (kc_calls s) es"
  let ?E = "\<lambda>t. \<exists>es. kc_calls t = kc_calls s @ es \<and> unfailed (refusedCall lib) (kc_calls s) (butlast es)"
  show "wp (getOrCreate lib i) (\<lambda>_. ?Q) ?E s"
  proof (cases "kl_fault lib (kc_calls s) ?c = Some NotExist")
    case True
    then have run: "getOrCreate lib i s = createObject lib i ?t"
      by (simp add: getOrCreate_def bindG_def tryG_def callK_def)
    obtain r t where "createObject lib i ?t = (r, t)" by fastforce
    moreover from haltsD [OF halts_create this] obtain es where "kc_calls t = kc_calls s @ ?c # es"
      "unfailed (refusedCall lib) (kc_calls s) (butlast (?c # es))"
      "\<forall>a. r = Ok a \<longrightarrow> unfailed (refusedCall lib) (kc_calls s) (?c # es)" using True by auto
    ultimately show ?thesis unfolding wp_def run by (cases r) auto
  next
    case False
    then show ?thesis
      by (auto simp: wp_def getOrCreate_def bindG_def tryG_def callK_def go_defs split: option.split)
  qed
qed

lemma halts_apply: "halts kc_calls (refusedCall lib) (applyWithNamespaceOverride lib ns)"
  unfolding applyWithNamespaceOverride_def applyNamed_def newRestClient_def
    setDefaultNamespaceIfScopedAndNoneSet_def setNamespaceIfScoped_def Let_def
  by (intro halts_intros) (simp_all add: refusedCall_fault)

section \<open>The shared configuration\<close>

text \<open>
  Two clients that differ only in the parts of the shared configuration that \<open>newRestClient\<close>
  overwrites answer alike: \<open>agree m\<close> says so of an operation.
\<close>

definition sameClient :: "kclient \<Rightarrow> kclient \<Rightarrow> bool" where
  "sameClient s t \<longleftrightarrow> kc_object s = kc_object t \<and> kc_calls s = kc_calls t \<and>
     rc_Host (kc_config s) = rc_Host (kc_config t) \<and> rc_Timeout (kc_config s) = rc_Timeout (kc_config t)"

definition agree :: "'a kio \<Rightarrow> bool" where
  "agree m \<longleftrightarrow> (\<forall>s t. sameClient s t \<longrightarrow> fst (m s) = fst (m t) \<and> sameClient (snd (m s)) (snd (m t)))"

named_theorems agree_intros

lemma agree_return [agree_intros]: "agree (returnG a)" "agree (failG e)"
  by (simp_all add: agree_def go_defs)

lemma agree_bind [agree_intros]:
  assumes "agree m" and "\<And>a. agree (k a)"
  shows "agree (bindG m k)"
  unfolding agree_def
proof (intro allI impI)
  fix s t assume "sameClient s t"
  with assms(1) obtain r u v where "m s = (r, u)" "m t = (r, v)" "sameClient u v"
    unfolding agree_def by (metis prod.collapse)
  with assms(2) show "fst (bindG m k s) = fst (bindG m k t) \<and> sameClient (snd (bindG m k s)) (snd (bindG m k t))"
    by (cases r) (simp_all add: bindG_def agree_def)
qed

lemma agree_try [agree_intros]: "agree m \<Longrightarrow> agree (tryG m)"
  unfolding agree_def
proof (intro allI impI)
  fix s t assume "sameClient s t" and "\<forall>s t. sameClient s t \<longrightarrow> fst (m s) = fst (m t) \<and> sameClient (snd (m s)) (snd (m t))"
  then obtain r u v where "m s = (r, u)" "m t = (r, v)" "sameClient u v" by (metis prod.collapse)
  then show "fst (tryG m s) = fst (tryG m t) \<and> sameClient (snd (tryG m s)) (snd (tryG m t))"
    by (cases r) (simp_all add: tryG_def)
qed

lemma agree_if [agree_intros]: "agree m \<Longrightarrow> agree n \<Longrightarrow> agree (if c then m else n)"
  by simp

lemma agree_call [agree_intros]: "agree (callK lib c f)"
  by (auto simp: agree_def callK_def sameClient_def split: option.split)

text \<open>What is read of the state must not tell such clients apart.\<close>

lemma agree_get [agree_intros]:
  assumes "\<And>s. agree (k s)" and "\<And>s t. sameClient s t \<Longrightarrow> k s = k t"
  shows "agree (bindG getK k)"
  using assms unfolding agree_def by (auto simp: bindG_def getK_def)

lemma agree_modify:
  "(\<And>s t. sameClient s t \<Longrightarrow> sameClient (f s) (f t)) \<Longrightarrow> agree (modifyK f)"
  by (auto simp: agree_def modifyK_def)

lemma agree_newRestClient:
  assumes "sameClient s t"
  shows "newRestClient lib (kc_config s) gv = newRestClient lib (kc_config t) gv"
proof -
  have "(kc_config s)\<lparr>rc_ContentConfig := C, rc_APIPath := p\<rparr> = (kc_config t)\<lparr>rc_ContentConfig := C, rc_APIPath := p\<rparr>"
    for C p using assms by (auto simp: sameClient_def intro!: restConfig.equality)
  then show ?thesis by (simp add: newRestClient_def Let_def)
qed

lemma agree_rest [agree_intros]: "agree (newRestClient lib c gv)"
  unfolding newRestClient_def Let_def by (rule agree_call)

lemma agree_resolve [agree_intros]: "agree (resolveKind lib kind)"
  unfolding resolveKind_def
  by (intro agree_intros) (simp_all add: agree_newRestClient)

lemma agree_create [agree_intros]: "agree (createObject lib i)"
  unfolding createObject_def
  by (intro agree_intros agree_modify) (simp_all add: sameClient_def)

lemma agree_getOrCreate [agree_intros]: "agree (getOrCreate lib i)"
  unfolding getOrCreate_def by (auto intro!: agree_intros split: sum.split)

lemma agree_namespace [agree_intros]:
  "agree (setDefaultNamespaceIfScopedAndNoneSet b)" "agree (setNamespaceIfScoped ns b)"
  unfolding setDefaultNamespaceIfScopedAndNoneSet_def setNamespaceIfScoped_def Let_def
  by (intro agree_intros agree_modify; simp add: sameClient_def)+

lemma agree_apply [agree_intros]:
  "agree (applyNamed lib gvk m rc)" "agree (applyWithNamespaceOverride lib ns)"
proof -
  show n: "agree (applyNamed lib gvk m rc)" for gvk m rc
    unfolding applyNamed_def Let_def
    by (rule agree_get agree_bind agree_call agree_return agree_getOrCreate | simp add: sameClient_def infoObject_def cong: option.case_cong)+
  show "agree (applyWithNamespaceOverride lib ns)"
    unfolding applyWithNamespaceOverride_def Let_def
    apply (rule agree_get)
     apply (rule agree_bind, rule agree_call, rule agree_bind)
      apply (rule agree_modify, simp add: sameClient_def)
     apply (rule agree_get)
      apply (intro agree_bind agree_rest agree_if agree_namespace n)
     apply (simp add: agree_newRestClient)
    apply (simp add: sameClient_def)
    done
qed

lemma agree_dynamic [agree_intros]:
  "agree (getResource lib kind nm ns)" "agree (deleteResource lib kind nm ns opts)"
  "agree (patchUsingStrategy lib kind nm ns p st)"
  unfolding getResource_def deleteResource_def patchUsingStrategy_def Let_def
  by (auto intro!: agree_intros split: prod.split)

section \<open>A concrete client\<close>

text \<open>Every kind is namespaced and no object exists yet.\<close>

definition sampleKube :: kube_lib where
  "sampleKube =
     (let k = \<lparr>gvk_Group = ''apps'', gvk_Version = ''v1'', gvk_Kind = ''Deployment''\<rparr>;
          r = \<lparr>gvr_Group = ''apps'', gvr_Version = ''v1'', gvr_Resource = ''deployments''\<rparr>;
          ob = \<lparr>ob_Kind = k, ob_Namespace = ''server'', ob_Name = ''server'', ob_ResourceVersion = ''7'', ob_Rest = KNull\<rparr> in
      \<lparr>kl_fault = (\<lambda>_ c. case c of CGet _ _ \<Rightarrow> Some NotExist | _ \<Rightarrow> None),
       kl_mapping = (\<lambda>_ _ _ _. \<lparr>rm_Resource = r, rm_Namespaced = True\<rparr>), kl_kindFor = (\<lambda>_ _. k),
       kl_resourceFor = (\<lambda>_ _. r),
       kl_content = \<lparr>cc_ContentType = ''application/json'', cc_GroupVersion = None, cc_NegotiatedSerializer = ''json''\<rparr>,
       kl_modified = (\<lambda>_. ''modified''), kl_annotated = (\<lambda>_. KBool True), kl_sentVersion = (\<lambda>_. ''''),
       kl_object = (\<lambda>_. ob),
       kl_got = (\<lambda>i ob. i\<lparr>in_Object := Some ob, in_ResourceVersion := ob_ResourceVersion ob\<rparr>),
       kl_refresh = (\<lambda>i ob. i\<lparr>in_Name := ob_Name ob, in_Namespace := ob_Namespace ob,
         in_ResourceVersion := ob_ResourceVersion ob, in_Object := Some ob\<rparr>), kl_list = (\<lambda>_. [ob])\<rparr>)"

definition sampleClient :: kclient where
  "sampleClient =
     \<lparr>kc_config = \<lparr>rc_Host = ''https://h'', rc_APIPath = '''', rc_ContentConfig = kl_content sampleKube, rc_Timeout = 0\<rparr>,
      kc_object = \<lparr>ob_Kind = \<lparr>gvk_Group = ''apps'', gvk_Version = ''v1'', gvk_Kind = ''Deployment''\<rparr>,
        ob_Namespace = '''', ob_Name = ''d'', ob_ResourceVersion = '''', ob_Rest = KNull\<rparr>,
      kc_calls = []\<rparr>"

lemma sampleApply: "\<exists>md t. applyWithNamespaceOverride sampleKube '''' sampleClient = (Ok md, t)"
proof -
  have "case fst (applyWithNamespaceOverride sampleKube '''' sampleClient) of Ok _ \<Rightarrow> True | _ \<Rightarrow> False" by code_simp
  then show ?thesis by (cases "applyWithNamespaceOverride sampleKube '''' sampleClient") (auto split: outcome.splits)
qed

section \<open>Properties\<close>

text \<open>
  C35: applying an object leaves its name and kind alone and puts it, if its kind is namespaced,
  into the given namespace, else its own, else \<open>default\<close>; a failure has done this or nothing. The
  metadata of a successful apply is that of the object as it was applied, with the resource the
  mapping names.
\<close>

theorem apply_namespace:
  assumes "applyWithNamespaceOverride lib ns s = (r, t)"
    and "u = kc_object s" and "gvk = ob_Kind u"
    and "m = kl_mapping lib (gvk_Group gvk) (gvk_Kind gvk) (gvk_Version gvk) (kc_calls s)"
    and "ns' = appliedNamespace m ns (ob_Namespace u)"
  shows "ob_Kind (kc_object t) = gvk \<and> ob_Name (kc_object t) = ob_Name u \<and>
    ob_Namespace (kc_object t) \<in> {ob_Namespace u, ns'} \<and>
    (\<forall>md. r = Ok md \<longrightarrow> ob_Namespace (kc_object t) = ns' \<and>
       md = \<lparr>md_Name = ob_Name u, md_Namespace = ns', md_Group = gvr_Group (rm_Resource m),
         md_Version = gvr_Version (rm_Resource m), md_Resource = gvr_Resource (rm_Resource m),
         md_Kind = gvk_Kind gvk\<rparr>)"
proof -
  let ?E = "\<lambda>t. ob_Kind (kc_object t) = gvk \<and> ob_Name (kc_object t) = ob_Name u \<and>
    ob_Namespace (kc_object t) \<in> {ob_Namespace u, ns'}"
  let ?Q = "\<lambda>md t. ?E t \<and> ob_Namespace (kc_object t) = ns' \<and>
     md = \<lparr>md_Name = ob_Name u, md_Namespace = ns', md_Group = gvr_Group (rm_Resource m),
         md_Version = gvr_Version (rm_Resource m), md_Resource = gvr_Resource (rm_Resource m),
         md_Kind = gvk_Kind gvk\<rparr>"
  have "wp (applyWithNamespaceOverride lib ns) ?Q ?E s"
    unfolding applyWithNamespaceOverride_def newRestClient_def Let_def
    apply (intro wp_bind wp_getK wp_callK wp_modifyK)
      apply (rule wp_namespace)
      apply (rule wp_weaken [OF applyNamed_run])
       apply (auto simp: assms(2-5) sameIdentity_def)
    done
  with assms(1) show ?thesis by (cases r) (auto simp: wp_def)
qed

theorem apply_namespace_witness:
  "\<exists>md t. applyWithNamespaceOverride sampleKube '''' sampleClient = (Ok md, t) \<and>
     ob_Namespace (kc_object t) = ''default'' \<and> md_Namespace md = ''default''"
proof -
  obtain md t where run: "applyWithNamespaceOverride sampleKube '''' sampleClient = (Ok md, t)"
    using sampleApply by blast
  have ns: "appliedNamespace (kl_mapping sampleKube ''apps'' ''Deployment'' ''v1'' []) '''' '''' = ''default''" by code_simp
  have u: "kc_object sampleClient = \<lparr>ob_Kind = \<lparr>gvk_Group = ''apps'', gvk_Version = ''v1'', gvk_Kind = ''Deployment''\<rparr>,
        ob_Namespace = '''', ob_Name = ''d'', ob_ResourceVersion = '''', ob_Rest = KNull\<rparr>" "kc_calls sampleClient = []"
    by (simp_all add: sampleClient_def)
  from apply_namespace [OF run refl refl refl refl] have "ob_Namespace (kc_object t) = ''default''" "md_Namespace md = ''default''"
    by (simp_all add: u ns)
  with run show ?thesis by blast
qed

text \<open>
  C36: an apply asks for the object, creates it exactly when the answer to that question is that
  it does not exist, and then patches it; a normal return has made exactly these requests. After
  a failure nothing more is called: only the last call of an apply can be one that failed, and
  then the apply has failed; the one answer that is not a failure is that the object is missing.
  So an error of the question other than that changes nothing on the server.
\<close>

theorem apply_requests:
  assumes "applyWithNamespaceOverride lib ns s = (r, t)"
    and "u = kc_object s" and "gvk = ob_Kind u"
    and "m = kl_mapping lib (gvk_Group gvk) (gvk_Kind gvk) (gvk_Version gvk) (kc_calls s)"
    and "c = CGet (appliedNamespace m ns (ob_Namespace u)) (ob_Name u)"
  shows "\<exists>h cs. kc_calls t = kc_calls s @ cs \<and> unfailed (refusedCall lib) (kc_calls s) (butlast cs) \<and>
    (serverVerbs cs = [] \<or> prefix (kc_calls s) h \<and> prefix (h @ [c]) (kc_calls t)) \<and>
    (let plan = (if kl_fault lib h c = Some NotExist then [''get'', ''create'', ''patch''] else [''get'', ''patch''])
     in prefix (serverVerbs cs) plan \<and>
       ((\<exists>md. r = Ok md) \<longrightarrow> serverVerbs cs = plan \<and> unfailed (refusedCall lib) (kc_calls s) cs))"
proof -
  have "wp (applyWithNamespaceOverride lib ns) (\<lambda>_ t. \<exists>h. planned lib h c (applyPlan lib h c) s t)
      (\<lambda>t. \<exists>h vs. planned lib h c vs s t) s"
    unfolding applyWithNamespaceOverride_def newRestClient_def Let_def
    apply (intro wp_bind wp_getK wp_callK wp_modifyK)
      apply (rule wp_namespace)
      apply (rule applyNamed_plan)
       apply (simp add: assms(2-5))
      apply (simp add: sends_def)
     apply (rule planned_none, simp add: sends_def)+
    done
  then obtain h vs where p: "planned lib h c vs s t" and ok: "\<exists>md. r = Ok md \<Longrightarrow> vs = applyPlan lib h c"
    using assms(1) by (cases r) (auto simp: wp_def)
  from p obtain cs where cs: "kc_calls t = kc_calls s @ cs" "serverVerbs cs = vs"
    by (auto simp: planned_def sends_def)
  with haltsD [OF halts_apply assms(1)] p ok show ?thesis
    by (intro exI [of _ h] exI [of _ cs]) (auto simp: planned_def applyPlan_def missing_def Let_def)
qed

theorem apply_requests_witness:
  "\<exists>t. sends [''get'', ''create'', ''patch''] sampleClient t"
proof -
  obtain md t where run: "applyWithNamespaceOverride sampleKube '''' sampleClient = (Ok md, t)"
    using sampleApply by blast
  have miss: "kl_fault sampleKube h (CGet x y) = Some NotExist" for h x y by (simp add: sampleKube_def Let_def)
  from apply_requests [OF run refl refl refl refl] miss show ?thesis by (auto simp: Let_def sends_def)
qed

text \<open>
  C40: the write of an apply to the shared configuration, which stays after the call, has no effect
  on anything the client does later: two clients that differ only in the group version, the content
  settings and the API path of their configuration answer every operation alike and send the same.
\<close>

theorem client_config_irrelevant:
  "let s' = s\<lparr>kc_config := (kc_config s)\<lparr>rc_APIPath := path, rc_ContentConfig := settings\<rparr>\<rparr> in
    fst (applyWithNamespaceOverride lib ns s') = fst (applyWithNamespaceOverride lib ns s) \<and>
    kc_calls (snd (applyWithNamespaceOverride lib ns s')) = kc_calls (snd (applyWithNamespaceOverride lib ns s)) \<and>
    fst (getResource lib kind nm ns s') = fst (getResource lib kind nm ns s) \<and>
    fst (deleteResource lib kind nm ns opts s') = fst (deleteResource lib kind nm ns opts s) \<and>
    fst (patchUsingStrategy lib kind nm ns p st s') = fst (patchUsingStrategy lib kind nm ns p st s)"
proof -
  let ?s' = "s\<lparr>kc_config := (kc_config s)\<lparr>rc_APIPath := path, rc_ContentConfig := settings\<rparr>\<rparr>"
  have same: "sameClient ?s' s" by (simp add: sameClient_def)
  have eq: "fst (m ?s') = fst (m s)" "kc_calls (snd (m ?s')) = kc_calls (snd (m s))" if "agree m" for m :: "'z kio"
    using that same unfolding agree_def by (blast, unfold sameClient_def, blast)
  show ?thesis unfolding Let_def by (intro conjI eq agree_apply agree_dynamic)
qed

end
