(* ===== verification/Kube_Controller.thy ===== *)
theory Kube_Controller
  imports Kube_Client Go_Path
begin

text \<open>
  \<open>src/pkg/lib/k8s/controller.go\<close>: making a client, and the name of the directory in which what the
  API server offers is cached. \<open>strings.Replace\<close> and the regular expression that masks the host
  are modelled on bytes: a masked UTF-8 sequence becomes one underscore, as Go's regexp package
  replaces runes. \<open>disk.NewCachedDiscoveryClientForConfig\<close> and the gin context are parameters.
\<close>

section \<open>Masking a host name\<close>

definition inRange :: "nat \<Rightarrow> nat \<Rightarrow> char \<Rightarrow> bool" where
  "inRange lo hi c \<longleftrightarrow> lo \<le> of_char c \<and> of_char c \<le> hi"

text \<open>How many bytes the first rune has; an invalid sequence counts as one byte.\<close>

fun runeWidth :: "string \<Rightarrow> nat" where
  "runeWidth [] = 0"
| "runeWidth (b0 # bs) =
     (let x = of_char b0 :: nat in
      if x < 0xC2 \<or> x > 0xF4 then 1
      else if x < 0xE0 then
        (case bs of b1 # _ \<Rightarrow> if inRange 0x80 0xBF b1 then 2 else 1 | _ \<Rightarrow> 1)
      else if x < 0xF0 then
        (case bs of
           b1 # b2 # _ \<Rightarrow>
             if inRange (if x = 0xE0 then 0xA0 else 0x80) (if x = 0xED then 0x9F else 0xBF) b1 \<and> inRange 0x80 0xBF b2
             then 3 else 1
         | _ \<Rightarrow> 1)
      else
        (case bs of
           b1 # b2 # b3 # _ \<Rightarrow>
             if inRange (if x = 0xF0 then 0x90 else 0x80) (if x = 0xF4 then 0x8F else 0xBF) b1 \<and>
               inRange 0x80 0xBF b2 \<and> inRange 0x80 0xBF b3
             then 4 else 1
         | _ \<Rightarrow> 1))"

text \<open>The class \<open>(\w/\.)\<close>: letters, digits, underscore, slash, dot and the two parentheses.\<close>

definition legalChar :: "char \<Rightarrow> bool" where
  "legalChar c \<longleftrightarrow> inRange 0x30 0x39 c \<or> inRange 0x41 0x5A c \<or> inRange 0x61 0x7A c \<or>
     c \<in> {CHR ''_'', CHR ''/'', CHR ''.'', CHR ''('', CHR '')''}"

fun maskHost :: "string \<Rightarrow> string" where
  "maskHost [] = []"
| "maskHost (c # cs) =
     (if legalChar c then c # maskHost cs
      else CHR ''_'' # maskHost (drop (runeWidth (c # cs) - 1) cs))"

text \<open>\<open>strings.Replace(s, old, "", 1)\<close> for a non-empty \<open>old\<close>.\<close>

fun removeFirst :: "string \<Rightarrow> string \<Rightarrow> string" where
  "removeFirst old [] = []"
| "removeFirst old (c # cs) =
     (if take (length old) (c # cs) = old then drop (length old) (c # cs) else c # removeFirst old cs)"

definition schemelessHost :: "string \<Rightarrow> string" where
  "schemelessHost host = removeFirst ''http://'' (removeFirst ''https://'' host)"

definition computeDiscoverCacheDir :: "string \<Rightarrow> string \<Rightarrow> string" where
  "computeDiscoverCacheDir parentDir host = pathJoin [parentDir, maskHost (schemelessHost host)]"

section \<open>Making a client\<close>

definition kubeCacheDir :: string where
  "kubeCacheDir = ''/var/kube/cache''"

definition second :: int where
  "second = 1000000000"

definition defaultTimeout :: int where
  "defaultTimeout = 180 * second"

definition ttl :: int where
  "ttl = 10 * 60 * second"

text \<open>The client's configuration is the one the caller passed, by reference.\<close>

definition newClientWithDefaultDiskCache :: "kube_lib \<Rightarrow> unit kio" where
  "newClientWithDefaultDiskCache lib =
     bindG (modifyK (\<lambda>s. s\<lparr>kc_config := (kc_config s)\<lparr>rc_Timeout := defaultTimeout\<rparr>\<rparr>)) (\<lambda>_.
     bindG getK (\<lambda>s.
     bindG (callK lib (CNewDynamic (kc_config s)) (\<lambda>_. ())) (\<lambda>_.
     let httpCacheDir = pathJoin [kubeCacheDir, ''http''];
         discoveryCacheDir = computeDiscoverCacheDir (pathJoin [kubeCacheDir, ''discovery'']) (rc_Host (kc_config s)) in
     callK lib (CNewDiscovery (kc_config s) discoveryCacheDir httpCacheDir ttl) (\<lambda>_. ()))))"

text \<open>
  \<open>ControllerInstance\<close>: gin's \<open>MustGet\<close> panics for a missing key, and so does the assertion for a
  value that is no controller (\<open>Inr\<close>).
\<close>

definition controllerInstance :: "(string \<Rightarrow> ('c + 'v) option) \<Rightarrow> ('s, 'c) go" where
  "controllerInstance keys =
     (case keys ''KubeController'' of
        None \<Rightarrow> panicG ''Key does not exist''
      | Some (Inr _) \<Rightarrow> panicG ''interface conversion''
      | Some (Inl c) \<Rightarrow> returnG c)"

section \<open>Facts\<close>

lemma maskHost_legal: "c \<in> set (maskHost h) \<Longrightarrow> legalChar c"
  by (induction h rule: maskHost.induct) (auto simp: legalChar_def split: if_splits)

lemma push_below:
  assumes "suffix base st" and "\<forall>c\<in>set cs. c \<noteq> ''..''"
  shows "suffix base (foldl (pushPart r) st cs)"
  using assms
proof (induction cs arbitrary: st)
  case (Cons c cs)
  then have "suffix base (pushPart r st c)" by (auto simp: pushPart_def intro: suffix_ConsI)
  with Cons show ?case by simp
qed simp

lemma parts_join_below:
  assumes "rooted a" and "\<forall>c\<in>set (splitOn (CHR ''/'') b). c \<noteq> ''..''"
  shows "prefix (parts a) (parts (a @ CHR ''/'' # b))"
  using push_below [OF suffix_order.refl assms(2), of "rev (parts a)" True]
  by (simp add: parts_append_slash [OF assms(1)] suffix_to_prefix)

lemma absPath_legal: "legalChar c" if "c \<in> set (absPath cs)" "\<forall>d\<in>set cs. \<forall>c\<in>set d. legalChar c" for cs
proof -
  have "\<forall>c\<in>set (joinWith ''/'' cs). legalChar c" if "\<forall>d\<in>set cs. \<forall>c\<in>set d. legalChar c" for cs
    using that by (induction "''/''" cs rule: joinWith.induct) (auto simp: legalChar_def)
  with that show ?thesis by (auto simp: absPath_def render_def legalChar_def)
qed

lemma splitOn_chars: "\<forall>d\<in>set (splitOn k p). set d \<subseteq> set p"
  by (induction p) (auto split: list.splits)

lemma push_chars:
  assumes "\<forall>d\<in>set st \<union> set cs. \<forall>x\<in>set d. legalChar x"
  shows "\<forall>d\<in>set (foldl (pushPart r) st cs). \<forall>x\<in>set d. legalChar x"
  using assms
proof (induction cs arbitrary: st)
  case (Cons c cs)
  then have "\<forall>d\<in>set (pushPart r st c) \<union> set cs. \<forall>x\<in>set d. legalChar x"
    by (cases st) (auto simp: pushPart_def legalChar_def)
  with Cons show ?case by simp
qed simp

lemma parts_legal:
  assumes "\<forall>x\<in>set p. legalChar x"
  shows "\<forall>d\<in>set (parts p). \<forall>x\<in>set d. legalChar x"
proof -
  have "\<forall>d\<in>set (foldl (pushPart (rooted p)) [] (splitOn (CHR ''/'') p)). \<forall>x\<in>set d. legalChar x"
    using assms splitOn_chars [of "CHR ''/''" p] by (intro push_chars) auto
  then show ?thesis by (simp add: parts_def)
qed

lemma join_below: "rooted a \<Longrightarrow> pathJoin [a, b] = absPath (parts (a @ CHR ''/'' # b))"
  by (simp add: pathJoin_def Let_def rooted_nonempty clean_rooted rooted_append)

section \<open>Properties\<close>

text \<open>
  C39: the directory of the discovery cache has a name of harmless characters only, whatever the
  host, and it lies below the given parent as long as no part of the masked host is \<open>..\<close>; such a part
  is kept, and then climbs out of the parent.
\<close>

theorem discovery_dir:
  assumes "rooted parent" and "\<forall>c\<in>set parent. legalChar c"
    and "b = maskHost (schemelessHost host)"
  shows "(\<forall>c\<in>set (computeDiscoverCacheDir parent host).
        of_char c \<in> {0x30..0x39} \<union> {0x41..0x5A} \<union> {0x61..0x7A :: nat} \<or> c \<in> set ''_/.()'') \<and>
    ((\<forall>c\<in>set (splitOn (CHR ''/'') b). c \<noteq> ''..'') \<longrightarrow>
      prefix (parts parent) (parts (computeDiscoverCacheDir parent host)))"
proof -
  let ?p = "parent @ CHR ''/'' # b"
  have dir: "computeDiscoverCacheDir parent host = absPath (parts ?p)"
    unfolding computeDiscoverCacheDir_def assms(3) by (rule join_below [OF assms(1)])
  have "\<forall>x\<in>set ?p. legalChar x"
    using assms(2,3) maskHost_legal by (auto simp: legalChar_def)
  then have "\<forall>c\<in>set (absPath (parts ?p)). legalChar c" using parts_legal absPath_legal by blast
  moreover have "parts (absPath (parts ?p)) = parts ?p"
    by (rule parts_absPath) (rule parts_rooted_plain, simp add: rooted_append rooted_nonempty assms(1))
  ultimately show ?thesis using parts_join_below [OF assms(1)] by (auto simp: dir legalChar_def inRange_def)
qed

theorem discovery_dir_witness:
  "prefix (parts ''/var/kube/cache/discovery'') (parts (computeDiscoverCacheDir ''/var/kube/cache/discovery'' ''https://10.0.0.9:6443'')) \<and>
   computeDiscoverCacheDir ''/var/kube/cache/discovery'' ''https://10.0.0.9:6443'' = ''/var/kube/cache/discovery/10.0.0.9_6443'' \<and>
   computeDiscoverCacheDir ''/var/kube/cache/discovery'' ''https://../../../../etc'' = ''/etc''"
proof -
  have "rooted ''/var/kube/cache/discovery''" "\<forall>c\<in>set ''/var/kube/cache/discovery''. legalChar c"
    "\<forall>c\<in>set (splitOn (CHR ''/'') (maskHost (schemelessHost ''https://10.0.0.9:6443''))). c \<noteq> ''..''"
    by code_simp+
  from discovery_dir [OF this(1,2) refl, of "''https://10.0.0.9:6443''"] this(3)
  have "prefix (parts ''/var/kube/cache/discovery'') (parts (computeDiscoverCacheDir ''/var/kube/cache/discovery'' ''https://10.0.0.9:6443''))"
    by blast
  moreover have "computeDiscoverCacheDir ''/var/kube/cache/discovery'' ''https://10.0.0.9:6443'' = ''/var/kube/cache/discovery/10.0.0.9_6443''"
    by code_simp
  moreover have "computeDiscoverCacheDir ''/var/kube/cache/discovery'' ''https://../../../../etc'' = ''/etc''"
    by code_simp
  ultimately show ?thesis by simp
qed

end
