(* ===== verification/System.thy ===== *)
theory System
  imports Os
begin

text \<open>
  \<open>src/pkg/system/system.go\<close>: \<open>AmIRoot\<close> and \<open>Install\<close>, the imitation of the \<open>install\<close> command.
  The user database is asked of the environment. \<open>os.FileMode(mode)\<close> keeps the low 32 bits of
  the integer, and the file system is given the nine permission bits and the three bits of
  \<open>FileMode\<close> that stand for setuid, setgid and sticky.
\<close>

section \<open>Numbers\<close>

text \<open>\<open>strconv.Atoi\<close> with its error dropped: 0 for a text that is no number, clamped otherwise.\<close>

definition digits :: "string \<Rightarrow> int" where
  "digits ds = foldl (\<lambda>n c. n * 10 + (int (of_char c) - 48)) 0 ds"

definition isDigit :: "char \<Rightarrow> bool" where
  "isDigit c \<longleftrightarrow> 48 \<le> (of_char c :: nat) \<and> (of_char c :: nat) \<le> 57"

definition unsign :: "string \<Rightarrow> string" where
  "unsign s = (case s of c # ds \<Rightarrow> (if c = CHR ''-'' \<or> c = CHR ''+'' then ds else s) | [] \<Rightarrow> s)"

definition atoi :: "string \<Rightarrow> int" where
  "atoi s =
     (let ds = unsign s in
      if ds = [] \<or> \<not> list_all isDigit ds then 0
      else if s \<noteq> [] \<and> hd s = CHR ''-'' then max (- (2 ^ 63)) (- digits ds)
      else min (2 ^ 63 - 1) (digits ds))"

definition fileMode :: "int \<Rightarrow> int" where
  "fileMode m = m mod 2 ^ 32"

definition syscallMode :: "int \<Rightarrow> nat" where
  "syscallMode m = nat (m mod 512 + (if odd (m div 2 ^ 23) then 2048 else 0) +
     (if odd (m div 2 ^ 22) then 1024 else 0) + (if odd (m div 2 ^ 20) then 512 else 0))"

section \<open>Operations\<close>

definition amIRoot :: "env \<Rightarrow> bool io" where
  "amIRoot env = bindG (request env EvCurrentUser) (\<lambda>_. returnG (e_username env = ''root''))"

text \<open>The error of the last step, \<open>syscall.Chown\<close>, is dropped.\<close>

definition install :: "env \<Rightarrow> string \<Rightarrow> string \<Rightarrow> int \<Rightarrow> string \<Rightarrow> string \<Rightarrow> unit io" where
  "install env source destination md osuser osgroup =
     bindG (filepathAbs env source) (\<lambda>lhs.
     bindG (filepathAbs env destination) (\<lambda>rhs.
     let base = pathDir rhs in
     bindG (osMkdirAll env base) (\<lambda>_.
     bindG (osReadFile env lhs) (\<lambda>data.
     bindG (osWriteFile env rhs data (syscallMode (fileMode md))) (\<lambda>_.
     bindG (request env (EvUserLookup osuser)) (\<lambda>_.
     let uid = atoi (e_uid env osuser) in
     bindG (request env (EvGroupLookup osgroup)) (\<lambda>_.
     let gid = atoi (e_gid env osgroup) in
     bindG (tryG (osChown env rhs uid gid)) (\<lambda>_.
     returnG ()))))))))"

section \<open>Facts\<close>

text \<open>The absolute name of a path.\<close>

definition absName :: "env \<Rightarrow> string \<Rightarrow> string" where
  "absName env p = (if rooted p then pathClean p else pathJoin [e_cwd env, p])"

lemma filepathAbs_Ok: "filepathAbs env p s = (Ok a, t) \<Longrightarrow> a = absName env p \<and> wfs t = wfs s"
  by (auto simp: filepathAbs_def absName_def go_defs elim!: bindG_OkE split: if_splits option.splits)

lemma mkChain_owner: "owner (fst (mkChain ps fs)) = owner fs"
  by (induction ps fs rule: mkChain.induct) (auto split: option.splits entry.splits)

lemma osReadFile_Ok:
  "osReadFile env p s = (Ok d, t) \<Longrightarrow> wfs t = wfs s \<and> (\<exists>i. lookupPath (wfs s) p = Some (File i) \<and> d = content (wfs s) i)"
  by (auto simp: osReadFile_def go_defs elim!: bindG_OkE split: option.splits entry.splits)

text \<open>What remains of the file system after a change of owner.\<close>

lemma tryChown:
  assumes "tryG (osChown env p u g) s = (r, t)"
  shows "names (wfs t) = names (wfs s) \<and> content (wfs t) = content (wfs s) \<and> mode (wfs t) = mode (wfs s) \<and>
    (\<forall>e. e_fault env (hist s) (EvChown p u g) = Some e \<longrightarrow> owner (wfs t) = owner (wfs s)) \<and>
    (e_fault env (hist s) (EvChown p u g) = None \<longrightarrow>
      (\<forall>i. lookupPath (wfs s) p = Some (File i) \<longrightarrow> owner (wfs t) i = (u, g)))"
  using assms
  by (auto simp: osChown_def tryG_def bindG_def go_defs split: option.splits entry.splits)

text \<open>The states a successful installation goes through.\<close>

lemma install_Ok:
  assumes "install env src dst md usr grp s = (Ok (), t)"
  obtains s2 s3 s4 s5 :: world and d r where
    "\<exists>ps. wfs s2 = fst (mkChain ps (wfs s))" "isDir (wfs s2) (pathDir (absName env dst))"
    "\<exists>i. lookupPath (wfs s2) (absName env src) = Some (File i) \<and> d = content (wfs s2) i"
    "wfs s3 = wfs s2" "osWriteFile env (absName env dst) d (syscallMode (fileMode md)) s3 = (Ok (), s4)"
    "wfs s5 = wfs s4" "tryG (osChown env (absName env dst) (atoi (e_uid env usr)) (atoi (e_gid env grp))) s5 = (r, t)"
proof -
  from assms obtain lhs a rhs b s2 d s3 s4 r where
    1: "filepathAbs env src s = (Ok lhs, a)" "filepathAbs env dst a = (Ok rhs, b)"
    and 2: "osMkdirAll env (pathDir rhs) b = (Ok (), s2)" "osReadFile env lhs s2 = (Ok d, s3)"
    and 3: "osWriteFile env rhs d (syscallMode (fileMode md)) s3 = (Ok (), s4)"
    and 4: "tryG (osChown env rhs (atoi (e_uid env usr)) (atoi (e_gid env grp)))
      (s4\<lparr>hist := hist s4 @ [EvUserLookup usr, EvGroupLookup grp]\<rparr>) = (r, t)"
    by (auto simp: install_def Let_def go_defs elim!: bindG_OkE split: option.splits)
  have n: "lhs = absName env src" "rhs = absName env dst" "wfs b = wfs s"
    using filepathAbs_Ok [OF 1(1)] filepathAbs_Ok [OF 1(2)] by auto
  from osMkdirAll_keeps [OF 2(1)] n(3) have mk: "\<exists>ps. wfs s2 = fst (mkChain ps (wfs s))" by simp
  note dir = osMkdirAll_Ok [OF 2(1), unfolded n] and src = osReadFile_Ok [OF 2(2), unfolded n]
  have "wfs (s4\<lparr>hist := hist s4 @ [EvUserLookup usr, EvGroupLookup grp]\<rparr>) = wfs s4" by simp
  from that [OF mk dir conjunct2 [OF src] conjunct1 [OF src] 3 [unfolded n] this 4 [unfolded n]]
  show ?thesis .
qed

section \<open>Properties\<close>

text \<open>
  C26: when an installation succeeds the source was a file and the destination is one that holds
  exactly what the source held before. A destination that did not exist has the mode of the
  argument; one that did is the same file as before, under its old mode: the mode given is then
  ignored, unlike with \<open>install\<close>.
\<close>

theorem install_copies:
  assumes "install env src dst md usr grp s = (Ok (), t)"
  shows "\<exists>i j. lookupPath (wfs s) (absName env src) = Some (File i) \<and>
    lookupPath (wfs t) (absName env dst) = Some (File j) \<and> content (wfs t) j = content (wfs s) i \<and>
    (lookupPath (wfs s) (absName env dst) = None \<longrightarrow> mode (wfs t) j = syscallMode (fileMode md)) \<and>
    (\<forall>k. lookupPath (wfs s) (absName env dst) = Some (File k) \<longrightarrow> j = k \<and> mode (wfs t) j = mode (wfs s) k)"
  using assms
proof (rule install_Ok)
  fix s2 s3 s4 s5 :: world and d r
  assume mk: "\<exists>ps. wfs s2 = fst (mkChain ps (wfs s))" and s3: "wfs s3 = wfs s2"
    and src: "\<exists>i. lookupPath (wfs s2) (absName env src) = Some (File i) \<and> d = content (wfs s2) i"
    and w: "osWriteFile env (absName env dst) d (syscallMode (fileMode md)) s3 = (Ok (), s4)"
    and s5: "wfs s5 = wfs s4"
    and c: "tryG (osChown env (absName env dst) (atoi (e_uid env usr)) (atoi (e_gid env grp))) s5 = (r, t)"
  from mk obtain ps where ps: "wfs s2 = fst (mkChain ps (wfs s))" by blast
  have same: "lookupPath (wfs s2) p = Some (File k) \<longleftrightarrow> lookupPath (wfs s) p = Some (File k)" for p k
    by (cases "parts p = []") (simp_all add: lookupPath_def ps, blast intro: mkChain_file mkChain_new)
  with src obtain i where i: "lookupPath (wfs s) (absName env src) = Some (File i)" "d = content (wfs s) i"
    by (auto simp: ps mkChain_other)
  from osWriteFile_Ok [OF w] obtain j where j: "lookupPath (wfs s4) (absName env dst) = Some (File j)"
    "content (wfs s4) j = d"
    "lookupPath (wfs s3) (absName env dst) = None \<longrightarrow> mode (wfs s4) j = syscallMode (fileMode md)"
    "\<forall>k. lookupPath (wfs s3) (absName env dst) = Some (File k) \<longrightarrow> j = k \<and> mode (wfs s4) = mode (wfs s3)"
    by (elim exE conjE) (rule that)
  have noDir: "lookupPath (wfs s3) (absName env dst) \<noteq> Some Dir"
    using w by (auto simp: osWriteFile_def openTrunc_def go_defs elim!: bindG_OkE)
  have new: "lookupPath (wfs s3) (absName env dst) = None" if "lookupPath (wfs s) (absName env dst) = None"
  proof (cases "lookupPath (wfs s3) (absName env dst)")
    case (Some e)
    with noDir same [of "absName env dst"] that show ?thesis by (cases e) (simp_all add: s3)
  qed simp
  have old: "j = k \<and> mode (wfs s4) j = mode (wfs s) k" if "lookupPath (wfs s) (absName env dst) = Some (File k)" for k
    using j(4) that by (simp add: s3 same, simp add: ps mkChain_other)
  have "lookupPath (wfs t) p = lookupPath (wfs s4) p" for p
    using tryChown [OF c] s5 by (simp add: lookupPath_def)
  with i j(1-3) new old show ?thesis
    using tryChown [OF c] s5 by auto
qed

text \<open>
  The mode is read as a Go \<open>FileMode\<close>, whose setuid, setgid and sticky bits are not those of
  the octal notation: every mode up to 7777 (octal) loses them, unlike with \<open>install\<close>.
\<close>

theorem install_mode_bits:
  assumes "0 \<le> md" and "md < 2 ^ 12"
  shows "syscallMode (fileMode md) = nat (md mod 512)"
proof -
  have m: "fileMode md = md" using assms by (simp add: fileMode_def)
  have "md div 2 ^ 23 = 0" "md div 2 ^ 22 = 0" "md div 2 ^ 20 = 0" using assms by simp_all
  then show ?thesis by (simp add: m syscallMode_def)
qed

theorem install_mode_bits_witness: "syscallMode (fileMode 2541) = 493"
  using install_mode_bits [of 2541] by simp

text \<open>The same machine, but no change of owner is allowed.\<close>

definition noOwner :: "env \<Rightarrow> goerr \<Rightarrow> env" where
  "noOwner env e = env\<lparr>e_fault := (\<lambda>h ev. case ev of EvChown _ _ _ \<Rightarrow> Some e | _ \<Rightarrow> e_fault env h ev)\<rparr>"

lemma noOwner_fields [simp]:
  "e_cwd (noOwner env e) = e_cwd env" "e_partial (noOwner env e) = e_partial env"
  "e_uid (noOwner env e) = e_uid env" "e_gid (noOwner env e) = e_gid env"
  by (simp_all add: noOwner_def)

lemma request_noOwner:
  assumes "\<And>p u g. ev \<noteq> EvChown p u g"
  shows "request (noOwner env e) ev = request env ev"
proof -
  have "e_fault (noOwner env e) h ev = e_fault env h ev" for h
    using assms by (auto simp: noOwner_def split: event.split)
  then show ?thesis by (simp add: request_def)
qed

lemma noOwner_ops:
  "request (noOwner env e) (EvUserLookup u) = request env (EvUserLookup u)"
  "request (noOwner env e) (EvGroupLookup g) = request env (EvGroupLookup g)"
  "filepathAbs (noOwner env e) p = filepathAbs env p" "osMkdirAll (noOwner env e) p = osMkdirAll env p"
  "osReadFile (noOwner env e) p = osReadFile env p" "osWriteFile (noOwner env e) p d m = osWriteFile env p d m"
  by (simp_all add: request_noOwner filepathAbs_def osMkdirAll_def osReadFile_def osWriteFile_def
      cong: sum.case_cong prod.case_cong)

lemma fst_bind: "(\<And>a t. fst (k a t) = fst (k' a t)) \<Longrightarrow> fst (bindG m k s) = fst (bindG m k' s)"
  by (simp add: bindG_def split: prod.split outcome.split)

lemma chown_outcome: "fst (bindG (tryG (osChown env p u g)) (\<lambda>_. returnG ()) s) = Ok ()"
  by (simp add: osChown_def tryG_def bindG_def go_defs split: option.split entry.split)

interpretation owners: step_rel "\<lambda>s t :: world. owner (wfs t) = owner (wfs s)"
  by unfold_locales simp_all

named_theorems owner_frame
declare owners.within_intros [owner_frame]

lemma owners_requests [owner_frame]:
  "within (\<lambda>s t. owner (wfs t) = owner (wfs s)) (request env ev)"
  "within (\<lambda>s t. owner (wfs t) = owner (wfs s)) getW"
  "(\<And>fs. owner (g fs) = owner fs) \<Longrightarrow> within (\<lambda>s t. owner (wfs t) = owner (wfs s)) (modifyFs g)"
  by (simp_all add: within_def go_defs)

lemma openTrunc_owner: "openTrunc p m fs = Inr (i, fs') \<Longrightarrow> owner fs' = owner fs"
  by (auto simp: openTrunc_def newInode_def bindName_def setContent_def split: option.splits entry.splits if_splits)

lemma owners_ops [owner_frame]:
  "within (\<lambda>s t. owner (wfs t) = owner (wfs s)) (filepathAbs env p)"
  "within (\<lambda>s t. owner (wfs t) = owner (wfs s)) (osMkdirAll env p)"
  "within (\<lambda>s t. owner (wfs t) = owner (wfs s)) (osReadFile env p)"
  unfolding filepathAbs_def osMkdirAll_def osReadFile_def
  by (auto intro!: owner_frame simp: mkChain_owner split: sum.split option.split entry.split)

lemma owners_write [owner_frame]: "within (\<lambda>s t. owner (wfs t) = owner (wfs s)) (osWriteFile env p d m)"
  by (auto simp: within_def osWriteFile_def bindG_def tryG_def go_defs setContent_def
      dest: openTrunc_owner split: sum.split option.split)

lemma owners_chown [owner_frame]:
  "within (\<lambda>s t. owner (wfs t) = owner (wfs s)) (osChown (noOwner env e) p u g)"
  by (simp add: within_def osChown_def noOwner_def bindG_def go_defs)

text \<open>
  C27: the change of owner is the only step whose failure is not reported, although the comment
  says that anything amiss fails: on a machine that refuses every change of owner an installation
  has the very outcome it has on the same machine without that, and every owner is as before.
\<close>

theorem install_chown_unnoticed:
  "fst (install (noOwner env e) src dst md usr grp s) = fst (install env src dst md usr grp s) \<and>
   owner (wfs (snd (install (noOwner env e) src dst md usr grp s))) = owner (wfs s)"
proof
  show "fst (install (noOwner env e) src dst md usr grp s) = fst (install env src dst md usr grp s)"
    unfolding install_def Let_def noOwner_ops noOwner_fields
    by (intro fst_bind) (simp add: chown_outcome)
  have "within (\<lambda>s t. owner (wfs t) = owner (wfs s)) (install (noOwner env e) src dst md usr grp)"
    unfolding install_def Let_def by (intro owner_frame)
  then show "owner (wfs (snd (install (noOwner env e) src dst md usr grp s))) = owner (wfs s)"
    by (simp add: within_def)
qed

text \<open>A machine with a file to install and a longer one that may be overwritten.\<close>

definition sampleDisk :: world where
  "sampleDisk = emptyWorld\<lparr>wfs := (wfs emptyWorld)\<lparr>
     names := [''/w'' \<mapsto> Dir, ''/w/a'' \<mapsto> File 0, ''/w/b'' \<mapsto> File 1],
     content := (\<lambda>i. if i = 0 then ''data'' else ''something longer''), mode := (\<lambda>_. 420), nextIno := 2\<rparr>\<rparr>"

definition noChown :: env where
  "noChown = calmEnv\<lparr>e_fault := (\<lambda>_ ev. case ev of EvChown _ _ _ \<Rightarrow> Some (Fail ''eperm'') | _ \<Rightarrow> None)\<rparr>"

lemma sampleInstall: "\<exists>t. install noChown ''a'' ''/opt/b'' 493 ''u'' ''g'' sampleDisk = (Ok (), t)"
proof -
  have "fst (install noChown ''a'' ''/opt/b'' 493 ''u'' ''g'' sampleDisk) = Ok ()" by code_simp
  then show ?thesis by (metis prod.collapse)
qed

lemma sampleOverwrite: "\<exists>t. install noChown ''a'' ''b'' 493 ''u'' ''g'' sampleDisk = (Ok (), t)"
proof -
  have "fst (install noChown ''a'' ''b'' 493 ''u'' ''g'' sampleDisk) = Ok ()" by code_simp
  then show ?thesis by (metis prod.collapse)
qed

theorem install_copies_witness:
  "(\<exists>t j. install noChown ''a'' ''/opt/b'' 493 ''u'' ''g'' sampleDisk = (Ok (), t) \<and>
     lookupPath (wfs t) ''/opt/b'' = Some (File j) \<and> content (wfs t) j = ''data'' \<and> mode (wfs t) j = 493) \<and>
   (\<exists>t. install noChown ''a'' ''b'' 493 ''u'' ''g'' sampleDisk = (Ok (), t) \<and>
     lookupPath (wfs t) ''/w/b'' = Some (File 1) \<and> content (wfs t) 1 = ''data'' \<and> mode (wfs t) 1 = 420)"
proof -
  obtain t u where t: "install noChown ''a'' ''/opt/b'' 493 ''u'' ''g'' sampleDisk = (Ok (), t)"
    and u: "install noChown ''a'' ''b'' 493 ''u'' ''g'' sampleDisk = (Ok (), u)"
    using sampleInstall sampleOverwrite by blast
  have "lookupPath (wfs sampleDisk) (absName noChown ''a'') = Some (File 0)"
    "lookupPath (wfs sampleDisk) (absName noChown ''/opt/b'') = None" "absName noChown ''/opt/b'' = ''/opt/b''"
    "lookupPath (wfs sampleDisk) (absName noChown ''b'') = Some (File 1)" "absName noChown ''b'' = ''/w/b''"
    "content (wfs sampleDisk) 0 = ''data''" "mode (wfs sampleDisk) 1 = 420" by code_simp+
  moreover have "syscallMode (fileMode 493) = 493" by (simp add: fileMode_def syscallMode_def)
  ultimately show ?thesis using install_copies [OF t] install_copies [OF u] t u by auto
qed

end
