(* ===== verification/Remote.thy ===== *)
theory Remote
  imports Os Go_Loops
begin

text \<open>
  \<open>src/pkg/cmd/remote/remote.go\<close>: the program as it runs on a vm. \<open>os.Args\<close> is an argument.
  The flag library, the output of started processes and the Kubernetes API are the parameters
  \<open>remote_lib\<close>; whether a request fails is asked of the environment. The loops that wait
  without a bound may not return, so the command is a \<open>goP\<close>. The byte slices \<open>rke2Sus\<close> and
  \<open>rke2Debug\<close> are formatted and thrown away by the code and are left out.
\<close>

section \<open>Libraries\<close>

record flags =
  fg_prime :: bool
  fg_worker :: bool
  fg_upstream :: string
  fg_vip :: string

record condition =
  kd_Type :: string
  kd_Status :: string

record knode =
  kn_Name :: string
  kn_Conditions :: "condition list"

text \<open>
  \<open>flag.Parse\<close> gives the flags or ends the process with a status; \<open>SetNestedField\<close> gives the
  object it leaves behind (its error is dropped).
\<close>

record remote_lib =
  rl_parse :: "string list \<Rightarrow> nat + flags"
  rl_output :: "event list \<Rightarrow> string \<times> string"
  rl_service :: "event list \<Rightarrow> kval"
  rl_setNested :: "kval \<Rightarrow> kval \<Rightarrow> string list \<Rightarrow> kval"
  rl_nodes :: "event list \<Rightarrow> knode list"

definition sleepG :: "unit io" where
  "sleepG = answer (\<lambda>_. ()) EvSleep"

section \<open>The service hacks\<close>

definition kubeConfig :: string where
  "kubeConfig = ''/root/.kube/config''"

text \<open>A failed round: a message, a second of sleep, and once more.\<close>

definition pollRetry :: "string \<Rightarrow> int \<Rightarrow> (int \<times> bool) io" where
  "pollRetry msg cnt =
     bindG (printG (msg @ showInt cnt @ newline)) (\<lambda>_.
     bindG sleepG (\<lambda>_. returnG (cnt, False)))"

definition orRetry :: "unit io \<Rightarrow> string \<Rightarrow> int \<Rightarrow> (int \<times> bool) io \<Rightarrow> (int \<times> bool) io" where
  "orRetry m msg cnt k =
     bindG (tryG m) (\<lambda>r. case r of Inl _ \<Rightarrow> pollRetry msg cnt | Inr _ \<Rightarrow> k)"

definition serviceRound ::
  "env \<Rightarrow> remote_lib \<Rightarrow> string \<Rightarrow> string \<Rightarrow> int \<Rightarrow> (int \<times> bool) io" where
  "serviceRound env lib ns svc cnt0 =
     (let cnt = cnt0 + 1 in
      orRetry (request env (EvKube (KBuildConfig kubeConfig))) ''k8s config error '' cnt (
      orRetry (request env (EvKube KDynamicClient)) ''k8s dynclient error '' cnt (
      bindG getW (\<lambda>w.
      orRetry (request env (EvKube (KGetService ns svc))) ''service crd error '' cnt (
      let service = rl_setNested lib (rl_service lib (hist w)) (KStr ''10.200.200.253'')
                      [''spec'', ''loadBalancerIP''] in
      orRetry (request env (EvKube (KUpdateService ns service))) ''add vip ip address '' cnt (
      returnG (cnt, True)))))))"

definition serviceHack ::
  "env \<Rightarrow> remote_lib \<Rightarrow> string \<Rightarrow> string \<Rightarrow> string \<Rightarrow> (world, unit) goP" where
  "serviceHack env lib ns svc what =
     bindP (untilP (serviceRound env lib ns svc) 0) (\<lambda>_.
     liftP (printG (''hacked the vip for '' @ what @ newline)))"

section \<open>Installing rke2\<close>

definition kubeletSysctlFile :: string where
  "kubeletSysctlFile = ''/etc/sysctl.d/90-kubelet.conf''"

definition kubeletSysctlData :: string where
  "kubeletSysctlData = asLines
     [''vm.panic_on_oom=0'', ''vm.overcommit_memory=1'', ''kernel.panic=10'', ''kernel.panic_on_oops=1'',
      ''kernel.keys.root_maxkeys=1000000'', ''kernel.keys.root_maxbytes=25000000'',
      ''net.ipv6.conf.all.disable_ipv6=1'', ''net.ipv4.ip_forward=1'', ''net.ipv4.conf.all.forwarding=1'',
      ''net.ipv4.conf.default.forwarding=1'', ''# net.nf_conntrack_max=131072'',
      ''# net.netfilter.nf_conntrack_tcp_timeout_established=8640'',
      ''# net.netfilter.nf_conntrack_tcp_timeout_close_wait=3600'']"

text \<open>
  \<open>cmd.Run()\<close> with both streams collected in the buffers all commands share; a failure prints
  them.
\<close>

definition runLogged ::
  "env \<Rightarrow> remote_lib \<Rightarrow> string \<Rightarrow> string list \<Rightarrow> string list \<Rightarrow> string \<times> string \<Rightarrow> (string \<times> string) io" where
  "runLogged env lib cmd cargs vars buf =
     bindG getW (\<lambda>w.
     bindG (tryG (osExec env cmd cargs vars)) (\<lambda>r.
     let outStr = fst buf @ fst (rl_output lib (hist w)); errStr = snd buf @ snd (rl_output lib (hist w)) in
     (case r of
        Inr _ \<Rightarrow> returnG (outStr, errStr)
      | Inl e \<Rightarrow>
          bindG (printG (''out:'' @ newline @ outStr @ newline @ ''err:'' @ newline @ errStr @ newline)) (\<lambda>_.
          bindG (printG (''err is: '' @ errText e @ newline)) (\<lambda>_. failG e)))))"

definition commonConfig :: string where
  "commonConfig = asLines [''---'', ''token: bootstraptoken'']"

definition rke2Rest :: string where
  "rke2Rest = asLines
     [''write-kubeconfig-mode: '' @ [CHR 0x22] @ ''0644'' @ [CHR 0x22], ''selinux: false'', ''disable:'',
      ''#- rke2-ingress-nginx'', ''- rke2-snapshot-validation-webhook'', ''- rke2-snapshot-controller'',
      ''- rke2-snapshot-controller-crd'']"

definition rke2Tls :: "string \<Rightarrow> string io" where
  "rke2Tls vip =
     (let parts = splitOn (CHR '':'') vip in
      bindG (indexG parts 1) (\<lambda>p1.
      bindG (indexG parts 0) (\<lambda>p0.
      returnG (asLines [''tls-san:'', ''  - '' @ p1, ''  - '' @ p0]))))"

definition rke2Config :: "flags \<Rightarrow> string io" where
  "rke2Config fl =
     bindG (if \<not> fg_worker fl then
              bindG (if fg_vip fl \<noteq> '''' then rke2Tls (fg_vip fl) else returnG '''') (\<lambda>tls.
              returnG (commonConfig @ rke2Rest @ tls))
            else returnG commonConfig) (\<lambda>conf.
     returnG (if \<not> fg_prime fl then conf @ asLines [''server: https://'' @ fg_upstream fl @ '':9345''] else conf))"

definition rke2ConfigFile :: string where
  "rke2ConfigFile = pathJoin [''/etc/rancher/rke2'', ''config.yaml'']"

text \<open>Up to and including \<open>install.sh\<close>; gives the buffers.\<close>

definition k8sPrepare :: "env \<Rightarrow> remote_lib \<Rightarrow> flags \<Rightarrow> (string \<times> string) io" where
  "k8sPrepare env lib fl =
     bindG (printG (kubeletSysctlFile @ newline)) (\<lambda>_.
     bindG (osWriteFile env kubeletSysctlFile kubeletSysctlData (perm 6 0 0)) (\<lambda>_.
     bindG (runLogged env lib ''sysctl'' [''-p'', kubeletSysctlFile] [] ('''', '''')) (\<lambda>buf.
     bindG (osMkdirAll env ''/etc/rancher/rke2'') (\<lambda>_.
     bindG (printG (rke2ConfigFile @ newline)) (\<lambda>_.
     bindG (rke2Config fl) (\<lambda>conf.
     bindG (osWriteFile env rke2ConfigFile conf (perm 6 0 0)) (\<lambda>_.
     bindG (printG (''rke2 install.sh'' @ newline)) (\<lambda>_.
     runLogged env lib ''/tmp/rke2/install.sh'' []
       ([''INSTALL_RKE2_ARTIFACT_PATH=/tmp/rke2''] @
        (if fg_worker fl then [''INSTALL_RKE2_TYPE=agent''] else [])) buf))))))))"

definition agentStart :: "env \<Rightarrow> remote_lib \<Rightarrow> string \<times> string \<Rightarrow> unit io" where
  "agentStart env lib buf =
     bindG (printG (''starting rke2-agent'' @ newline)) (\<lambda>_.
     bindG (runLogged env lib ''systemctl'' [''enable'', ''--now'', ''rke2-agent''] [] buf) (\<lambda>_.
     returnG ()))"

text \<open>Starts the server and prepares the client; gives the host name.\<close>

definition serverStart :: "env \<Rightarrow> remote_lib \<Rightarrow> string \<times> string \<Rightarrow> string io" where
  "serverStart env lib buf =
     bindG (printG (''starting rke2-server'' @ newline)) (\<lambda>_.
     bindG (runLogged env lib ''systemctl'' [''enable'', ''--now'', ''rke2-server''] [] buf) (\<lambda>_.
     bindG (printG (''/etc/profile.d/rke2.sh'' @ newline)) (\<lambda>_.
     bindG (osWriteFile env ''/etc/profile.d/rke2.sh'' ''PATH=$PATH:/var/lib/rancher/rke2/bin'' (perm 4 0 0)) (\<lambda>_.
     bindG (printG (''/root/.kube/config symlink'' @ newline)) (\<lambda>_.
     bindG (osMkdirAll env (pathDir kubeConfig)) (\<lambda>_.
     bindG (osSymlink env ''/etc/rancher/rke2/rke2.yaml'' kubeConfig) (\<lambda>_.
     bindG (request env (EvKube (KBuildConfig kubeConfig))) (\<lambda>_.
     bindG (request env (EvKube KClientset)) (\<lambda>_.
     bindG (request env EvHostname) (\<lambda>_.
     returnG (e_hostname env)))))))))))"

section \<open>Waiting for the node\<close>

definition conditionStep :: "condition \<Rightarrow> int \<times> bool \<Rightarrow> (int \<times> bool) io" where
  "conditionStep c st =
     (case st of (cnt, ready) \<Rightarrow>
      if kd_Type c = ''Ready'' then
        if kd_Status c = ''True'' then
          bindG (printG (''ready'' @ newline)) (\<lambda>_. returnG (cnt, True))
        else
          bindG (printG (''not ready: '' @ showInt (cnt + 1) @ newline)) (\<lambda>_. returnG (cnt + 1, ready))
      else returnG (cnt, ready))"

definition nodeStep :: "string \<Rightarrow> knode \<Rightarrow> int \<times> bool \<Rightarrow> (int \<times> bool) io" where
  "nodeStep hostname node st =
     (if hostname = kn_Name node then forG (kn_Conditions node) conditionStep st else returnG st)"

definition nodesRound ::
  "env \<Rightarrow> remote_lib \<Rightarrow> string \<Rightarrow> int \<times> int \<Rightarrow> ((int \<times> int) \<times> bool) io" where
  "nodesRound env lib hostname cnts =
     (case cnts of (cnt, ncnt) \<Rightarrow>
      bindG getW (\<lambda>w.
      bindG (tryG (request env (EvKube KListNodes))) (\<lambda>r.
      (case r of
         Inl _ \<Rightarrow>
           bindG (printG (''node list failed '' @ showInt ncnt @ newline)) (\<lambda>_.
           bindG sleepG (\<lambda>_. returnG ((0, ncnt + 1), False)))
       | Inr _ \<Rightarrow>
           bindG (forG (rl_nodes lib (hist w)) (nodeStep hostname) (cnt, False)) (\<lambda>(cnt, ready).
           bindG sleepG (\<lambda>_. returnG ((cnt, 0), ready)))))))"

definition k8sInstall :: "env \<Rightarrow> remote_lib \<Rightarrow> flags \<Rightarrow> (world, unit) goP" where
  "k8sInstall env lib fl =
     bindP (liftP (k8sPrepare env lib fl)) (\<lambda>buf.
     if \<not> fg_worker fl then
       bindP (liftP (serverStart env lib buf)) (\<lambda>hostname.
       bindP (untilP (nodesRound env lib hostname) (0, 0)) (\<lambda>_. liftP (returnG ())))
     else liftP (agentStart env lib buf))"

section \<open>The command\<close>

definition remoteCmd :: "env \<Rightarrow> remote_lib \<Rightarrow> string list \<Rightarrow> (world, unit) goP" where
  "remoteCmd env lib osArgs =
     (if length osArgs > 1 then
        if osArgs ! 1 = ''initcheck'' then
          liftP (bindG (printG (''ok'' @ newline)) (\<lambda>_. exitG 0))
        else if osArgs ! 1 = ''hostname'' then
          liftP (bindG (tryG (request env EvHostname)) (\<lambda>r.
            (case r of
               Inl e \<Rightarrow> bindG (printG (errText e @ newline)) (\<lambda>_. failG e)
             | Inr _ \<Rightarrow> printG (e_hostname env @ newline))))
        else if osArgs ! 1 = ''aihack'' then serviceHack env lib ''ai'' ''open-webui'' ''open-webui''
        else if osArgs ! 1 = ''nexushack'' then
          serviceHack env lib ''nexus'' ''nexus-nexus-repository-manager'' ''nexus''
        else if osArgs ! 1 = ''k8s'' then
          bindP (if length osArgs > 2 then
                   (case rl_parse lib (tl osArgs) of
                      Inl status \<Rightarrow> liftP (exitG status)
                    | Inr fl \<Rightarrow> k8sInstall env lib fl)
                 else liftP (returnG ())) (\<lambda>_.
          liftP (bindG (tryG (osRemoveAll env ''/tmp/rke2'')) (\<lambda>_. returnG ())))
        else liftP (printG (''you should not be running this command generally'' @ newline))
      else liftP (printG (''I am not intended to be used directly outside of tooling'' @ newline)))"

end
