(* ===== verification/Remote_Laws.thy ===== *)
theory Remote_Laws
  imports Remote Traces
begin

text \<open>
  What the remote command does: the commands it runs and their order, the configuration it
  writes, when its waiting loops end, and what a server installation has seen before it returns.
\<close>

section \<open>Plans\<close>

fun isExec :: "event \<Rightarrow> bool" where
  "isExec (EvExec _ _ _) = True"
| "isExec _ = False"

fun isRemoveAll :: "event \<Rightarrow> bool" where
  "isRemoveAll (EvRemoveAll _) = True"
| "isRemoveAll _ = False"

definition installPlan :: "flags \<Rightarrow> event list" where
  "installPlan fl =
     [EvExec ''sysctl'' [''-p'', kubeletSysctlFile] [],
      EvExec ''/tmp/rke2/install.sh'' []
        ([''INSTALL_RKE2_ARTIFACT_PATH=/tmp/rke2''] @ (if fg_worker fl then [''INSTALL_RKE2_TYPE=agent''] else [])),
      EvExec ''systemctl'' [''enable'', ''--now'', if fg_worker fl then ''rke2-agent'' else ''rke2-server''] []]"

lemma does_runLogged: "does isExec [EvExec c xs vs] (runLogged env lib c xs vs buf)"
proof -
  have "does isExec [EvExec c xs vs] (tryG (osExec env c xs vs))"
    by (auto simp: leaves_def wp_def tryG_def osExec_def request_def seen_def split: option.split)
  then show ?thesis
    unfolding runLogged_def Let_def
    by (intro does_skip does_next silent_frame)
      (auto split: sum.split intro!: does_silent silent_frame)
qed

lemma silent_runLogged [silent_frame]:
  "(\<And>txt. \<not> F (EvPrint txt)) \<Longrightarrow> \<not> F (EvExec c xs vs) \<Longrightarrow> within (silent F) (runLogged env lib c xs vs buf)"
  unfolding runLogged_def Let_def by (auto intro!: silent_frame split: sum.split)

lemma silent_rke2Config [silent_frame]: "within (silent F) (rke2Config fl)"
  unfolding rke2Config_def rke2Tls_def Let_def by (intro silent_frame)

lemma silent_sleep [silent_frame]: "\<not> F EvSleep \<Longrightarrow> within (silent F) sleepG"
  unfolding sleepG_def by (rule silent_frame)

lemma silent_conditions [silent_frame]:
  "(\<And>txt. \<not> F (EvPrint txt)) \<Longrightarrow> within (silent F) (conditionStep c st)"
  unfolding conditionStep_def by (auto intro!: silent_frame split: prod.split)

lemma silent_nodesRound [silent_frame]:
  "(\<And>txt. \<not> F (EvPrint txt)) \<Longrightarrow> \<not> F EvSleep \<Longrightarrow> \<not> F (EvKube KListNodes) \<Longrightarrow>
     within (silent F) (nodesRound env lib h c)"
  unfolding nodesRound_def nodeStep_def by (auto intro!: silent_frame split: prod.split sum.split)

lemma does_k8sPrepare: "does isExec (take 2 (installPlan fl)) (k8sPrepare env lib fl)"
  unfolding k8sPrepare_def
  apply (simp only: installPlan_def numeral_2_eq_2 take_Suc_Cons take0)
  apply (rule does_skip, intro silent_frame, simp)
  apply (rule does_skip, intro silent_frame, simp, simp)
  apply (rule does_next, rule does_runLogged)
  apply (rule does_skip, intro silent_frame, simp)
  apply (rule does_skip, intro silent_frame, simp)
  apply (rule does_skip, intro silent_frame)
  apply (rule does_skip, intro silent_frame, simp, simp)
  apply (rule does_skip, intro silent_frame, simp)
  apply (rule does_runLogged)
  done

lemma does_agentStart: "fg_worker fl \<Longrightarrow> does isExec (drop 2 (installPlan fl)) (agentStart env lib buf)"
  unfolding agentStart_def installPlan_def
  apply simp
  apply (rule does_skip, intro silent_frame, simp)
  apply (rule does_next, rule does_runLogged, rule does_silent, intro silent_frame)
  done

lemma does_serverStart: "\<not> fg_worker fl \<Longrightarrow> does isExec (drop 2 (installPlan fl)) (serverStart env lib buf)"
  unfolding serverStart_def installPlan_def
  apply simp
  apply (rule does_skip, intro silent_frame, simp)
  apply (rule does_next, rule does_runLogged, rule does_silent)
  apply (intro silent_frame; simp)
  done

lemma doesP_k8sInstall: "doesP isExec (installPlan fl) (k8sInstall env lib fl)"
proof -
  have "doesP isExec (drop 2 (installPlan fl)) (if \<not> fg_worker fl then
       bindP (liftP (serverStart env lib buf)) (\<lambda>hostname.
       bindP (untilP (nodesRound env lib hostname) (0, 0)) (\<lambda>_. liftP (returnG ())))
     else liftP (agentStart env lib buf))" for buf
  proof (cases "fg_worker fl")
    case True
    then show ?thesis by (simp add: doesP_lift does_agentStart)
  next
    case False
    have "doesP isExec ([] @ []) (bindP (untilP (nodesRound env lib h) (0, 0)) (\<lambda>_. liftP (returnG ())))" for h
      by (intro doesP_bind doesP_until doesP_lift does_silent silent_frame) auto
    from doesP_bind [OF doesP_lift [OF does_serverStart [OF False]] this] False show ?thesis by simp
  qed
  from doesP_bind [OF doesP_lift [OF does_k8sPrepare [where fl = fl]] this] show ?thesis
    by (simp only: k8sInstall_def append_take_drop_id)
qed

text \<open>How a \<open>k8s\<close> call with arguments is split up.\<close>

definition k8sArgs :: "remote_lib \<Rightarrow> string list \<Rightarrow> flags \<Rightarrow> bool" where
  "k8sArgs lib osArgs fl \<longleftrightarrow> 2 < length osArgs \<and> osArgs ! 1 = ''k8s'' \<and> rl_parse lib (tl osArgs) = Inr fl"

text \<open>The clean-up never fails.\<close>

definition cleanUp :: "env \<Rightarrow> unit io" where
  "cleanUp env = bindG (tryG (osRemoveAll env ''/tmp/rke2'')) (\<lambda>_. returnG ())"

lemma cleanUp_Ok: "\<exists>t. cleanUp env s = (Ok (), t)"
  by (auto simp: cleanUp_def osRemoveAll_def bindG_def tryG_def go_defs split: option.split)

lemma remoteCmd_k8s:
  "k8sArgs lib osArgs fl \<Longrightarrow> remoteCmd env lib osArgs = bindP (k8sInstall env lib fl) (\<lambda>_. liftP (cleanUp env))"
  by (simp add: k8sArgs_def remoteCmd_def cleanUp_def)

lemma remoteCmd_k8s_cases:
  assumes "k8sArgs lib osArgs fl" and "remoteCmd env lib osArgs s = Some (r, u)"
  obtains (stopped) "k8sInstall env lib fl s = Some (r, u)" "r \<noteq> Ok ()"
  | (finished) t where "k8sInstall env lib fl s = Some (Ok (), t)" "r = Ok ()" "cleanUp env t = (Ok (), u)"
proof -
  have run: "bindP (k8sInstall env lib fl) (\<lambda>_. liftP (cleanUp env)) s = Some (r, u)"
    using assms by (simp add: remoteCmd_k8s)
  then obtain r1 t where i: "k8sInstall env lib fl s = Some (r1, t)"
    by (auto simp: bindP_def split: option.splits)
  show ?thesis
  proof (cases r1)
    case (Ok a)
    obtain v where v: "cleanUp env t = (Ok (), v)" using cleanUp_Ok by blast
    with run i Ok have "r = Ok ()" "u = v" by (simp_all add: bindP_def liftP_def)
    with i Ok v show ?thesis by (intro finished) simp_all
  qed (use run i in \<open>auto simp: bindP_def intro: stopped\<close>)
qed

section \<open>The service loop\<close>

lemma orRetry_run:
  "orRetry (request env ev) msg cnt k s =
     (case e_fault env (hist s) ev of
        None \<Rightarrow> k (s\<lparr>hist := hist s @ [ev]\<rparr>)
      | Some e \<Rightarrow> (Ok (cnt, False),
          s\<lparr>hist := hist s @ [ev, EvPrint (msg @ showInt cnt @ newline), EvSleep]\<rparr>))"
  by (simp add: orRetry_def pollRetry_def sleepG_def printG_def bindG_def tryG_def go_defs split: option.split)

text \<open>The object a round sends back, from the history at its \<open>Get\<close>.\<close>

definition vipService :: "remote_lib \<Rightarrow> event list \<Rightarrow> kval" where
  "vipService lib h =
     rl_setNested lib (rl_service lib h) (KStr ''10.200.200.253'') [''spec'', ''loadBalancerIP'']"

definition roundEvents :: "remote_lib \<Rightarrow> string \<Rightarrow> string \<Rightarrow> event list \<Rightarrow> event list" where
  "roundEvents lib ns svc h =
     [EvKube (KBuildConfig kubeConfig), EvKube KDynamicClient, EvKube (KGetService ns svc),
      EvKube (KUpdateService ns (vipService lib (h @ [EvKube (KBuildConfig kubeConfig), EvKube KDynamicClient])))]"

text \<open>A round has the answer exactly when none of its four requests fails.\<close>

lemma serviceRound_True:
  "serviceRound env lib ns svc c s = (Ok (c', True), t) \<longleftrightarrow>
     c' = c + 1 \<and> t = s\<lparr>hist := hist s @ roundEvents lib ns svc (hist s)\<rparr> \<and>
     (\<forall>k<4. e_fault env (hist s @ take k (roundEvents lib ns svc (hist s)))
               (roundEvents lib ns svc (hist s) ! k) = None)"
  by (auto simp: serviceRound_def Let_def orRetry_run roundEvents_def vipService_def bindG_def getW_def
      returnG_def less_Suc_eq numeral_eq_Suc split: option.splits)

lemma serviceRound_Ok: "\<exists>b fin t. serviceRound env lib ns svc c s = (Ok (b, fin), t)"
  by (auto simp: serviceRound_def Let_def orRetry_run bindG_def getW_def returnG_def split: option.split)

lemma serviceRound_time:
  "serviceRound env lib ns svc c s = (Ok (b, False), t) \<Longrightarrow> length (hist s) < length (hist t)"
  by (auto simp: serviceRound_def Let_def orRetry_run bindG_def getW_def returnG_def split: option.splits)

interpretation vipHack: poller "serviceRound env lib ns svc" "\<lambda>s. length (hist s)" for env lib ns svc
  by unfold_locales (rule serviceRound_Ok, erule serviceRound_time)

section \<open>The node loop\<close>

definition nodeReady :: "string \<Rightarrow> knode list \<Rightarrow> bool" where
  "nodeReady h ns \<longleftrightarrow> (\<exists>n\<in>set ns. kn_Name n = h \<and>
     (\<exists>c\<in>set (kn_Conditions n). kd_Type c = ''Ready'' \<and> kd_Status c = ''True''))"

lemma conditionStep_run:
  "\<exists>k t. conditionStep c (cnt, ready) s = (Ok (k, ready \<or> (kd_Type c = ''Ready'' \<and> kd_Status c = ''True'')), t) \<and>
     silent (\<lambda>e. \<not> (\<exists>txt. e = EvPrint txt)) s t"
  by (auto simp: conditionStep_def bindG_def printG_def answer_def returnG_def seen_def)

lemma conditions_run:
  "\<exists>k t. forG cs conditionStep (cnt, ready) s =
       (Ok (k, ready \<or> (\<exists>c\<in>set cs. kd_Type c = ''Ready'' \<and> kd_Status c = ''True'')), t) \<and>
     silent (\<lambda>e. \<not> (\<exists>txt. e = EvPrint txt)) s t"
proof (induction cs arbitrary: cnt ready s)
  case Nil
  then show ?case by (simp add: returnG_def)
next
  case (Cons c cs)
  let ?now = "ready \<or> (kd_Type c = ''Ready'' \<and> kd_Status c = ''True'')"
  from conditionStep_run obtain k u where 1: "conditionStep c (cnt, ready) s = (Ok (k, ?now), u)"
    "silent (\<lambda>e. \<not> (\<exists>txt. e = EvPrint txt)) s u" by blast
  from Cons.IH [of k ?now u] obtain k' t where 2: "forG cs conditionStep (k, ?now) u =
      (Ok (k', ?now \<or> (\<exists>c\<in>set cs. kd_Type c = ''Ready'' \<and> kd_Status c = ''True'')), t)"
    "silent (\<lambda>e. \<not> (\<exists>txt. e = EvPrint txt)) u t" by blast
  from 1 2 show ?case by (auto simp: bindG_def intro: seen_silent)
qed

lemma nodes_run:
  "\<exists>k t. forG ns (nodeStep h) (cnt, ready) s = (Ok (k, ready \<or> nodeReady h ns), t) \<and>
     silent (\<lambda>e. \<not> (\<exists>txt. e = EvPrint txt)) s t"
proof (induction ns arbitrary: cnt ready s)
  case Nil
  then show ?case by (simp add: returnG_def nodeReady_def)
next
  case (Cons n ns)
  let ?now = "ready \<or> nodeReady h [n]"
  have "\<exists>k u. nodeStep h n (cnt, ready) s = (Ok (k, ?now), u) \<and> silent (\<lambda>e. \<not> (\<exists>txt. e = EvPrint txt)) s u"
    using conditions_run [of "kn_Conditions n" cnt ready s] by (auto simp: nodeStep_def nodeReady_def returnG_def)
  then obtain k u where 1: "nodeStep h n (cnt, ready) s = (Ok (k, ?now), u)"
    "silent (\<lambda>e. \<not> (\<exists>txt. e = EvPrint txt)) s u" by blast
  from Cons.IH [of k ?now u] obtain k' t where 2: "forG ns (nodeStep h) (k, ?now) u =
      (Ok (k', ?now \<or> nodeReady h ns), t)" "silent (\<lambda>e. \<not> (\<exists>txt. e = EvPrint txt)) u t" by blast
  have "nodeReady h (n # ns) = (nodeReady h [n] \<or> nodeReady h ns)" by (auto simp: nodeReady_def)
  with 1 2 show ?case by (auto simp: bindG_def intro: seen_silent)
qed

lemma nodesRound_run:
  "\<exists>c' t. nodesRound env lib h c s =
       (Ok (c', e_fault env (hist s) (EvKube KListNodes) = None \<and> nodeReady h (rl_nodes lib (hist s))), t) \<and>
     prefix (hist s @ [EvKube KListNodes]) (hist t)"
proof (cases "e_fault env (hist s) (EvKube KListNodes)")
  case None
  let ?s = "s\<lparr>hist := hist s @ [EvKube KListNodes]\<rparr>"
  from nodes_run [of "rl_nodes lib (hist s)" h "fst c" False ?s] obtain k t
    where "forG (rl_nodes lib (hist s)) (nodeStep h) (fst c, False) ?s =
        (Ok (k, nodeReady h (rl_nodes lib (hist s))), t)"
      "silent (\<lambda>e. \<not> (\<exists>txt. e = EvPrint txt)) ?s t" by auto
  with None show ?thesis
    by (cases c) (auto simp: nodesRound_def bindG_def tryG_def getW_def request_def sleepG_def answer_def
        returnG_def seen_def)
next
  case (Some e)
  then show ?thesis
    by (cases c) (auto simp: nodesRound_def bindG_def tryG_def getW_def request_def sleepG_def answer_def
        printG_def returnG_def)
qed

lemma nodesRound_time:
  "nodesRound env lib h c s = (Ok (b, fin), t) \<Longrightarrow> length (hist s) < length (hist t)"
  using nodesRound_run [of env lib h c s] by (auto dest: prefix_length_le)

interpretation nodeWait: poller "nodesRound env lib h" "\<lambda>s. length (hist s)" for env lib h
proof
  show "\<exists>b' fin t. nodesRound env lib h b s = (Ok (b', fin), t)" for b s
    using nodesRound_run [of env lib h b s] by blast
qed (rule nodesRound_time)

section \<open>A finished server installation\<close>

lemma k8sInstall_server:
  assumes "k8sInstall env lib fl s = Some (Ok (), u)" and "\<not> fg_worker fl"
  obtains buf t v where "k8sPrepare env lib fl s = (Ok buf, t)"
    "serverStart env lib buf t = (Ok (e_hostname env), v)"
    "\<exists>c. untilP (nodesRound env lib (e_hostname env)) (0, 0) v = Some (Ok c, u)"
proof -
  from assms(1) obtain buf t where 1: "k8sPrepare env lib fl s = (Ok buf, t)"
    and "bindP (liftP (serverStart env lib buf)) (\<lambda>hostname.
       bindP (untilP (nodesRound env lib hostname) (0, 0)) (\<lambda>_. liftP (returnG ()))) t = Some (Ok (), u)"
    unfolding k8sInstall_def by (rule bindP_lift_OkE) (use assms(2) in simp)
  from this(2) obtain h v where 2: "serverStart env lib buf t = (Ok h, v)"
    and 3: "bindP (untilP (nodesRound env lib h) (0, 0)) (\<lambda>_. liftP (returnG ())) v = Some (Ok (), u)"
    by (rule bindP_lift_OkE)
  from 3 have 3: "\<exists>c. untilP (nodesRound env lib h) (0, 0) v = Some (Ok c, u)"
    by (auto elim!: bindP_OkE simp: liftP_def returnG_def)
  from 2 have "h = e_hostname env"
    unfolding serverStart_def by (auto elim!: bindG_OkE simp: returnG_def)
  with that 1 2 3 show ?thesis by blast
qed

lemma serverStart_since:
  assumes "k8sPrepare env lib fl s = (Ok buf, t)" and "serverStart env lib buf t = (r, v)"
  shows "prefix (hist s) (hist v)"
proof -
  have r: "within grows (runLogged env lib c xs vs b)" for c xs vs b
    unfolding runLogged_def Let_def by (auto intro!: grow_frame split: sum.split)
  have k: "within grows (rke2Config fl)"
    unfolding rke2Config_def rke2Tls_def Let_def by (intro grow_frame)
  have "within grows (k8sPrepare env lib fl)" "within grows (serverStart env lib buf)"
    unfolding k8sPrepare_def serverStart_def by (intro grow_frame r k)+
  from withinD [OF this(1) assms(1)] withinD [OF this(2) assms(2)] show ?thesis
    by (auto simp: grows_def intro: prefix_order.trans)
qed

lemma nodesRound_since:
  assumes "prefix (hist s) (hist w)" and "nodesRound env lib h c w = (Ok (c', False), u)"
  shows "prefix (hist s) (hist u)"
  using nodesRound_run [of env lib h c w] assms by (auto intro: prefix_order.trans append_prefixD)

lemma cleanUp_hist: "cleanUp env s = (r, t) \<Longrightarrow> hist t = hist s @ [EvRemoveAll ''/tmp/rke2'']"
  by (auto simp: cleanUp_def osRemoveAll_def bindG_def tryG_def go_defs split: option.splits)

section \<open>Symbolic links\<close>

definition keepsLinks :: "world \<Rightarrow> world \<Rightarrow> bool" where
  "keepsLinks s t \<longleftrightarrow> (\<forall>n. links (wfs s) n \<noteq> None \<longrightarrow> links (wfs t) n \<noteq> None)"

interpretation keepl: step_rel keepsLinks
  by unfold_locales (auto simp: keepsLinks_def)

named_theorems link_frame
declare keepl.within_intros [link_frame]

lemma mkChain_links: "links (fst (mkChain ps fs)) = links fs"
  by (induction ps fs rule: mkChain.induct) (auto split: option.splits entry.splits)

lemma within_links [link_frame]:
  "within keepsLinks (request env ev)" "within keepsLinks (answer f ev)" "within keepsLinks (printG txt)"
  "within keepsLinks getW" "within keepsLinks sleepG" "within keepsLinks (osMkdirAll env d)"
  by (auto simp: within_def keepsLinks_def go_defs printG_def sleepG_def osMkdirAll_def bindG_def tryG_def
      mkChain_links split: option.splits)

lemma openTrunc_links: "openTrunc p m fs = Inr (i, fs') \<Longrightarrow> links fs' = links fs"
  by (auto simp: openTrunc_def newInode_def bindName_def setContent_def split: option.splits entry.splits if_splits)

lemma within_links_write [link_frame]: "within keepsLinks (osWriteFile env p d m)"
  by (auto simp: within_def keepsLinks_def osWriteFile_def bindG_def tryG_def go_defs setContent_def
      dest!: openTrunc_links split: option.splits sum.splits)

lemma within_links_run [link_frame]:
  "within keepsLinks (runLogged env lib c xs vs buf)" "within keepsLinks (rke2Config fl)"
  "within keepsLinks (k8sPrepare env lib fl)" "within keepsLinks (nodesRound env lib h cs)"
proof -
  show r: "within keepsLinks (runLogged env lib c xs vs buf)" for c xs vs buf
    unfolding runLogged_def Let_def osExec_def by (auto intro!: link_frame split: sum.split)
  show k: "within keepsLinks (rke2Config fl)"
    unfolding rke2Config_def rke2Tls_def Let_def by (intro link_frame)
  show "within keepsLinks (k8sPrepare env lib fl)"
    unfolding k8sPrepare_def by (intro link_frame r k)
  show "within keepsLinks (nodesRound env lib h cs)"
    unfolding nodesRound_def nodeStep_def conditionStep_def
    by (auto intro!: link_frame split: prod.split sum.split)
qed

definition linked :: "world \<Rightarrow> bool" where
  "linked s \<longleftrightarrow> links (wfs s) (pathClean kubeConfig) \<noteq> None"

lemma linked_keeps: "keepsLinks s t \<Longrightarrow> linked s \<Longrightarrow> linked t"
  by (simp add: linked_def keepsLinks_def)

lemma symlink_linked: "osSymlink env old kubeConfig s = (Ok (), t) \<Longrightarrow> \<not> linked s \<and> linked t"
  by (auto simp: osSymlink_def linked_def bindG_def go_defs split: option.splits if_splits)

text \<open>Starting a server makes the link, and fails where there is one.\<close>

lemma serverStart_linked:
  assumes "serverStart env lib buf s = (Ok h, t)"
  shows "\<not> linked s \<and> linked t"
proof -
  have keep: "wp m Q (\<lambda>_. True) u" if "within keepsLinks m" "\<And>a v. (linked u \<Longrightarrow> linked v) \<Longrightarrow> Q a v" for m :: "'x io" and Q u
    by (rule wp_within [OF that(1)]) (use that(2) linked_keeps in blast)+
  have link: "wp (osSymlink env old kubeConfig) Q (\<lambda>_. True) u"
    if "\<And>v. \<not> linked u \<Longrightarrow> linked v \<Longrightarrow> Q () v" for old Q u
    using that symlink_linked [of env old u] by (auto simp: wp_def split: prod.split outcome.split)
  have "wp (serverStart env lib buf) (\<lambda>_ t. \<not> linked s \<and> linked t) (\<lambda>_. True) s"
    unfolding serverStart_def
    apply (rule wp_bind, rule keep, intro link_frame)+
    apply (rule wp_bind, rule link)
    apply (rule wp_bind, rule keep, intro link_frame)+
    apply (rule wp_return)
    apply blast
    done
  from wp_Ok [OF this assms] show ?thesis .
qed

lemma removeAll_links:
  "bindG (tryG (osRemoveAll env p)) (\<lambda>_. returnG ()) s = (r, t) \<Longrightarrow> \<not> under p n \<Longrightarrow>
     links (wfs t) n = links (wfs s) n"
  by (auto simp: osRemoveAll_def bindG_def tryG_def go_defs dropNames_def split: option.splits)

lemma cleanUp_links:
  assumes "cleanUp env s = (r, t)" and "linked s"
  shows "linked t"
proof -
  have "\<not> under ''/tmp/rke2'' (pathClean kubeConfig)" by code_simp
  from removeAll_links [OF assms(1) [unfolded cleanUp_def] this] assms(2) show ?thesis
    unfolding linked_def by metis
qed

lemma k8sInstall_linked:
  assumes "k8sInstall env lib fl s = Some (Ok (), u)" and "\<not> fg_worker fl"
  shows "\<not> linked s \<and> linked u"
proof -
  obtain buf t v where 1: "k8sPrepare env lib fl s = (Ok buf, t)"
    and 2: "serverStart env lib buf t = (Ok (e_hostname env), v)"
    and "\<exists>c. untilP (nodesRound env lib (e_hostname env)) (0, 0) v = Some (Ok c, u)"
    by (rule k8sInstall_server [OF assms])
  then obtain c where 3: "untilP (nodesRound env lib (e_hostname env)) (0, 0) v = Some (Ok c, u)" by blast
  have "keepsLinks s t" using withinD [OF within_links_run(3) 1] .
  with serverStart_linked [OF 2] have "\<not> linked s" "linked v" using linked_keeps by blast+
  moreover from untilP_result [OF 3, of "\<lambda>_ w. linked w"] \<open>linked v\<close>
  obtain c' w where "linked w" "nodesRound env lib (e_hostname env) c' w = (Ok (c, True), u)"
    using linked_keeps withinD [OF within_links_run(4)] by blast
  then have "linked u" using linked_keeps withinD [OF within_links_run(4)] by blast
  ultimately show ?thesis by blast
qed

section \<open>When the loops end\<close>

lemma serviceRound_quiet:
  assumes "\<forall>h ev. n \<le> length h \<longrightarrow> e_fault env h ev = None" and "n \<le> length (hist s)"
  shows "\<exists>b t. serviceRound env lib ns svc c s = (Ok (b, True), t)"
  using assms by (simp add: serviceRound_True)

lemma serviceRound_since:
  assumes "prefix (hist s) (hist w)" and "serviceRound env lib ns svc c w = (r, u)"
  shows "prefix (hist s) (hist u)"
  using assms
  by (auto simp: serviceRound_def orRetry_run Let_def bindG_def getW_def returnG_def prefix_def split: option.splits)

lemma service_hack_run:
  assumes "untilP (serviceRound env lib ns svc) 0 s = Some (Ok c, u)"
  shows "\<exists>h. prefix (hist s) h \<and> hist u = h @ roundEvents lib ns svc h"
proof -
  from vipHack.last_round [where I = "\<lambda>w. prefix (hist s) (hist w)", OF assms prefix_order.refl]
  obtain c' w where "prefix (hist s) (hist w)" "serviceRound env lib ns svc c' w = (Ok (c, True), u)"
    using serviceRound_since by blast
  then show ?thesis by (auto simp: serviceRound_True)
qed

lemma serviceHack_returns:
  assumes "\<forall>h ev. n \<le> length h \<longrightarrow> e_fault env h ev = None"
  shows "\<exists>h t. serviceHack env lib ns svc what s = Some (Ok (), t) \<and> prefix (hist s) h \<and>
    hist t = h @ roundEvents lib ns svc h @ [EvPrint (''hacked the vip for '' @ what @ newline)]"
proof -
  from vipHack.returns [of n env lib ns svc 0 s] serviceRound_quiet [OF assms]
  obtain c u where u: "untilP (serviceRound env lib ns svc) 0 s = Some (Ok c, u)" by blast
  with service_hack_run [OF u] show ?thesis
    by (auto simp: serviceHack_def bindP_def liftP_def printG_def answer_def)
qed

lemma serviceHack_stuck:
  assumes "\<forall>h obj. e_fault env h (EvKube (KUpdateService ns obj)) \<noteq> None"
  shows "serviceHack env lib ns svc what s = None"
proof -
  have "untilP (serviceRound env lib ns svc) 0 s = None"
  proof (rule vipHack.stuck)
    fix b s b' t
    show "serviceRound env lib ns svc b s \<noteq> (Ok (b', True), t)"
    proof
      assume "serviceRound env lib ns svc b s = (Ok (b', True), t)"
      then have "e_fault env (hist s @ take 3 (roundEvents lib ns svc (hist s)))
          (roundEvents lib ns svc (hist s) ! 3) = None" by (simp add: serviceRound_True)
      then show False by (simp add: roundEvents_def numeral_3_eq_3 assms del: not_None_eq)
    qed
  qed
  then show ?thesis by (simp add: serviceHack_def bindP_def)
qed

definition hackTargets :: "(string \<times> string \<times> string \<times> string) set" where
  "hackTargets = {(''aihack'', ''ai'', ''open-webui'', ''open-webui''),
     (''nexushack'', ''nexus'', ''nexus-nexus-repository-manager'', ''nexus'')}"

lemma remoteCmd_hack:
  "(cmd, ns, svc, what) \<in> hackTargets \<Longrightarrow> remoteCmd env lib (prog # cmd # rest) = serviceHack env lib ns svc what"
  by (auto simp: hackTargets_def remoteCmd_def)

lemma rke2Config_bad_vip:
  assumes "\<not> fg_worker fl" and "fg_vip fl \<noteq> ''''" and "CHR '':'' \<notin> set (fg_vip fl)"
  shows "rke2Config fl = panicG ''index out of range''"
  using assms by (simp add: rke2Config_def rke2Tls_def splitOn_unsplit indexG_def bindG_def panicG_def)

section \<open>A concrete node\<close>

definition sampleFlags :: "bool \<Rightarrow> flags" where
  "sampleFlags worker = \<lparr>fg_prime = \<not> worker, fg_worker = worker, fg_upstream = ''10.0.0.2'', fg_vip = ''10.0.0.9:a.d''\<rparr>"

definition sampleLib :: "bool \<Rightarrow> remote_lib" where
  "sampleLib worker = \<lparr>rl_parse = (\<lambda>_. Inr (sampleFlags worker)), rl_output = (\<lambda>_. ('''', '''')),
     rl_service = (\<lambda>_. KMap []), rl_setNested = (\<lambda>obj v path. KMap [(''spec'', v)]),
     rl_nodes = (\<lambda>_. [\<lparr>kn_Name = ''node-1'', kn_Conditions = [\<lparr>kd_Type = ''Ready'', kd_Status = ''True''\<rparr>]\<rparr>])\<rparr>"

definition nodeWorld :: world where
  "nodeWorld = emptyWorld\<lparr>wfs := (wfs emptyWorld)\<lparr>names := [''/etc/sysctl.d'' \<mapsto> Dir, ''/etc/profile.d'' \<mapsto> Dir,
     ''/etc'' \<mapsto> Dir, ''/root'' \<mapsto> Dir]\<rparr>\<rparr>"

definition nodeArgs :: "string list" where
  "nodeArgs = [''remote'', ''k8s'', ''--prime'']"

lemma nodeArgs_k8s: "k8sArgs (sampleLib worker) nodeArgs (sampleFlags worker)"
  by (simp add: k8sArgs_def nodeArgs_def sampleLib_def)

lemma serverRun: "\<exists>t. remoteCmd calmEnv (sampleLib False) nodeArgs nodeWorld = Some (Ok (), t)"
proof -
  have "map_option fst (remoteCmd calmEnv (sampleLib False) nodeArgs nodeWorld) = Some (Ok ())" by code_simp
  then show ?thesis by auto
qed

section \<open>Properties\<close>

text \<open>
  C10: installing a node runs \<open>sysctl\<close>, the rke2 installer with the variables of the role, and
  \<open>systemctl\<close> for the service of the role, in this order: a normal return has run exactly
  these, and any other ending an initial part of them, so nothing is started after a failure.
\<close>

theorem k8s_exec_order:
  assumes "k8sArgs lib osArgs fl" and "remoteCmd env lib osArgs s = Some (r, t)"
  shows "\<exists>xs. asked isExec xs s t \<and> prefix xs (installPlan fl) \<and> (r = Ok () \<longrightarrow> xs = installPlan fl)"
  using assms
proof (cases rule: remoteCmd_k8s_cases)
  case stopped
  then show ?thesis using doesP_k8sInstall [of fl env lib] unfolding doesP_def by blast
next
  case (finished u)
  have "asked isExec (installPlan fl) s u"
    using finished(1) doesP_k8sInstall [of fl env lib] unfolding doesP_def by blast
  moreover have "silent isExec u t" using cleanUp_hist [OF finished(3)] by (simp add: seen_def)
  ultimately have "asked isExec (installPlan fl) s t" by (rule seen_silent)
  then show ?thesis by (intro exI [of _ "installPlan fl"]) simp
qed

theorem k8s_exec_order_witness:
  "\<exists>t. asked isExec (installPlan (sampleFlags False)) nodeWorld t"
  using serverRun k8s_exec_order [OF nodeArgs_k8s] by blast

text \<open>
  C23: the unpacked installer in \<open>/tmp/rke2\<close> is removed exactly when the installation succeeded:
  every failing path returns before the removal.
\<close>

theorem k8s_cleanup_only_on_success:
  assumes "k8sArgs lib osArgs fl" and "remoteCmd env lib osArgs s = Some (r, t)"
  shows "asked isRemoveAll (if r = Ok () then [EvRemoveAll ''/tmp/rke2''] else []) s t"
proof -
  have "doesP isRemoveAll [] (k8sInstall env lib fl)"
  proof -
    have "doesP isRemoveAll ([] @ [] @ []) (bindP (liftP (k8sPrepare env lib fl)) (\<lambda>buf.
       bindP (liftP (serverStart env lib buf)) (\<lambda>hostname.
       bindP (untilP (nodesRound env lib hostname) (0, 0)) (\<lambda>_. liftP (returnG ())))))"
      unfolding k8sPrepare_def serverStart_def
      by (intro doesP_bind doesP_skip doesP_until doesP_lift does_silent silent_frame) auto
    moreover have "doesP isRemoveAll [] (bindP (liftP (k8sPrepare env lib fl)) (\<lambda>buf. liftP (agentStart env lib buf)))"
      unfolding k8sPrepare_def agentStart_def
      by (intro doesP_skip doesP_lift does_silent silent_frame) auto
    ultimately show ?thesis unfolding k8sInstall_def by (cases "fg_worker fl") simp_all
  qed
  then have none: "silent isRemoveAll s u" if "k8sInstall env lib fl s = Some (r', u)" for r' u
    using that unfolding doesP_def by fastforce
  from assms show ?thesis
  proof (cases rule: remoteCmd_k8s_cases)
    case stopped
    with none show ?thesis by simp
  next
    case (finished u)
    have "asked isRemoveAll [EvRemoveAll ''/tmp/rke2''] u t"
      using cleanUp_hist [OF finished(3)] by (simp add: seen_def)
    with none [OF finished(1)] finished(2) show ?thesis by (auto intro: silent_seen)
  qed
qed

theorem k8s_cleanup_only_on_success_witness:
  "\<exists>t. asked isRemoveAll [EvRemoveAll ''/tmp/rke2''] nodeWorld t"
proof -
  from serverRun obtain t where "remoteCmd calmEnv (sampleLib False) nodeArgs nodeWorld = Some (Ok (), t)" by blast
  from k8s_cleanup_only_on_success [OF nodeArgs_k8s this] show ?thesis by auto
qed

text \<open>
  C11: a server installation only returns without an error after the API has listed this very
  node with a Ready condition that is True.
\<close>

theorem k8s_server_ready:
  assumes "k8sArgs lib osArgs fl" and "\<not> fg_worker fl"
    and "remoteCmd env lib osArgs s = Some (Ok (), t)"
  shows "\<exists>h. prefix (hist s) h \<and> prefix (h @ [EvKube KListNodes]) (hist t) \<and>
    nodeReady (e_hostname env) (rl_nodes lib h)"
  using assms(1,3)
proof (cases rule: remoteCmd_k8s_cases)
  case (finished u)
  from k8sInstall_server [OF finished(1) assms(2)] obtain c v
    where since: "prefix (hist s) (hist v)"
      and loop: "untilP (nodesRound env lib (e_hostname env)) (0, 0) v = Some (Ok c, u)"
    by (metis serverStart_since)
  from nodeWait.last_round [where I = "\<lambda>w. prefix (hist s) (hist w)", OF loop since] obtain c' w
    where w: "prefix (hist s) (hist w)" "nodesRound env lib (e_hostname env) c' w = (Ok (c, True), u)"
    using nodesRound_since by blast
  with nodesRound_run [of env lib "e_hostname env" c' w]
  have "prefix (hist w @ [EvKube KListNodes]) (hist u)" "nodeReady (e_hostname env) (rl_nodes lib (hist w))"
    by auto
  with w(1) cleanUp_hist [OF finished(3)] show ?thesis
    by (intro exI [of _ "hist w"]) (auto intro: prefix_prefix)
qed simp

theorem k8s_server_ready_witness:
  "\<exists>t h. remoteCmd calmEnv (sampleLib False) nodeArgs nodeWorld = Some (Ok (), t) \<and>
     prefix (hist nodeWorld) h \<and> prefix (h @ [EvKube KListNodes]) (hist t)"
proof -
  from serverRun obtain t where t: "remoteCmd calmEnv (sampleLib False) nodeArgs nodeWorld = Some (Ok (), t)" by blast
  have "\<not> fg_worker (sampleFlags False)" by (simp add: sampleFlags_def)
  from k8s_server_ready [OF nodeArgs_k8s this t] t show ?thesis by blast
qed

text \<open>
  C22: a server can be installed only once: after a successful server installation every
  further one on that machine ends with an error, because the symbolic link of the kubeconfig
  already exists.
\<close>

theorem k8s_server_once:
  assumes "k8sArgs lib osArgs fl" and "\<not> fg_worker fl" and "remoteCmd env lib osArgs s = Some (Ok (), t)"
    and "k8sArgs lib' osArgs' fl'" and "\<not> fg_worker fl'"
  shows "remoteCmd env' lib' osArgs' t \<noteq> Some (Ok (), u)"
proof
  assume again: "remoteCmd env' lib' osArgs' t = Some (Ok (), u)"
  from assms(1,3) have "linked t"
  proof (cases rule: remoteCmd_k8s_cases)
    case (finished v)
    then show ?thesis using k8sInstall_linked [OF _ assms(2)] cleanUp_links by blast
  qed simp
  from assms(4) again show False
  proof (cases rule: remoteCmd_k8s_cases)
    case (finished v)
    then show ?thesis using k8sInstall_linked [OF _ assms(5)] \<open>linked t\<close> by blast
  qed simp
qed

theorem k8s_server_once_witness:
  "\<exists>t. remoteCmd calmEnv (sampleLib False) nodeArgs nodeWorld = Some (Ok (), t) \<and>
     (\<forall>u. remoteCmd calmEnv (sampleLib False) nodeArgs t \<noteq> Some (Ok (), u))"
proof -
  from serverRun obtain t where t: "remoteCmd calmEnv (sampleLib False) nodeArgs nodeWorld = Some (Ok (), t)" by blast
  have w: "\<not> fg_worker (sampleFlags False)" by (simp add: sampleFlags_def)
  from k8s_server_once [OF nodeArgs_k8s w t nodeArgs_k8s w] t show ?thesis by blast
qed

text \<open>
  A server whose \<open>--vip\<close> has no colon never gets installed: the program panics while it
  builds the configuration, after \<open>sysctl\<close> and before the installer is run.
\<close>

theorem k8s_bad_vip_panics:
  assumes "k8sArgs lib osArgs fl" and "\<not> fg_worker fl" and "fg_vip fl \<noteq> ''''" and "CHR '':'' \<notin> set (fg_vip fl)"
    and "remoteCmd env lib osArgs s = Some (r, t)"
  shows "r \<noteq> Ok () \<and> (\<exists>xs. asked isExec xs s t \<and> prefix xs (take 1 (installPlan fl)))"
proof -
  note conf = rke2Config_bad_vip [OF assms(2-4)]
  have stop: "wp (k8sPrepare env lib fl) (\<lambda>_ _. False) (\<lambda>_. True) s"
    unfolding k8sPrepare_def conf
    by (intro wp_bind wp_within [of "\<lambda>_ _. True"] wp_panic) (simp_all add: within_def)
  have d: "does isExec (take 1 (installPlan fl)) (k8sPrepare env lib fl)"
    unfolding k8sPrepare_def conf
    apply (simp only: installPlan_def One_nat_def take_Suc_Cons take0)
    apply (rule does_skip, intro silent_frame, simp)
    apply (rule does_skip, intro silent_frame, simp, simp)
    apply (rule does_next, rule does_runLogged)
    apply (rule does_skip, intro silent_frame, simp)
    apply (rule does_skip, intro silent_frame, simp)
    apply (simp add: bindG_def panicG_def)
    apply (rule does_stop(2) [unfolded panicG_def])
    done
  obtain r1 t1 where p: "k8sPrepare env lib fl s = (r1, t1)" by fastforce
  from leavesD [OF d p] obtain xs where xs: "prefix xs (take 1 (installPlan fl))" "asked isExec xs s t1" by blast
  have i: "k8sInstall env lib fl s = Some (r', u) \<Longrightarrow> r' \<noteq> Ok () \<and> u = t1" for r' u
    using stop p by (cases r1) (auto simp: wp_def k8sInstall_def bindP_lift)
  from assms(1,5) show ?thesis
    by (cases rule: remoteCmd_k8s_cases) (use i xs in blast)+
qed

definition badVip :: remote_lib where
  "badVip = (sampleLib False)\<lparr>rl_parse := (\<lambda>_. Inr ((sampleFlags False)\<lparr>fg_vip := ''10.0.0.9''\<rparr>))\<rparr>"

theorem k8s_bad_vip_panics_witness:
  "\<exists>r t. remoteCmd calmEnv badVip nodeArgs emptyWorld = Some (r, t) \<and> r \<noteq> Ok ()"
proof -
  let ?fl = "(sampleFlags False)\<lparr>fg_vip := ''10.0.0.9''\<rparr>"
  have k: "k8sArgs badVip nodeArgs ?fl" by (simp add: k8sArgs_def badVip_def nodeArgs_def)
  have fl: "\<not> fg_worker ?fl" "fg_vip ?fl \<noteq> ''''" "CHR '':'' \<notin> set (fg_vip ?fl)" by (simp_all add: sampleFlags_def)
  have "remoteCmd calmEnv badVip nodeArgs emptyWorld \<noteq> None" by code_simp
  then obtain r t where "remoteCmd calmEnv badVip nodeArgs emptyWorld = Some (r, t)" by auto
  with k8s_bad_vip_panics [OF k fl] show ?thesis by blast
qed

text \<open>
  C14: when the API answers from some moment on, the service hacks return, having sent back as
  their last request the service of the last \<open>Get\<close> with the address set.
\<close>

theorem service_hack_returns:
  assumes "(cmd, ns, svc, what) \<in> hackTargets"
    and "\<forall>h ev. n \<le> length h \<longrightarrow> e_fault env h ev = None"
  shows "\<exists>h t. remoteCmd env lib (prog # cmd # rest) s = Some (Ok (), t) \<and> prefix (hist s) h \<and>
    hist t = h @ roundEvents lib ns svc h @ [EvPrint (''hacked the vip for '' @ what @ newline)]"
  unfolding remoteCmd_hack [OF assms(1)] by (rule serviceHack_returns [OF assms(2)])

theorem service_hack_returns_witness:
  "\<exists>t. remoteCmd calmEnv (sampleLib False) [''remote'', ''aihack''] emptyWorld = Some (Ok (), t)"
proof -
  have "(''aihack'', ''ai'', ''open-webui'', ''open-webui'') \<in> hackTargets" by (simp add: hackTargets_def)
  moreover have "\<forall>h ev. 0 \<le> length h \<longrightarrow> e_fault calmEnv h ev = None" by (simp add: calmEnv_def)
  ultimately show ?thesis by (metis service_hack_returns)
qed

text \<open>
  C24: the service hacks have no bound: when every update is refused they never return.
\<close>

theorem service_hack_stuck:
  assumes "(cmd, ns, svc, what) \<in> hackTargets"
    and "\<forall>h obj. e_fault env h (EvKube (KUpdateService ns obj)) \<noteq> None"
  shows "remoteCmd env lib (prog # cmd # rest) s = None"
  unfolding remoteCmd_hack [OF assms(1)] by (rule serviceHack_stuck [OF assms(2)])

definition refusing :: env where
  "refusing = calmEnv\<lparr>e_fault := (\<lambda>_ ev. case ev of EvKube (KUpdateService _ _) \<Rightarrow> Some (Fail ''no'') | _ \<Rightarrow> None)\<rparr>"

theorem service_hack_stuck_witness:
  "remoteCmd refusing (sampleLib False) [''remote'', ''aihack''] emptyWorld = None"
  by (rule service_hack_stuck [of _ "''ai''" "''open-webui''" "''open-webui''"]) (simp_all add: hackTargets_def refusing_def)

text \<open>
  C13: an installation always ends when the API lists the node as ready from some moment on,
  whatever else fails.
\<close>

theorem k8s_terminates:
  assumes "k8sArgs lib osArgs fl"
    and "\<forall>h. n \<le> length h \<longrightarrow> e_fault env h (EvKube KListNodes) = None \<and>
      nodeReady (e_hostname env) (rl_nodes lib h)"
  shows "\<exists>r t. remoteCmd env lib osArgs s = Some (r, t)"
proof -
  have wait: "returnsP (untilP (nodesRound env lib (e_hostname env)) (0, 0)) v" for v
  proof -
    have "\<exists>c u. untilP (nodesRound env lib (e_hostname env)) (0, 0) v = Some (Ok c, u)"
    proof (rule nodeWait.returns [of n])
      fix b :: "int \<times> int" and w :: world assume "n \<le> length (hist w)"
      with assms(2) nodesRound_run [of env lib "e_hostname env" b w]
      show "\<exists>b' t. nodesRound env lib (e_hostname env) b w = (Ok (b', True), t)" by auto
    qed
    then show ?thesis by (auto simp: returnsP_def)
  qed
  have host: "liftP (serverStart env lib buf) v = Some (Ok h, w) \<Longrightarrow> h = e_hostname env" for buf v h w
    unfolding serverStart_def liftP_def by (auto elim!: bindG_OkE simp: returnG_def)
  have "returnsP (remoteCmd env lib osArgs) s"
    unfolding remoteCmd_k8s [OF assms(1)] k8sInstall_def
    by (intro returnsP_bind returnsP_lift) (auto intro!: returnsP_bind returnsP_lift wait dest!: host)
  then show ?thesis by (auto simp: returnsP_def)
qed

theorem k8s_terminates_witness:
  "\<exists>r t. remoteCmd calmEnv (sampleLib False) nodeArgs emptyWorld = Some (r, t)"
proof -
  have "\<forall>h. 0 \<le> length h \<longrightarrow> e_fault calmEnv h (EvKube KListNodes) = None \<and>
      nodeReady (e_hostname calmEnv) (rl_nodes (sampleLib False) h)"
    by (simp add: calmEnv_def nodeReady_def sampleLib_def)
  from k8s_terminates [OF nodeArgs_k8s this] show ?thesis .
qed

end
