(* ===== verification/Local.thy ===== *)
theory Local
  imports Traces
begin

text \<open>
  \<open>src/pkg/cmd/local/local.go\<close>: the command that puts cert-manager on a cluster. The Kubernetes
  client and the Helm packages are parameters: which request fails is asked of the environment,
  and \<open>helm_lib\<close> gives what a successful one returns. The debug logger \<open>wtf\<close> only prints and is
  handed to Helm; it is left out.
\<close>

section \<open>Library\<close>

text \<open>
  \<open>repo.LoadFile\<close> returns a file object besides its error (\<open>None\<close> stands for a nil pointer);
  \<open>file.Update\<close> is a function of the entries and the new one.
\<close>

record helm_lib =
  hl_file :: "event list \<Rightarrow> (string \<times> string) list option"
  hl_update :: "(string \<times> string) list \<Rightarrow> string \<times> string \<Rightarrow> (string \<times> string) list"
  hl_chartPath :: "event list \<Rightarrow> string"
  hl_release :: "event list \<Rightarrow> string"

section \<open>Operations\<close>

text \<open>Any error of the \<open>Get\<close> is taken for a missing namespace.\<close>

definition ensureNamespace :: "env \<Rightarrow> string \<Rightarrow> unit io" where
  "ensureNamespace env ns =
     bindG (tryG (request env (EvKube (KGetNamespace ns)))) (\<lambda>r.
     case r of Inr _ \<Rightarrow> returnG () | Inl _ \<Rightarrow> request env (EvKube (KCreateNamespace ns)))"

definition repositoriesFile :: "env \<Rightarrow> string" where
  "repositoriesFile env = e_getenv env ''HOME'' @ ''/.config/helm/repositories.yaml''"

definition addRepo :: "env \<Rightarrow> helm_lib \<Rightarrow> string \<Rightarrow> string \<Rightarrow> unit io" where
  "addRepo env lib repoName repoURL =
     bindG getW (\<lambda>w.
     let file = hl_file lib (hist w) in
     bindG (tryG (request env (EvHelm (HLoadFile (repositoriesFile env))))) (\<lambda>r.
     bindG (case r of Inl e \<Rightarrow> (if e \<noteq> NotExist then failG e else returnG ()) | Inr _ \<Rightarrow> returnG ()) (\<lambda>_.
     bindG (request env (EvHelm (HNewRepo repoName repoURL))) (\<lambda>_.
     bindG (request env (EvHelm HDownloadIndex)) (\<lambda>_.
     (case file of
        None \<Rightarrow> panicG ''nil pointer dereference''
      | Some entries \<Rightarrow>
          request env (EvHelm (HWriteFile (repositoriesFile env)
            (hl_update lib entries (repoName, repoURL))))))))))"

text \<open>The chart name is written out in the body; the parameter of that name is not used.\<close>

definition installOrUpgradeCertManager ::
  "env \<Rightarrow> helm_lib \<Rightarrow> string \<Rightarrow> string \<Rightarrow> string \<Rightarrow> string \<Rightarrow> unit io" where
  "installOrUpgradeCertManager env lib repoName chartName releaseName ns =
     bindG (printG (''repo is '' @ repoName @ newline)) (\<lambda>_.
     bindG getW (\<lambda>w.
     let chartPath = hl_chartPath lib (hist w) in
     bindG (request env (EvHelm (HLocateChart ''cert-manager'' repoName))) (\<lambda>_.
     bindG (request env (EvHelm (HLoadChart chartPath))) (\<lambda>_.
     bindG getW (\<lambda>w.
     let release = hl_release lib (hist w) in
     bindG (request env (EvHelm (HRun releaseName ns))) (\<lambda>_.
     printG (''Release: '' @ release @ newline)))))))"

definition localCmd :: "env \<Rightarrow> helm_lib \<Rightarrow> unit io" where
  "localCmd env lib =
     (let kubeconfig = e_getenv env ''KUBECONFIG''; ns = ''cert-manager''; releaseName = ''cert-manager'';
          repoName = ''jetstack''; repoURL = ''https://charts.jetstack.io''; chartName = ''cert-manager'' in
      bindG (request env (EvKube (KBuildConfig kubeconfig))) (\<lambda>_.
      bindG (request env (EvKube KClientset)) (\<lambda>_.
      bindG (ensureNamespace env ns) (\<lambda>_.
      bindG (request env (EvHelm (HInit ns (e_getenv env ''HELM_DRIVER'')))) (\<lambda>_.
      bindG (addRepo env lib repoName repoURL) (\<lambda>_.
      bindG (installOrUpgradeCertManager env lib repoURL chartName releaseName ns) (\<lambda>_.
      printG (''cert-manager installed or upgraded successfully'' @ newline))))))))"

section \<open>Plans\<close>

fun isCluster :: "event \<Rightarrow> bool" where
  "isCluster (EvKube _) = True"
| "isCluster (EvHelm (HRun _ _)) = True"
| "isCluster _ = False"

definition clusterPlan :: "env \<Rightarrow> bool \<Rightarrow> event list" where
  "clusterPlan env create =
     [EvKube (KBuildConfig (e_getenv env ''KUBECONFIG'')), EvKube KClientset,
      EvKube (KGetNamespace ''cert-manager'')] @
     (if create then [EvKube (KCreateNamespace ''cert-manager'')] else []) @
     [EvHelm (HRun ''cert-manager'' ''cert-manager'')]"

lemma silent_addRepo [silent_frame]: "within (silent isCluster) (addRepo env lib n u)"
  unfolding addRepo_def Let_def by (auto intro!: silent_frame split: sum.split option.split)

lemma does_certManager:
  "does isCluster [EvHelm (HRun rel ns)] (installOrUpgradeCertManager env lib r c rel ns)"
  unfolding installOrUpgradeCertManager_def Let_def
  apply (rule does_skip, intro silent_frame, simp)
  apply (rule does_skip, intro silent_frame)
  apply (rule does_skip, intro silent_frame, simp)
  apply (rule does_skip, intro silent_frame, simp)
  apply (rule does_skip, intro silent_frame)
  apply (rule does_next, rule does_request, simp)
  apply (rule does_silent, intro silent_frame, simp)
  done

text \<open>What follows the namespace.\<close>

definition localTail :: "env \<Rightarrow> helm_lib \<Rightarrow> unit io" where
  "localTail env lib =
     bindG (request env (EvHelm (HInit ''cert-manager'' (e_getenv env ''HELM_DRIVER'')))) (\<lambda>_.
     bindG (addRepo env lib ''jetstack'' ''https://charts.jetstack.io'') (\<lambda>_.
     bindG (installOrUpgradeCertManager env lib ''https://charts.jetstack.io'' ''cert-manager'' ''cert-manager'' ''cert-manager'') (\<lambda>_.
     printG (''cert-manager installed or upgraded successfully'' @ newline))))"

lemma localCmd_split:
  "localCmd env lib =
     bindG (request env (EvKube (KBuildConfig (e_getenv env ''KUBECONFIG'')))) (\<lambda>_.
     bindG (request env (EvKube KClientset)) (\<lambda>_.
     bindG (ensureNamespace env ''cert-manager'') (\<lambda>_. localTail env lib)))"
  by (simp only: localCmd_def localTail_def Let_def)

lemma does_localTail: "does isCluster [EvHelm (HRun ''cert-manager'' ''cert-manager'')] (localTail env lib)"
  unfolding localTail_def
  apply (rule does_skip, intro silent_frame, simp)
  apply (rule does_skip, intro silent_frame)
  apply (rule does_next, rule does_certManager)
  apply (rule does_silent, intro silent_frame, simp)
  done

text \<open>The namespace step asks once, and a second time exactly when the first request fails.\<close>

definition namespaceEvents :: "env \<Rightarrow> string \<Rightarrow> event list \<Rightarrow> event list" where
  "namespaceEvents env ns h =
     EvKube (KGetNamespace ns) #
       (if e_fault env h (EvKube (KGetNamespace ns)) \<noteq> None then [EvKube (KCreateNamespace ns)] else [])"

lemma ensureNamespace_run:
  "ensureNamespace env ns s =
     (if e_fault env (hist s) (EvKube (KGetNamespace ns)) = None then Ok ()
      else case e_fault env (hist s @ [EvKube (KGetNamespace ns)]) (EvKube (KCreateNamespace ns)) of
        None \<Rightarrow> Ok () | Some e \<Rightarrow> Err e,
      s\<lparr>hist := hist s @ namespaceEvents env ns (hist s)\<rparr>)"
  by (simp add: ensureNamespace_def namespaceEvents_def bindG_def tryG_def go_defs split: option.split)

text \<open>
  A repository file that cannot be read for another reason than not existing stops the command
  at once.
\<close>

lemma addRepo_file_error:
  "e_fault env (hist s) (EvHelm (HLoadFile (repositoriesFile env))) = Some e \<Longrightarrow> e \<noteq> NotExist \<Longrightarrow>
     addRepo env lib n u s = (Err e, s\<lparr>hist := hist s @ [EvHelm (HLoadFile (repositoriesFile env))]\<rparr>)"
  by (simp add: addRepo_def bindG_def tryG_def go_defs)

text \<open>
  The failures the command has to stop at: any of its requests, except that the namespace may be
  missing and the repository file may not exist.
\<close>

fun refused :: "env \<Rightarrow> event list \<Rightarrow> event \<Rightarrow> bool" where
  "refused env h (EvKube (KGetNamespace ns)) \<longleftrightarrow> False"
| "refused env h (EvHelm (HLoadFile f)) \<longleftrightarrow> e_fault env h (EvHelm (HLoadFile f)) \<notin> {None, Some NotExist}"
| "refused env h (EvKube q) \<longleftrightarrow> e_fault env h (EvKube q) \<noteq> None"
| "refused env h (EvHelm q) \<longleftrightarrow> e_fault env h (EvHelm q) \<noteq> None"
| "refused env h _ \<longleftrightarrow> False"

lemma halts_namespace [halts_intros]: "halts hist (refused env) (ensureNamespace env ns)"
  unfolding ensureNamespace_def by (auto intro!: halts_intros split: sum.split)

lemma halts_addRepo [halts_intros]: "halts hist (refused env) (addRepo env lib n u)"
  unfolding addRepo_def Let_def
  by (rule halts_bind [OF halts_io(1)], rule halts_except) (auto intro!: halts_intros split: option.split)

lemma halts_certManager [halts_intros]:
  "halts hist (refused env) (installOrUpgradeCertManager env lib r c rel ns)"
  unfolding installOrUpgradeCertManager_def Let_def by (auto intro!: halts_intros)

lemma halts_localCmd: "halts hist (refused env) (localCmd env lib)"
  unfolding localCmd_def Let_def by (intro halts_intros) simp_all

lemma localCmd_plan:
  assumes "localCmd env lib s = (r, t)"
    and "h = hist s @ [EvKube (KBuildConfig (e_getenv env ''KUBECONFIG'')), EvKube KClientset]"
    and "create \<longleftrightarrow> e_fault env h (EvKube (KGetNamespace ''cert-manager'')) \<noteq> None"
  shows "\<exists>xs. asked isCluster xs s t \<and> prefix xs (clusterPlan env create) \<and> (r = Ok () \<longrightarrow> xs = clusterPlan env create)"
proof -
  let ?c = "EvKube (KBuildConfig (e_getenv env ''KUBECONFIG''))" and ?n = "''cert-manager''"
  let ?s1 = "s\<lparr>hist := hist s @ [?c]\<rparr>" and ?s2 = "s\<lparr>hist := h\<rparr>"
  let ?s3 = "s\<lparr>hist := h @ namespaceEvents env ?n h\<rparr>"
  have plan: "clusterPlan env create = [?c, EvKube KClientset] @ namespaceEvents env ?n h @ [EvHelm (HRun ?n ?n)]"
    by (simp add: clusterPlan_def namespaceEvents_def assms(3) del: not_None_eq)
  have ns: "filter isCluster (namespaceEvents env ?n h) = namespaceEvents env ?n h"
    by (simp add: namespaceEvents_def)
  have a1: "asked isCluster [?c] s ?s1" and a2: "asked isCluster [?c, EvKube KClientset] s ?s2"
    and a3: "asked isCluster ([?c, EvKube KClientset] @ namespaceEvents env ?n h) s ?s3"
    using ns by (simp_all add: seen_def assms(2))
  show ?thesis
  proof (cases "e_fault env (hist s) ?c")
    case (Some e)
    with assms(1) have "r = Err e" "t = ?s1" by (simp_all add: localCmd_split bindG_def request_def)
    with a1 plan show ?thesis by (intro exI [of _ "[?c]"]) simp
  next
    case c: None
    show ?thesis
    proof (cases "e_fault env (hist ?s1) (EvKube KClientset)")
      case (Some e)
      with c assms(1,2) have "r = Err e" "t = ?s2" by (simp_all add: localCmd_split bindG_def request_def)
      with a2 plan show ?thesis by (intro exI [of _ "[?c, EvKube KClientset]"]) simp
    next
      case None
      with c assms(1,2) have run: "bindG (ensureNamespace env ?n) (\<lambda>_. localTail env lib) ?s2 = (r, t)"
        by (simp add: localCmd_split bindG_def request_def)
      obtain r1 where e: "ensureNamespace env ?n ?s2 = (r1, ?s3)" by (simp add: ensureNamespace_run)
      show ?thesis
      proof (cases "r1 = Ok ()")
        case True
        with run e have "localTail env lib ?s3 = (r, t)" by (simp add: bindG_def)
        from leavesD [OF does_localTail this] obtain xs where "prefix xs [EvHelm (HRun ?n ?n)]" "asked isCluster xs ?s3 t"
          "r = Ok () \<longrightarrow> xs = [EvHelm (HRun ?n ?n)]" by auto
        with seen_trans [OF a3] plan show ?thesis by (intro exI [of _ "([?c, EvKube KClientset] @ namespaceEvents env ?n h) @ xs"]) (auto simp: prefix_Cons)
      next
        case False
        with run e have "t = ?s3" "r \<noteq> Ok ()" by (auto simp: bindG_def split: outcome.splits)
        with a3 plan show ?thesis by (intro exI [of _ "[?c, EvKube KClientset] @ namespaceEvents env ?n h"]) simp
      qed
    qed
  qed
qed

section \<open>Properties\<close>


definition sampleHelm :: helm_lib where
  "sampleHelm = \<lparr>hl_file = (\<lambda>_. Some []), hl_update = (\<lambda>xs x. xs @ [x]), hl_chartPath = (\<lambda>_. ''/c''),
     hl_release = (\<lambda>_. ''r'')\<rparr>"


end
