(* ===== verification/Main_Command.thy ===== *)
theory Main_Command
  imports Universe Remote Local
begin

text \<open>
  \<open>src/main.go\<close> and \<open>src/pkg/cmd/pulumi/pulumi.go\<close>: which command the binary is. The variable
  \<open>Main\<close>, set by the linker, is an argument. \<open>pulumi.Run\<close> is the parameter \<open>run\<close>: it gets the
  program to run as a Pulumi program.
\<close>

text \<open>The function given to \<open>pulumi.Run\<close>.\<close>

definition pulumiProgram ::
  "env \<Rightarrow> (string \<Rightarrow> goerr + int) \<Rightarrow> 'c cidr_lib \<Rightarrow> stackConfig \<Rightarrow> string \<Rightarrow> unit io" where
  "pulumiProgram env ram cl cfg stack =
     bindG (tryG (newUniverse env ram cl cfg stack)) (\<lambda>r.
     case r of
       Inl e \<Rightarrow> bindG (printG (errText e @ newline)) (\<lambda>_. failG e)
     | Inr _ \<Rightarrow> returnG ())"

text \<open>\<open>pulumi.Cmd\<close> has no error of its own, whatever \<open>Run\<close> comes back with.\<close>

definition pulumiCmd ::
  "(unit io \<Rightarrow> unit io) \<Rightarrow> env \<Rightarrow> (string \<Rightarrow> goerr + int) \<Rightarrow> 'c cidr_lib \<Rightarrow> stackConfig \<Rightarrow> string \<Rightarrow> unit io" where
  "pulumiCmd run env ram cl cfg stack =
     bindG (tryG (run (pulumiProgram env ram cl cfg stack))) (\<lambda>_. returnG ())"

text \<open>An error of a command is kept in \<open>err\<close>; a command that does not match leaves it alone.\<close>

definition commandP :: "bool \<Rightarrow> (world, unit) goP \<Rightarrow> goerr option \<Rightarrow> (world, goerr option) goP" where
  "commandP applies m err = (\<lambda>s.
     if applies then
       (case m s of
          None \<Rightarrow> None
        | Some (r, t) \<Rightarrow> (case r of
            Ok _ \<Rightarrow> Some (Ok None, t)
          | Err e \<Rightarrow> Some (Ok (Some e), t)
          | Panic p \<Rightarrow> Some (Panic p, t)
          | Exit n \<Rightarrow> Some (Exit n, t)))
     else Some (Ok err, s))"

definition mainProgram ::
  "string \<Rightarrow> (unit io \<Rightarrow> unit io) \<Rightarrow> env \<Rightarrow> (string \<Rightarrow> goerr + int) \<Rightarrow> 'c cidr_lib \<Rightarrow> stackConfig \<Rightarrow> string \<Rightarrow>
     remote_lib \<Rightarrow> helm_lib \<Rightarrow> string list \<Rightarrow> (world, unit) goP" where
  "mainProgram mainVar run env ram cl cfg stack rlib hlib osArgs =
     bindP (commandP (mainVar = ''pulumi'') (liftP (pulumiCmd run env ram cl cfg stack)) None) (\<lambda>err.
     bindP (commandP (mainVar = ''remote'') (remoteCmd env rlib osArgs) err) (\<lambda>err.
     bindP (commandP (mainVar = ''local'') (liftP (localCmd env hlib)) err) (\<lambda>err.
     liftP (case err of
       None \<Rightarrow> returnG ()
     | Some e \<Rightarrow> bindG (answer (\<lambda>_. ()) (EvFatal (errText e))) (\<lambda>_. exitG 1)))))"

section \<open>Dispatch\<close>

lemma commandP_skip: "bindP (commandP False m err) k = k err"
  by (simp add: commandP_def bindP_def)

lemma commandP_run:
  "bindP (commandP True m err) k s = (case m s of
     None \<Rightarrow> None
   | Some (r, t) \<Rightarrow> (case r of
       Ok _ \<Rightarrow> k None t | Err e \<Rightarrow> k (Some e) t | Panic p \<Rightarrow> Some (Panic p, t) | Exit n \<Rightarrow> Some (Exit n, t)))"
  by (simp add: commandP_def bindP_def split: option.split prod.split outcome.split)

text \<open>How a finished command ends the process.\<close>

definition mainEnd :: "unit outcome \<times> world \<Rightarrow> unit outcome \<times> world" where
  "mainEnd y = (case y of (r, t) \<Rightarrow> (case r of
     Err e \<Rightarrow> (Exit 1, t\<lparr>hist := hist t @ [EvFatal (errText e)]\<rparr>)
   | _ \<Rightarrow> (r, t)))"

lemma commandP_last:
  "bindP (commandP True m err) (\<lambda>err. liftP (case err of
       None \<Rightarrow> returnG ()
     | Some e \<Rightarrow> bindG (answer (\<lambda>_. ()) (EvFatal (errText e))) (\<lambda>_. exitG 1))) s =
     map_option mainEnd (m s)"
  by (simp add: commandP_run liftP_def returnG_def bindG_def answer_def exitG_def mainEnd_def
      split: option.split prod.split outcome.split)

section \<open>Properties\<close>

text \<open>
  The process runs exactly the command its \<open>Main\<close> variable names; an error of that command
  becomes exit status 1, its success a normal end, and it comes back only if the command does.
\<close>

theorem mainProgram_dispatch:
  "mainProgram ''pulumi'' run env ram cl cfg stack rlib hlib osArgs s =
     map_option mainEnd (Some (pulumiCmd run env ram cl cfg stack s)) \<and>
   mainProgram ''remote'' run env ram cl cfg stack rlib hlib osArgs s =
     map_option mainEnd (remoteCmd env rlib osArgs s) \<and>
   mainProgram ''local'' run env ram cl cfg stack rlib hlib osArgs s =
     map_option mainEnd (Some (localCmd env hlib s))"
proof -
  have ne: "''pulumi'' \<noteq> ''remote''" "''pulumi'' \<noteq> ''local''" "''remote'' \<noteq> ''pulumi''" "''remote'' \<noteq> ''local''"
    "''local'' \<noteq> ''pulumi''" "''local'' \<noteq> ''remote''" by simp_all
  have skip: "bindP (commandP (a = b) m err) k = k err" if "a \<noteq> b" for a b :: string and m err and k :: "goerr option \<Rightarrow> (world, unit) goP"
    using that by (simp add: commandP_skip)
  have pick: "commandP (a = a) m err = commandP True m err" for a :: string and m err by simp
  show ?thesis
    unfolding mainProgram_def skip [OF ne(1)] skip [OF ne(2)] skip [OF ne(3)] skip [OF ne(4)]
      skip [OF ne(5)] skip [OF ne(6)] pick commandP_last
    by (simp add: liftP_def)
qed

end
