(* ===== verification/Lib.thy ===== *)
theory Lib
  imports World
begin

text \<open>
  \<open>src/pkg/lib/lib.go\<close>: the two functions that read a template from \<open>EmbedFs\<close>. An \<open>embed.FS\<close> is the
  list of its files; reading a file it does not have is an error, which both functions drop.
\<close>

type_synonym embedFS = "(string \<times> string) list"

text \<open>The variable has no \<open>go:embed\<close> directive and nothing assigns it: it keeps its zero value.\<close>

definition EmbedFs :: embedFS where
  "EmbedFs = []"

definition readEmbedded :: "embedFS \<Rightarrow> string \<Rightarrow> goerr + string" where
  "readEmbedded fs name = (case map_of fs name of None \<Rightarrow> Inl NotExist | Some d \<Rightarrow> Inr d)"

definition kubeVipArpData :: "embedFS \<Rightarrow> string" where
  "kubeVipArpData fs = (case readEmbedded fs ''embed/kube-vip-arp.yaml'' of Inl _ \<Rightarrow> '''' | Inr d \<Rightarrow> d)"

definition dumpKubeVipYaml :: "embedFS \<Rightarrow> unit io" where
  "dumpKubeVipYaml fs =
     (let d = (case readEmbedded fs ''embed/kube-vip-arp.yaml'' of Inl _ \<Rightarrow> '''' | Inr d \<Rightarrow> d) in
      printG (''debug: '' @ d))"

lemma kubeVip_nothing: "kubeVipArpData EmbedFs = ''''"
  by (simp add: kubeVipArpData_def readEmbedded_def EmbedFs_def)

end
