(* ===== verification/Spec2Isabelle.thy ===== *)
theory Spec2Isabelle
  imports Go_Prelude Go_Fmt Go_Path Go_Loops Go_Slices World Os Traces Vm Unit_Config Network Cache Filecache
    Filecache_Cleanup Filecache_Signals Engine Ssh_Keys Cloudinit Libvirt_Shared Libvirt_Vm Libvirt_Unit Libvirt_Values
    Node_Laws Calm_Run Libvirt_Order Libvirt_Plan Universe Universe_Plan Graph_Types Universe_Types
    Schedule Schedule_Laws Gamma Kube_Client Kube_Laws Kube_Controller System Remote Remote_Laws Local Main_Command
    Lib
begin

text \<open>
  A verification development of \<open>shenanigans\<close>, a Go program that deploys virtual machines and
  Kubernetes clusters with Pulumi.

  \<^bold>\<open>The program.\<close> One binary has three lives, chosen by a variable the linker sets
  (\<open>main.go\<close>). As \<open>pulumi\<close> it reads the stack configuration, downloads the disk images into a
  cache, makes a key pair, builds itself for the vms and registers every resource of the
  deployment with Pulumi: network, pools, disks, domains, and the shell commands that are to run
  on the vms, with their dependencies. As \<open>remote\<close> it is copied to a vm and installs a
  Kubernetes node there, waiting until the API reports it ready. As \<open>local\<close> it installs a chart
  into a cluster. The pieces meet in three places: the cache stores what the provider links and
  copies; the provider writes the command lines the remote command parses; the dependency lists
  decide what Pulumi may run at the same time.

  \<^bold>\<open>How Go is rendered.\<close> A Go function that touches the outside world is a function of the
  \<open>world\<close> yielding an outcome (\<open>Ok\<close>, \<open>Err\<close>, \<open>Panic\<close>, \<open>Exit\<close>) and the world it leaves, so
  what a failed call has done is kept (\<open>Go_Prelude\<close>). \<open>bindG\<close> is sequencing with the early return
  of \<open>if err != nil\<close>, \<open>tryG\<close> hands the error to the code that drops or inspects it, \<open>forG\<close> is a
  \<open>range\<close> loop. Structs are records with the Go field names; numbers the program only counts with
  are integers, the bytes of MAC addresses are words. A command whose loops have no bound is a
  \<open>goP\<close> (\<open>Go_Loops\<close>): \<open>None\<close> means that it does not return. There is no fuel anywhere; that a loop
  ends is always a theorem about \<open>Some\<close>. The world (\<open>World\<close>) holds the file system, the resources
  registered so far (a list; the position is the identity), the stack outputs, the artifact map,
  which the code shares by reference, and the history of requests. Everything outside is the
  record \<open>env\<close>: \<open>e_fault\<close> decides from the history whether a request fails, the other fields
  answer it (downloads, uuids, random numbers, key generation, yaml, sums), and \<open>e_grow\<close> is the
  capacity the runtime gives a slice it moves. All theorems hold for every environment unless a
  hypothesis names one.

  \<^bold>\<open>Theories, and the code they model.\<close>
  \<^item> \<open>Go_Prelude\<close>, \<open>Go_Fmt\<close>, \<open>Go_Path\<close>, \<open>Go_Loops\<close>: outcomes, sequencing, weakest
    preconditions \<open>wp\<close> and relations kept by every ending (\<open>within\<close>, locale \<open>step_rel\<close>); printing
    and splitting; \<open>path.Join\<close> and \<open>path.Clean\<close>, with lemmas that turn paths into component lists;
    functions that may not return and the locale \<open>poller\<close>. \<open>Go_Slices\<close>: slices over a store of
    backing arrays, and the locale \<open>appendable\<close>, which holds whatever the capacities are.
  \<^item> \<open>World\<close>, \<open>Os\<close>, \<open>Traces\<close>: the world, the file-system calls, and what a run adds to an
    observation of the world (\<open>leaves\<close>: a plan that a normal return completes and any other ending
    leaves an initial part of; \<open>halts\<close>: nothing is done after a failure).
  \<^item> \<open>Vm\<close>, \<open>Unit_Config\<close>, \<open>Network\<close>: \<open>pkg/vm\<close>, \<open>pkg/unit\<close>, \<open>pkg/network\<close>, the conversions of
    the user's configuration. The automatic addresses are modelled over a store of byte slices,
    because \<open>IPDecr\<close> changes a slice that several variables share.
  \<^item> \<open>Cache\<close>, \<open>Filecache\<close>, \<open>Filecache_Cleanup\<close>: \<open>pkg/cache\<close> and \<open>pkg/filecache\<close>. The locales
    \<open>artifact_store\<close> and \<open>download_cache\<close> are what their users rely on. \<open>Filecache_Signals\<close>: the
    downloads once more, with the signal handlers of \<open>TmpDir\<close> and of the universe run between the
    calls as a schedule says.
  \<^item> \<open>Ssh_Keys\<close>, \<open>Cloudinit\<close>, \<open>System\<close>: \<open>pkg/ssh\<close> with \<open>pkg/components/ssh\<close>, \<open>pkg/cloudinit\<close>
    and \<open>pkg/system\<close>.
  \<^item> \<open>Engine\<close>, \<open>Node_Laws\<close>, \<open>Calm_Run\<close>: the contract with Pulumi (locale \<open>registrar\<close>), where every
    reference goes to an earlier resource; which call sites a run registers from; and a set of
    rewriting rules that runs a program in an environment without faults.
  \<^item> \<open>Libvirt_Shared\<close>, \<open>Libvirt_Vm\<close>, \<open>Libvirt_Unit\<close>: \<open>SetupShared\<close> and \<open>Unit\<close> of
    \<open>pkg/providers/libvirt/libvirt.go\<close>, one definition per stretch of the function and
    \<open>libvirtUnit\<close> for the whole; every resource carries its call site, its arguments, its provider
    and its \<open>DependsOn\<close>; \<open>vmDepends\<close> and \<open>k8sDepends\<close> are slices of a store, which come to share an
    array. \<open>Libvirt_Values\<close> is the specification of the unit over lists, which it equals up to one
    entry. \<open>Libvirt_Order\<close> has the laws of the dependency lists and \<open>Libvirt_Plan\<close> the abstract plan
    the unit refines.
  \<^item> \<open>Universe\<close>, \<open>Universe_Plan\<close>: \<open>NewUniverse\<close> of \<open>pkg/universe\<close> and its plan. \<open>Gamma\<close>: its
    predecessor in \<open>pkg/components/gamma\<close>, and what either exports.
  \<^item> \<open>Graph_Types\<close>, \<open>Universe_Types\<close>: a type system for the deployment graph (\<open>refSites\<close> gives the
    call sites a resource may refer to, the judgement \<open>flows\<close> types a program), and its derivation
    for the whole program. \<open>Schedule\<close>, \<open>Schedule_Laws\<close>: the orders in which Pulumi may create the
    registered resources (a step relation), and what the dependency lists force on all of them.
  \<^item> \<open>Remote\<close>, \<open>Remote_Laws\<close>: \<open>pkg/cmd/remote\<close>, with the order of its commands, its waiting loops
    as instances of \<open>poller\<close>, and what it leaves behind.
  \<^item> \<open>Local\<close>, \<open>Main_Command\<close>: \<open>pkg/cmd/local\<close>, \<open>pkg/cmd/pulumi\<close> and \<open>main.go\<close>.
    \<open>Lib\<close>: \<open>pkg/lib\<close>.
  \<^item> \<open>Kube_Client\<close>, \<open>Kube_Laws\<close>, \<open>Kube_Controller\<close>: \<open>pkg/lib/k8s\<close>, a client for objects of any
    kind over the parameters \<open>kube_lib\<close> (client-go, cli-runtime and the package \<open>patcher\<close>). Its state
    is the client with the shared configuration and the caller's object, which an apply writes to.
  \<^item> This theory: properties that need more than one component.

  \<^bold>\<open>What the lemmas show.\<close> Whatever fails, a resource refers only to earlier ones, and of the call
  sites its own site allows; a run that returns has registered exactly the plan of its configuration; clusters and
  helmfiles wait for exactly what precedes them, with the exceptions the findings name: the
  kubeconfig, and the prime installation, which the kube-vip kubeconfig does not wait for on some
  sizes of a unit; in every order of creation a node joins after the prime node is installed. The
  download cache holds under each name only content with that sum, under any faults and
  any signals, and a vm gets its files from there; but a signal at the wrong moment loses a download
  that is then reported as a success. The remote command runs its programs in one order, returns only when the
  API has called the node ready, returns if that ever lasts, and hangs if the API keeps refusing.
  An apply of the client library creates an object exactly when the server misses it and puts it
  where it was asked to; it and the local command do nothing after a failure.
  The conversions succeed exactly when their parts parse. Several theorems state behaviour that the
  comments deny (kinds \<open>error\<close> and \<open>bounds\<close>): dropped errors, a panic on a failed download, a link
  that makes a second installation fail, a race on the kubeconfig.

  \<^bold>\<open>Abstractions.\<close> Slices are lists where a variable has its array to itself. One backing
  array is shared, by \<open>vmDepends\<close> and \<open>k8sDepends\<close> (libvirt.go 597): these two are slices of a store
  of arrays in the model too, whose capacities are the environment's. \<open>Libvirt_Values\<close> shows what
  comes of it: everything is as over lists, but the \<open>append\<close> of line 694 overwrites the last entry
  of \<open>k8sDepends\<close> exactly when the array has room for what it appends (\<open>slicesClash\<close>, computed from
  the number of vms and of files). \<open>DependsOn\<close> is what the slice holds when the call is made. A value
  known only at deployment is a symbolic piece \<open>Attr\<close> of its resource; the attributes of the zero
  \<open>Domain\<close>, which a k8s unit without a vm would use, are those of no resource. Permission bits are
  those asked for, before the umask. A symbolic link is a name of its own. Retry counters are
  unbounded integers. What is printed is not recorded except where the order of printing and doing
  matters.

  \<^bold>\<open>Not modelled.\<close> Signals outside the downloads; \<open>hackMap\<close> and the byte slices \<open>rke2Sus\<close> and \<open>rke2Debug\<close>, which are written and never
  read; the debug logger \<open>wtf\<close>. \<open>pkg/group\<close> has two types and no operation; \<open>k8s.go\<close> of
  \<open>pkg/lib/k8s\<close> is commented out but for its imports. \<open>gamma\<close> and \<open>pkg/lib/k8s\<close> do not compile
  (fields and a function of \<open>universe\<close> that do not exist; \<open>patcher\<close>, \<open>disk\<close> and \<open>gin\<close> are not
  imported), and nothing uses them: they are modelled as what they say, with what is missing as
  parameters.
\<close>

section \<open>Properties across components\<close>

text \<open>
  C12: the address and name that the deploying side puts behind \<open>--vip\<close> come out of the remote
  side as the two names of the server certificate, the name first.
\<close>

theorem vip_roundtrip:
  assumes "CHR '':'' \<notin> set (h_Ipv4 h)" and "CHR '':'' \<notin> set (h_Fqdn h)"
  shows "rke2Tls (vipText h) s = (Ok (asLines [''tls-san:'', ''  - '' @ h_Fqdn h, ''  - '' @ h_Ipv4 h]), s)"
proof -
  have "splitOn (CHR '':'') (vipText h) = [h_Ipv4 h, h_Fqdn h]"
    using assms splitOn_append [of "CHR '':''" "h_Ipv4 h" "h_Fqdn h"] by (simp add: vipText_def splitOn_unsplit)
  then show ?thesis by (simp add: rke2Tls_def Let_def indexG_def bindG_def returnG_def)
qed

theorem vip_roundtrip_witness:
  "rke2Tls ''10.0.0.9:a.d'' emptyWorld = (Ok (asLines [''tls-san:'', ''  - a.d'', ''  - 10.0.0.9'']), emptyWorld)"
  using vip_roundtrip [of "\<lparr>h_Fqdn = ''a.d'', h_Name = ''a'', h_Ipv4 = ''10.0.0.9''\<rparr>" emptyWorld]
  by (simp add: vipText_def)

text \<open>
  C21: for an input with a destination on the vm, a copy to a temporary file and its installation
  are registered, the second waiting for the first; and the file the copy reads lies where the
  download cache keeps it, so if it is there its content has the sum the configuration asks for.
\<close>

theorem provisioned_content:
  assumes "vmInput env (stateFor env base u) key d f ds w = (Ok ds', t)" and "rf_Dest (cf_Remote f) \<noteq> ''''"
    and "cacheInv env w" and "plainName (cf_Sha256Sum f)"
  shows "\<exists>copy inst p. nodes t = nodes w @ [copy, inst] \<and> ds' = ds @ [Suc (length (nodes w))] \<and>
    r_site copy = SCopyInput \<and> r_site inst = SInstallFile \<and> r_deps inst = [length (nodes w)] \<and>
    (''localPath'', str p) \<in> set (r_args copy) \<and>
    (\<forall>i. lookupPath (wfs t) p = Some (File i) \<longrightarrow> hexString (e_sha256 env (content (wfs t) i)) = cf_Sha256Sum f)"
proof -
  have ok: "envOk env" and inv: "fsInv env (wfs w)" using assms(3) by (simp_all add: cacheInv_def)
  have "st_cachedir (stateFor env base u) = pathJoin [cacheDir env, ''cache'']"
    by (simp add: stateFor_def cacheDir_def APPNAME_def)
  also have "\<dots> = absPath (parts (cacheDir env) @ [''cache''])"
    using ok by (simp add: pathJoin_plain rooted_cacheDir)
  finally have p: "pathJoin [st_cachedir (stateFor env base u), cf_Sha256Sum f] = cachePath env (cf_Sha256Sum f)"
    using ok assms(4) by (simp add: pathJoin_plain parts_cacheDir cachePath_def)
      (subst parts_absPath, auto dest: home_plain)
  have sum: "hexString (e_sha256 env (content (wfs w) i)) = cf_Sha256Sum f"
    if "lookupPath (wfs w) (cachePath env (cf_Sha256Sum f)) = Some (File i)" for i
    using that assms(4) inv ok by (auto simp: lookup_paths fsInv_def)
  have "within sameFs (vmInput env (stateFor env base u) key d f ds)"
    unfolding vmInput_def Let_def by (intro fs_frame)
  from withinD [OF this assms(1)] have fs: "wfs t = wfs w" by (simp add: sameFs_def)
  have "wp (vmInput env (stateFor env base u) key d f ds) (\<lambda>ds' t. \<exists>copy inst.
      nodes t = nodes w @ [copy, inst] \<and> ds' = ds @ [Suc (length (nodes w))] \<and> r_site copy = SCopyInput \<and>
      r_site inst = SInstallFile \<and> r_deps inst = [length (nodes w)] \<and>
      (''localPath'', str (cachePath env (cf_Sha256Sum f))) \<in> set (r_args copy)) (\<lambda>_. True) w"
    unfolding vmInput_def Let_def p if_P [OF assms(2)]
    by (intro wp_bind wp_sameNodes [OF randomString_frames(2)] engine.wp_create wp_return)
      (auto simp: remoteCopyFile_def remoteCommand_def)
  from wp_Ok [OF this assms(1)] sum fs show ?thesis by metis
qed

definition goodSum :: string where
  "goodSum = hexString (e_sha256 calmEnv ''u'')"

definition filledCache :: world where
  "filledCache = emptyWorld\<lparr>wfs := (wfs emptyWorld)\<lparr>names := [cachePath calmEnv goodSum \<mapsto> File 0],
     content := (\<lambda>_. ''u''), nextIno := 1\<rparr>\<rparr>"

lemma filledCache_inv: "plainName goodSum" "cacheInv calmEnv filledCache"
proof -
  show plain: "plainName goodSum" unfolding goodSum_def by (rule plain_hexString) (simp add: calmEnv_def)
  show "cacheInv calmEnv filledCache"
    unfolding cacheInv_def fsInv_def
    using plain cachePath_inj [OF envOk_calm(1)] cache_not_tmp [OF envOk_calm(1) plain]
    by (auto simp: envOk_calm filledCache_def emptyWorld_def goodSum_def [symmetric] split: if_splits)
qed

theorem provisioned_content_witness:
  "\<exists>copy p. hd (nodes (snd (vmInput calmEnv (stateFor calmEnv ''/b'' ''U'') sampleKey 4 (sampleInput goodSum) [] filledCache))) = copy \<and>
     (''localPath'', str p) \<in> set (r_args copy) \<and>
     (\<forall>i. lookupPath (wfs filledCache) p = Some (File i) \<longrightarrow> hexString (e_sha256 calmEnv (content (wfs filledCache) i)) = goodSum)"
proof -
  let ?run = "vmInput calmEnv (stateFor calmEnv ''/b'' ''U'') sampleKey 4 (sampleInput goodSum) [] filledCache"
  have "case fst ?run of Ok _ \<Rightarrow> True | _ \<Rightarrow> False" by code_simp
  then obtain ds' t where run: "?run = (Ok ds', t)" by (cases ?run) (auto split: outcome.splits)
  have sum: "plainName (cf_Sha256Sum (sampleInput goodSum))" using filledCache_inv(1) by (simp add: sampleInput_def)
  have dest: "rf_Dest (cf_Remote (sampleInput goodSum)) \<noteq> ''''" by (simp add: sampleInput_def)
  have "within sameFs (vmInput calmEnv (stateFor calmEnv ''/b'' ''U'') sampleKey 4 (sampleInput goodSum) [])"
    unfolding vmInput_def Let_def by (intro fs_frame)
  from withinD [OF this run] have "wfs t = wfs filledCache" by (simp add: sameFs_def)
  with provisioned_content [OF run dest filledCache_inv(2) sum] run show ?thesis
    by (auto simp: sampleInput_def filledCache_def [THEN arg_cong [where f = nodes]] emptyWorld_def)
qed

end
